(* ===== verification/Prelude.thy ===== *)
theory Prelude
  imports Main "HOL-Library.AList" "HOL-Library.Word"
begin

text \<open>
  The shared layer of the development: the fact collections the component theories fill,
  the Go base types (strings as byte lists, 64-bit integers with their wrap-around written
  out, 64-bit floats by their bit pattern), the results of fallible operations, and the
  generic lemmas on lists and maps that several components use.
\<close>

section \<open>Fact collections\<close>

named_theorems inv_defs \<open>definitions of the components' invariants\<close>
named_theorems go_defs \<open>definitions of the small Go helpers that proofs unfold\<close>

section \<open>Go base types\<close>

text \<open>
  A Go string is a byte sequence: \<^typ>\<open>string\<close> (a list of 8-bit characters). A
  \<open>float64\<close> is its IEEE-754 bit pattern, so that nothing about floats is assumed.
  An instant (\<open>time.Time\<close>) is the number of nanoseconds since the Unix epoch.
\<close>

type_synonym f64 = "64 word"
type_synonym instant = int
type_synonym duration = int

text \<open>Go's \<open>int64\<close> (and \<open>int\<close> on the 64-bit targets) wraps around in two's complement.\<close>

definition wrap64 :: "int \<Rightarrow> int" where
  "wrap64 n = (n + 2 ^ 63) mod 2 ^ 64 - 2 ^ 63"

definition int64_range :: "int \<Rightarrow> bool" where
  "int64_range n \<longleftrightarrow> - (2 ^ 63) \<le> n \<and> n < 2 ^ 63"

lemma wrap64_id [simp]: "int64_range n \<Longrightarrow> wrap64 n = n"
  by (simp add: wrap64_def int64_range_def)

lemma wrap64_range [simp]: "int64_range (wrap64 n)"
proof -
  have "0 \<le> (n + 2 ^ 63) mod 2 ^ 64" and "(n + 2 ^ 63) mod 2 ^ 64 < 2 ^ 64"
    by simp_all
  then show ?thesis
    by (simp add: wrap64_def int64_range_def)
qed

text \<open>Go's integer division and remainder truncate towards zero.\<close>

definition go_div :: "int \<Rightarrow> int \<Rightarrow> int" where
  "go_div a b = sgn a * sgn b * (\<bar>a\<bar> div \<bar>b\<bar>)"

definition go_mod :: "int \<Rightarrow> int \<Rightarrow> int" where
  "go_mod a b = a - b * go_div a b"

lemma go_div_nonneg [simp]: "0 \<le> a \<Longrightarrow> 0 < b \<Longrightarrow> go_div a b = a div b"
  by (cases "a = 0") (simp_all add: go_div_def)

lemma go_mod_nonneg [simp]: "0 \<le> a \<Longrightarrow> 0 < b \<Longrightarrow> go_mod a b = a mod b"
  by (simp add: go_mod_def minus_mult_div_eq_mod)

section \<open>Maps whose values are lists\<close>

text \<open>
  \<open>rows_at m k\<close> is Go's \<open>m[k]\<close> on a map of slices: the zero value (an empty slice) for
  a missing key. \<open>map_total\<close> is the number of elements in all slices.
\<close>

definition rows_at :: "('k \<rightharpoonup> 'a list) \<Rightarrow> 'k \<Rightarrow> 'a list" where
  "rows_at m k = (case m k of None \<Rightarrow> [] | Some xs \<Rightarrow> xs)"

definition map_total :: "('k \<rightharpoonup> 'a list) \<Rightarrow> nat" where
  "map_total m = (\<Sum>k \<in> dom m. length (rows_at m k))"

lemma rows_at_upd [simp]: "rows_at (m(k \<mapsto> xs)) j = (if j = k then xs else rows_at m j)"
  by (simp add: rows_at_def)

lemma rows_at_del [simp]: "rows_at (m(k := None)) j = (if j = k then [] else rows_at m j)"
  by (simp add: rows_at_def)

text \<open>The same with the update written out, as record simplification leaves it.\<close>

lemma rows_at_lam [simp]:
  "rows_at (\<lambda>a. if a = k then x else m a) j =
     (if j = k then (case x of None \<Rightarrow> [] | Some xs \<Rightarrow> xs) else rows_at m j)"
  by (simp add: rows_at_def)

lemma rows_at_empty [simp]: "rows_at Map.empty k = []"
  by (simp add: rows_at_def)

lemma rows_at_Some: "m k = Some xs \<Longrightarrow> rows_at m k = xs"
  by (simp add: rows_at_def)

lemma rows_at_None: "m k = None \<Longrightarrow> rows_at m k = []"
  by (simp add: rows_at_def)

lemma map_total_empty [simp]: "map_total Map.empty = 0"
  by (simp add: map_total_def)

lemma map_total_del_add:
  assumes "finite (dom m)"
  shows "map_total (m(k := None)) + length (rows_at m k) = map_total m"
proof (cases "k \<in> dom m")
  case True
  then have "map_total m = length (rows_at m k) + (\<Sum>j \<in> dom m - {k}. length (rows_at m j))"
    using assms by (simp add: map_total_def sum.remove)
  moreover have "map_total (m(k := None)) = (\<Sum>j \<in> dom m - {k}. length (rows_at m j))"
    by (auto simp: map_total_def intro!: sum.cong)
  ultimately show ?thesis by simp
next
  case False
  then have "m(k := None) = m" by (auto simp: fun_eq_iff)
  with False show ?thesis by (simp add: rows_at_def domIff)
qed

lemma map_total_upd_add:
  assumes "finite (dom m)"
  shows "map_total (m(k \<mapsto> xs)) + length (rows_at m k) = map_total m + length xs"
proof -
  have "map_total (m(k \<mapsto> xs)) = length xs + map_total (m(k := None))"
  proof -
    have d: "dom (m(k \<mapsto> xs)) = insert k (dom m - {k})" by auto
    have "map_total (m(k \<mapsto> xs)) = length xs + (\<Sum>j \<in> dom m - {k}. length (rows_at (m(k \<mapsto> xs)) j))"
      unfolding map_total_def d by (subst sum.insert) (use assms in auto)
    also have "(\<Sum>j \<in> dom m - {k}. length (rows_at (m(k \<mapsto> xs)) j)) = map_total (m(k := None))"
      by (auto simp: map_total_def intro!: sum.cong)
    finally show ?thesis .
  qed
  with map_total_del_add [OF assms, of k] show ?thesis by simp
qed

lemma rows_at_le_total: "finite (dom m) \<Longrightarrow> length (rows_at m k) \<le> map_total m"
  using map_total_del_add [of m k] by linarith

lemma map_total_0_iff:
  assumes "finite (dom m)"
  shows "map_total m = 0 \<longleftrightarrow> (\<forall>k. rows_at m k = [])"
proof
  assume "map_total m = 0"
  then show "\<forall>k. rows_at m k = []"
    using rows_at_le_total [OF assms] by (metis le_zero_eq length_0_conv)
next
  assume "\<forall>k. rows_at m k = []"
  then show "map_total m = 0" by (simp add: map_total_def)
qed

section \<open>Ranging over a Go map\<close>

text \<open>
  A \<open>for ... range m\<close> over a Go map visits every key once, in an unspecified order. A
  \<open>range_order\<close> is one way the runtime may choose these orders: for every finite map, an
  enumeration of its keys without repetition. Code that ranges over a map takes one as an
  argument, and what is proved holds for all of them.
\<close>

definition enumerates :: "(('k \<rightharpoonup> 'v) \<Rightarrow> 'k list) \<Rightarrow> bool" where
  "enumerates ord \<longleftrightarrow> (\<forall>m. finite (dom m) \<longrightarrow> set (ord m) = dom m \<and> distinct (ord m))"

lemma enumerates_ex: "\<exists>ord :: ('k \<rightharpoonup> 'v) \<Rightarrow> 'k list. enumerates ord"
proof -
  have "\<exists>ks. finite (dom m) \<longrightarrow> set ks = dom m \<and> distinct ks" for m :: "'k \<rightharpoonup> 'v"
  proof (cases "finite (dom m)")
    case True
    from finite_distinct_list [OF this] show ?thesis by blast
  qed simp
  then have "\<forall>m :: 'k \<rightharpoonup> 'v. \<exists>ks. finite (dom m) \<longrightarrow> set ks = dom m \<and> distinct ks"
    by (rule allI)
  from choice [OF this] show ?thesis by (simp only: enumerates_def)
qed

typedef ('k, 'v) key_order = "{ord :: ('k \<rightharpoonup> 'v) \<Rightarrow> 'k list. enumerates ord}"
  morphisms range_keys Key_order
  using enumerates_ex by (simp only: mem_Collect_eq)

type_synonym 'v range_order = "(string, 'v) key_order"

lemma range_keys_enum: "finite (dom m) \<Longrightarrow> set (range_keys ord m) = dom m \<and> distinct (range_keys ord m)"
  using range_keys [of ord] by (simp add: enumerates_def)

lemma range_keys_set [simp]: "finite (dom m) \<Longrightarrow> set (range_keys ord m) = dom m"
  by (simp add: range_keys_enum)

lemma range_keys_distinct [simp]: "finite (dom m) \<Longrightarrow> distinct (range_keys ord m)"
  by (simp add: range_keys_enum)

section \<open>Lists\<close>

lemma drop_takeWhile_eq: "drop (length (takeWhile P xs)) xs = dropWhile P xs"
  by (simp add: dropWhile_eq_drop)

text \<open>Keeping the last \<open>n\<close> elements of a list: what the bounded buffers promise.\<close>

definition last_n :: "nat \<Rightarrow> 'a list \<Rightarrow> 'a list" where
  "last_n n xs = drop (length xs - n) xs"

lemma length_last_n [simp]: "length (last_n n xs) = min n (length xs)"
  by (simp add: last_n_def)

lemma last_n_all [simp]: "length xs \<le> n \<Longrightarrow> last_n n xs = xs"
  by (simp add: last_n_def)

lemma last_n_0 [simp]: "last_n 0 xs = []"
  by (simp add: last_n_def)

lemma last_n_snoc_last_n: "last_n n (last_n n xs @ [x]) = last_n n (xs @ [x])"
  by (cases "length xs < n") (auto simp: last_n_def Suc_diff_le)

lemma set_last_n: "set (last_n n xs) \<subseteq> set xs"
  by (auto simp: last_n_def dest: in_set_dropD)

end
