(* ===== verification/GoText.thy ===== *)
theory GoText
  imports Prelude
begin

text \<open>
  The part of Go's \<open>strings\<close> and \<open>strconv\<close> packages the program calls, on byte strings:
  splitting and joining, trimming, prefix and substring replacement, decimal printing and
  parsing of integers, ASCII case mapping. Each function follows the library's documented
  behaviour on every input; the lemmas are the round trips the components use.
\<close>

section \<open>Splitting and joining\<close>

text \<open>\<open>strings.Split(s, sep)\<close> for a one-byte separator: never empty.\<close>

fun split_on :: "char \<Rightarrow> string \<Rightarrow> string list" where
  "split_on c [] = [[]]"
| "split_on c (x # xs) =
     (if x = c then [] # split_on c xs
      else (case split_on c xs of [] \<Rightarrow> [[x]] | p # ps \<Rightarrow> (x # p) # ps))"

text \<open>\<open>strings.Join(parts, sep)\<close>.\<close>

fun join :: "string \<Rightarrow> string list \<Rightarrow> string" where
  "join sep [] = []"
| "join sep [p] = p"
| "join sep (p # ps) = p @ sep @ join sep ps"

lemma split_on_not_Nil [simp]: "split_on c s \<noteq> []"
  by (cases s) (auto split: list.splits)

lemma join_Cons: "ps \<noteq> [] \<Longrightarrow> join sep (p # ps) = p @ sep @ join sep ps"
  by (cases ps) auto

lemma join_split_on: "join [c] (split_on c s) = s"
proof (induction s)
  case Nil
  show ?case by simp
next
  case (Cons x s)
  obtain p ps where "split_on c s = p # ps"
    by (meson neq_Nil_conv split_on_not_Nil)
  with Cons show ?case by (cases ps) (auto simp: join_Cons)
qed

lemma split_on_parts: "p \<in> set (split_on c s) \<Longrightarrow> c \<notin> set p"
proof (induction s arbitrary: p)
  case (Cons x s)
  obtain q qs where "split_on c s = q # qs"
    by (meson neq_Nil_conv split_on_not_Nil)
  with Cons show ?case by (auto split: if_splits)
qed simp

lemma split_on_no_sep: "c \<notin> set s \<Longrightarrow> split_on c s = [s]"
  by (induction s) auto

lemma set_join: "set (join sep ps) \<subseteq> set sep \<union> (\<Union>p \<in> set ps. set p)"
  by (induction sep ps rule: join.induct) auto

section \<open>Trimming white space\<close>

text \<open>
  \<open>strings.TrimSpace\<close> removes leading and trailing Unicode white space. The encodings
  below are the UTF-8 forms of every rune with the \<open>White_Space\<close> property
  (\<open>unicode.IsSpace\<close>).
\<close>

definition bytes :: "nat list \<Rightarrow> string" where
  "bytes ns = map char_of ns"

definition space_encodings :: "string list" where
  "space_encodings = map bytes
     ([[9], [10], [11], [12], [13], [32], [194, 133], [194, 160], [225, 154, 128]]
      @ map (\<lambda>k. [226, 128, k]) [128, 129, 130, 131, 132, 133, 134, 135, 136, 137, 138, 168, 169, 175]
      @ [[226, 129, 159], [227, 128, 128]])"

fun strip_prefix :: "string \<Rightarrow> string \<Rightarrow> string option" where
  "strip_prefix [] s = Some s"
| "strip_prefix (p # ps) [] = None"
| "strip_prefix (p # ps) (x # xs) = (if p = x then strip_prefix ps xs else None)"

lemma strip_prefix_Some: "strip_prefix p s = Some r \<longleftrightarrow> s = p @ r"
  by (induction p s rule: strip_prefix.induct) auto

definition strip_one :: "string list \<Rightarrow> string \<Rightarrow> string option" where
  "strip_one es s =
     (case filter (\<lambda>e. e \<noteq> [] \<and> strip_prefix e s \<noteq> None) es of
        [] \<Rightarrow> None | e # _ \<Rightarrow> strip_prefix e s)"

lemma strip_one_shorter: "strip_one es s = Some r \<Longrightarrow> length r < length s"
  by (auto simp: strip_one_def strip_prefix_Some filter_eq_Cons_iff split: list.splits)

function trim_left_of :: "string list \<Rightarrow> string \<Rightarrow> string" where
  "trim_left_of es s = (case strip_one es s of None \<Rightarrow> s | Some r \<Rightarrow> trim_left_of es r)"
  by pat_completeness auto
termination
  by (relation "measure (\<lambda>(es, s). length s)") (auto dest: strip_one_shorter)

declare trim_left_of.simps [simp del]

definition trim_space :: "string \<Rightarrow> string" where
  "trim_space s =
     (let l = trim_left_of space_encodings s
      in rev (trim_left_of (map rev space_encodings) (rev l)))"

lemma trim_left_of_suffix: "\<exists>p. s = p @ trim_left_of es s"
proof (induction es s rule: trim_left_of.induct)
  case (1 es s)
  show ?case
  proof (cases "strip_one es s")
    case None
    then show ?thesis by (simp add: trim_left_of.simps [of es s])
  next
    case (Some r)
    then obtain p where p: "r = p @ trim_left_of es r" using 1 by blast
    obtain e where e: "s = e @ r"
      using Some by (auto simp: strip_one_def strip_prefix_Some filter_eq_Cons_iff split: list.splits)
    have "trim_left_of es s = trim_left_of es r"
      using Some by (simp add: trim_left_of.simps [of es s])
    with p e have "s = (e @ p) @ trim_left_of es s" by simp
    then show ?thesis by blast
  qed
qed

lemma trim_left_of_set: "set (trim_left_of es s) \<subseteq> set s"
  using trim_left_of_suffix [of s es] by (metis set_append sup_ge2)

lemma trim_space_set: "set (trim_space s) \<subseteq> set s"
proof -
  have "set (rev (trim_left_of es' (rev (trim_left_of es s)))) \<subseteq> set s" for es es'
    using trim_left_of_set [of es' "rev (trim_left_of es s)"] trim_left_of_set [of es s] by auto
  then show ?thesis by (simp add: trim_space_def Let_def)
qed

lemma trim_space_Nil [simp]: "trim_space [] = []"
  by (simp add: trim_space_def Let_def trim_left_of.simps [of _ "[]"] strip_one_def
      strip_prefix_Some filter_empty_conv split: list.splits)

section \<open>Substrings\<close>

text \<open>\<open>strings.Replace(s, old, new, 1)\<close> for a non-empty \<open>old\<close>: the first occurrence.\<close>

fun replace_first :: "string \<Rightarrow> string \<Rightarrow> string \<Rightarrow> string" where
  "replace_first old new [] = []"
| "replace_first old new (x # xs) =
     (case strip_prefix old (x # xs) of
        Some r \<Rightarrow> new @ r
      | None \<Rightarrow> x # replace_first old new xs)"

text \<open>\<open>strings.ReplaceAll(s, old, new)\<close> for a non-empty \<open>old\<close>: left to right, not overlapping.\<close>

function replace_all :: "string \<Rightarrow> string \<Rightarrow> string \<Rightarrow> string" where
  "replace_all old new s =
     (case s of [] \<Rightarrow> []
      | x # xs \<Rightarrow>
          (if old = [] then s
           else case strip_prefix old s of
              Some r \<Rightarrow> new @ replace_all old new r
            | None \<Rightarrow> x # replace_all old new xs))"
  by pat_completeness auto
termination
  by (relation "measure (\<lambda>(old, new, s). length s)") (auto simp: strip_prefix_Some)

declare replace_all.simps [simp del]

lemma replace_all_Nil [simp]: "replace_all old new [] = []"
  by (simp add: replace_all.simps)

lemma replace_all_Cons:
  "old \<noteq> [] \<Longrightarrow> replace_all old new (x # xs) =
     (case strip_prefix old (x # xs) of
        Some r \<Rightarrow> new @ replace_all old new r
      | None \<Rightarrow> x # replace_all old new xs)"
  by (simp add: replace_all.simps [of old new "x # xs"])

lemma set_replace_first: "set (replace_first old new s) \<subseteq> set new \<union> set s"
proof (induction old new s rule: replace_first.induct)
  case (2 old new x xs)
  show ?case
  proof (cases "strip_prefix old (x # xs)")
    case None
    with 2 show ?thesis by auto
  next
    case (Some r)
    then have "set r \<subseteq> set (x # xs)" by (metis strip_prefix_Some set_append sup_ge2)
    with Some show ?thesis by auto
  qed
qed simp

section \<open>Case mapping and classification of ASCII bytes\<close>

definition byte_of :: "char \<Rightarrow> nat" where
  "byte_of c = of_char c"

definition is_digit :: "char \<Rightarrow> bool" where
  "is_digit c \<longleftrightarrow> 48 \<le> byte_of c \<and> byte_of c \<le> 57"

definition is_upper :: "char \<Rightarrow> bool" where
  "is_upper c \<longleftrightarrow> 65 \<le> byte_of c \<and> byte_of c \<le> 90"

definition is_lower :: "char \<Rightarrow> bool" where
  "is_lower c \<longleftrightarrow> 97 \<le> byte_of c \<and> byte_of c \<le> 122"

definition is_ascii :: "char \<Rightarrow> bool" where
  "is_ascii c \<longleftrightarrow> byte_of c < 128"

definition ascii_lower :: "char \<Rightarrow> char" where
  "ascii_lower c = (if is_upper c then char_of (byte_of c + 32) else c)"

definition ascii_upper :: "char \<Rightarrow> char" where
  "ascii_upper c = (if is_lower c then char_of (byte_of c - 32) else c)"

text \<open>
  \<open>strings.EqualFold(s, t)\<close> for a \<open>t\<close> of ASCII letters other than \<open>k\<close> and \<open>s\<close> (the only
  ASCII letters that a non-ASCII rune folds to): equality up to ASCII case.
\<close>

definition equal_fold_ascii :: "string \<Rightarrow> string \<Rightarrow> bool" where
  "equal_fold_ascii s t \<longleftrightarrow> map ascii_lower s = map ascii_lower t"

text \<open>A string that starts and ends with visible ASCII has nothing to trim.\<close>

definition is_graphic :: "char \<Rightarrow> bool" where
  "is_graphic c \<longleftrightarrow> 32 < byte_of c \<and> byte_of c < 127"

lemma space_not_graphic:
  "list_all (\<lambda>e. \<not> is_graphic (hd e)) space_encodings"
  "list_all (\<lambda>e. \<not> is_graphic (hd e)) (map rev space_encodings)"
  by (simp_all add: space_encodings_def bytes_def is_graphic_def byte_of_def)

lemma trim_left_graphic:
  assumes "list_all (\<lambda>e. \<not> is_graphic (hd e)) es" and "is_graphic c"
  shows "trim_left_of es (c # s) = c # s"
proof -
  have no: "\<not> (e \<noteq> [] \<and> strip_prefix e (c # s) \<noteq> None)" if "e \<in> set es" for e
  proof (cases e)
    case (Cons a as)
    have "\<not> is_graphic (hd e)" using assms(1) that by (simp add: list_all_iff)
    with assms(2) Cons show ?thesis by auto
  qed simp
  have "filter (\<lambda>e. e \<noteq> [] \<and> strip_prefix e (c # s) \<noteq> None) es = []"
    by (rule filter_False) (use no in blast)
  then have "strip_one es (c # s) = None" by (simp add: strip_one_def)
  then show ?thesis by (simp add: trim_left_of.simps [of es "c # s"])
qed

lemma trim_space_graphic:
  assumes "s \<noteq> []" and "is_graphic (hd s)" and "is_graphic (last s)"
  shows "trim_space s = s"
proof -
  obtain c cs where s: "s = c # cs" using assms(1) by (cases s) auto
  obtain d ds where r: "rev s = d # ds" using assms(1) by (cases "rev s") auto
  have "d = last s" using r assms(1) by (metis hd_rev list.sel(1))
  with assms(3) have "trim_left_of (map rev space_encodings) (rev s) = rev s"
    unfolding r by (intro trim_left_graphic space_not_graphic) simp
  moreover have "trim_left_of space_encodings s = s"
    unfolding s using assms(2) s by (intro trim_left_graphic space_not_graphic) simp
  ultimately show ?thesis by (simp add: trim_space_def Let_def)
qed

section \<open>Decimal integers\<close>

definition digit_char :: "nat \<Rightarrow> char" where
  "digit_char d = char_of (48 + d)"

definition digit_val :: "char \<Rightarrow> nat" where
  "digit_val c = byte_of c - 48"

fun show_nat :: "nat \<Rightarrow> string" where
  "show_nat n = (if n < 10 then [digit_char n] else show_nat (n div 10) @ [digit_char (n mod 10)])"

declare show_nat.simps [simp del]

text \<open>\<open>strconv.Itoa\<close>, \<open>strconv.FormatInt(n, 10)\<close> and the \<open>%d\<close> and \<open>%v\<close> verbs on integers.\<close>

definition show_int :: "int \<Rightarrow> string" where
  "show_int n = (if n < 0 then CHR ''-'' # show_nat (nat (- n)) else show_nat (nat n))"

definition parse_nat :: "string \<Rightarrow> nat option" where
  "parse_nat s =
     (if s \<noteq> [] \<and> list_all is_digit s then Some (foldl (\<lambda>n c. 10 * n + digit_val c) 0 s) else None)"

text \<open>
  \<open>strconv.ParseInt(s, 10, 64)\<close> (and \<open>strconv.Atoi\<close> on a 64-bit target): an optional sign
  and digits only; a syntax error and a value out of range are both errors.
\<close>

definition parse_int64 :: "string \<Rightarrow> int option" where
  "parse_int64 s =
     (case s of
        [] \<Rightarrow> None
      | c # cs \<Rightarrow>
          (let v = (if c = CHR ''-'' then map_option (\<lambda>n. - int n) (parse_nat cs)
                    else if c = CHR ''+'' then map_option int (parse_nat cs)
                    else map_option int (parse_nat s))
           in (case v of None \<Rightarrow> None | Some n \<Rightarrow> if int64_range n then Some n else None)))"

lemma byte_of_digit_char [simp]: "d < 10 \<Longrightarrow> byte_of (digit_char d) = 48 + d"
  by (simp add: byte_of_def digit_char_def)

lemma is_digit_digit_char [simp]: "d < 10 \<Longrightarrow> is_digit (digit_char d)"
  by (simp add: is_digit_def)

lemma digit_val_digit_char [simp]: "d < 10 \<Longrightarrow> digit_val (digit_char d) = d"
  by (simp add: digit_val_def)

lemma show_nat_not_Nil [simp]: "show_nat n \<noteq> []"
  by (subst show_nat.simps) simp

lemma show_nat_digits: "list_all is_digit (show_nat n)"
proof (induction n rule: show_nat.induct)
  case (1 n)
  then show ?case by (subst show_nat.simps) simp
qed

lemma show_nat_value: "foldl (\<lambda>n c. 10 * n + digit_val c) 0 (show_nat n) = n"
proof (induction n rule: show_nat.induct)
  case (1 n)
  then show ?case by (subst show_nat.simps) simp
qed

lemma parse_show_nat [simp]: "parse_nat (show_nat n) = Some n"
  by (simp add: parse_nat_def show_nat_digits show_nat_value)

lemma show_nat_hd: "\<exists>c cs. show_nat n = c # cs \<and> is_digit c"
  using show_nat_digits [of n] by (cases "show_nat n") auto

lemma parse_show_int: "int64_range n \<Longrightarrow> parse_int64 (show_int n) = Some n"
proof (cases "n < 0")
  case True
  then show "int64_range n \<Longrightarrow> ?thesis" by (simp add: parse_int64_def show_int_def)
next
  case False
  obtain c cs where s: "show_nat (nat n) = c # cs" "is_digit c"
    using show_nat_hd by blast
  then have "c \<noteq> CHR ''-''" "c \<noteq> CHR ''+''" by (auto simp: is_digit_def byte_of_def)
  moreover have "parse_nat (c # cs) = Some (nat n)" by (simp flip: s(1))
  ultimately show "int64_range n \<Longrightarrow> ?thesis"
    using False s by (simp add: parse_int64_def show_int_def)
qed

lemma show_int_inj: "show_int m = show_int n \<Longrightarrow> m = n"
proof -
  assume eq: "show_int m = show_int n"
  have neg: "show_nat k \<noteq> CHR ''-'' # cs" for k cs
    using show_nat_hd [of k] by (auto simp: is_digit_def byte_of_def)
  have inj: "show_nat j = show_nat k \<Longrightarrow> j = k" for j k
    by (metis parse_show_nat option.inject)
  from eq show ?thesis
    by (auto simp: show_int_def neg neg [symmetric] dest!: inj split: if_splits)
qed

end
