(* ===== verification/GoValue.thy ===== *)
theory GoValue
  imports GoText "HOL-Library.Char_ord" "HOL-Library.List_Lexorder"
begin

text \<open>
  Dynamically typed Go values (\<open>interface{}\<close>), as \<open>encoding/json\<close> produces them and the
  database drivers add to them; string-keyed maps of such values (a result row, an anomaly
  event, a rule dictionary); the \<open>%v\<close> verb on them and the conversion of a
  \<open>float64\<close> to an \<open>int64\<close>.
\<close>

section \<open>A concrete map order\<close>

text \<open>Visiting the keys in sorted order is one of the orders a \<open>range\<close> may take.\<close>

setup_lifting type_definition_key_order

lift_definition sorted_order :: "('k :: linorder, 'v) key_order" is "\<lambda>m. sorted_list_of_set (dom m)"
  by (simp add: enumerates_def)

section \<open>Dynamic values\<close>

datatype gval =
    GNil
  | GBool bool
  | GInt int
  | GFloat f64
  | GStr string
  | GList "gval list"
  | GMap "(string \<times> gval) list"

type_synonym row = "(string \<times> gval) list"

text \<open>
  A Go map \<open>map[string]interface{}\<close> is an association list; only \<open>map_of\<close> of it is
  observable, and every write below goes through \<^const>\<open>AList.update\<close>, which keeps keys unique.
  \<open>row_val\<close> is the one-result read \<open>row[k]\<close> (nil for a missing key), \<open>row_str\<close> the type
  assertion \<open>s, _ := row[k].(string)\<close> (the empty string if the value is not a string).
\<close>

definition row_set :: "string \<Rightarrow> gval \<Rightarrow> row \<Rightarrow> row" where
  "row_set k v r = AList.update k v r"

definition row_has :: "row \<Rightarrow> string \<Rightarrow> bool" where
  "row_has r k \<longleftrightarrow> map_of r k \<noteq> None"

definition row_val :: "row \<Rightarrow> string \<Rightarrow> gval" where
  "row_val r k = (case map_of r k of None \<Rightarrow> GNil | Some v \<Rightarrow> v)"

fun as_str :: "gval \<Rightarrow> string option" where
  "as_str (GStr s) = Some s"
| "as_str _ = None"

fun as_map :: "gval \<Rightarrow> row option" where
  "as_map (GMap m) = Some m"
| "as_map _ = None"

fun as_list :: "gval \<Rightarrow> gval list option" where
  "as_list (GList xs) = Some xs"
| "as_list _ = None"

definition row_str :: "row \<Rightarrow> string \<Rightarrow> string" where
  "row_str r k = (case as_str (row_val r k) of None \<Rightarrow> [] | Some s \<Rightarrow> s)"

lemma map_of_row_set [simp]: "map_of (row_set k v r) = (map_of r)(k \<mapsto> v)"
  by (simp add: row_set_def update_conv')

lemma row_has_set [simp]: "row_has (row_set k v r) j \<longleftrightarrow> j = k \<or> row_has r j"
  by (auto simp: row_has_def)

lemma row_val_set [simp]: "row_val (row_set k v r) j = (if j = k then v else row_val r j)"
  by (simp add: row_val_def)

lemma row_str_set [simp]:
  "row_str (row_set k v r) j = (if j = k then (case as_str v of None \<Rightarrow> [] | Some s \<Rightarrow> s) else row_str r j)"
  by (simp add: row_str_def)

lemma row_val_not_has: "\<not> row_has r k \<Longrightarrow> row_val r k = GNil"
  by (simp add: row_val_def row_has_def)

lemma row_str_not_has: "\<not> row_has r k \<Longrightarrow> row_str r k = []"
  by (simp add: row_str_def row_val_not_has)

lemma row_str_eq_nonempty: "row_str r k = s \<Longrightarrow> s \<noteq> [] \<Longrightarrow> map_of r k = Some (GStr s)"
  by (auto simp: row_str_def row_val_def split: option.splits elim!: as_str.elims)

lemma as_str_Some_iff: "as_str v = Some s \<longleftrightarrow> v = GStr s"
  by (cases v) auto

lemma as_map_Some_iff: "as_map v = Some m \<longleftrightarrow> v = GMap m"
  by (cases v) auto

lemma as_list_Some_iff: "as_list v = Some xs \<longleftrightarrow> v = GList xs"
  by (cases v) auto

section \<open>The \<open>%v\<close> verb\<close>

text \<open>
  \<open>ff\<close> formats a float (\<open>strconv\<close>'s shortest \<open>%g\<close>); everything else is spelt out. Maps
  print with sorted keys.
\<close>

function fmt_v :: "(f64 \<Rightarrow> string) \<Rightarrow> gval \<Rightarrow> string" where
  "fmt_v ff GNil = ''<nil>''"
| "fmt_v ff (GBool b) = (if b then ''true'' else ''false'')"
| "fmt_v ff (GInt n) = show_int n"
| "fmt_v ff (GFloat f) = ff f"
| "fmt_v ff (GStr s) = s"
| "fmt_v ff (GList xs) = ''['' @ join '' '' (map (fmt_v ff) xs) @ '']''"
| "fmt_v ff (GMap kvs) =
     ''map['' @ join '' '' (map (\<lambda>kv. fst kv @ '':'' @ snd kv)
        (sort_key fst (map (\<lambda>kv. (fst kv, fmt_v ff (snd kv))) kvs))) @ '']''"
  by pat_completeness auto
termination
proof (relation "measure (\<lambda>(ff, v). size v)", goal_cases)
  case (2 ff xs x)
  then show ?case by (induction xs) auto
next
  case (3 ff kvs x)
  then show ?case by (induction kvs) auto
qed simp

section \<open>float64 to int64\<close>

text \<open>
  \<open>int64(f)\<close> truncates towards zero. Out of range (and for NaN and infinities) Go leaves the
  result to the implementation; on amd64, the deployment target, it is the least \<open>int64\<close>.
\<close>

definition f64_neg :: "f64 \<Rightarrow> bool" where
  "f64_neg f \<longleftrightarrow> 2 ^ 63 \<le> uint f"

definition f64_exp :: "f64 \<Rightarrow> nat" where
  "f64_exp f = nat (uint f div 2 ^ 52 mod 2 ^ 11)"

definition f64_frac :: "f64 \<Rightarrow> int" where
  "f64_frac f = uint f mod 2 ^ 52"

definition f64_trunc :: "f64 \<Rightarrow> int option" where
  "f64_trunc f =
     (if f64_exp f = 2047 then None
      else let m = (if f64_exp f = 0 then f64_frac f else 2 ^ 52 + f64_frac f);
               e = (if f64_exp f = 0 then 1 else f64_exp f);
               v = (if 1075 \<le> e then m * 2 ^ (e - 1075) else m div 2 ^ (1075 - e))
           in Some (if f64_neg f then - v else v))"

definition f64_to_int64 :: "f64 \<Rightarrow> int" where
  "f64_to_int64 f =
     (case f64_trunc f of
        None \<Rightarrow> - (2 ^ 63)
      | Some n \<Rightarrow> if int64_range n then n else - (2 ^ 63))"

lemma f64_to_int64_range [simp]: "int64_range (f64_to_int64 f)"
  by (auto simp: f64_to_int64_def int64_range_def split: option.splits)

lemma f64_to_int64_300000: "f64_to_int64 0x41124F8000000000 = 300000"
  by (simp add: f64_to_int64_def f64_trunc_def f64_exp_def f64_frac_def f64_neg_def
      Let_def int64_range_def)

end
