(* ===== verification/GoTime.thy ===== *)
theory GoTime
  imports GoValue
begin

text \<open>
  Go's \<open>time\<close> package as far as the program uses it: the proleptic Gregorian calendar, and
  \<open>time.Parse\<close> on the layouts the program passes to it, with the parser's documented
  leniency (a one-digit hour, runs of spaces for a layout space, an unannounced fraction of
  a second). An instant is a number of nanoseconds since the Unix epoch.
\<close>

section \<open>Calendar\<close>

definition is_leap :: "int \<Rightarrow> bool" where
  "is_leap y \<longleftrightarrow> y mod 4 = 0 \<and> (y mod 100 \<noteq> 0 \<or> y mod 400 = 0)"

definition month_lengths :: "int \<Rightarrow> nat list" where
  "month_lengths y = [31, if is_leap y then 29 else 28, 31, 30, 31, 30, 31, 31, 30, 31, 30, 31]"

definition days_in :: "int \<Rightarrow> nat \<Rightarrow> nat" where
  "days_in y m = (if 1 \<le> m \<and> m \<le> 12 then month_lengths y ! (m - 1) else 0)"

definition days_before_year :: "int \<Rightarrow> int" where
  "days_before_year y =
     (let p = y - 1 in 365 * p + p div 4 - p div 100 + p div 400 - 719162)"

definition days_before_month :: "int \<Rightarrow> nat \<Rightarrow> int" where
  "days_before_month y m = int (sum_list (take (m - 1) (month_lengths y)))"

definition civil_days :: "int \<Rightarrow> nat \<Rightarrow> nat \<Rightarrow> int" where
  "civil_days y m d = days_before_year y + days_before_month y m + int d - 1"

record civil =
  c_year :: int
  c_month :: nat
  c_day :: nat
  c_hour :: nat
  c_min :: nat
  c_sec :: nat
  c_nano :: nat

definition zero_civil :: civil where
  "zero_civil = \<lparr>c_year = 0, c_month = 1, c_day = 1, c_hour = 0, c_min = 0, c_sec = 0, c_nano = 0\<rparr>"

text \<open>\<open>time.Date(year, month, ..., zone)\<close> for a zone that is \<open>off\<close> seconds east of UTC.\<close>

definition instant_of :: "int \<Rightarrow> civil \<Rightarrow> instant" where
  "instant_of off c =
     (civil_days (c_year c) (c_month c) (c_day c) * 86400
      + int (c_hour c) * 3600 + int (c_min c) * 60 + int (c_sec c) - off) * 1000000000
     + int (c_nano c)"

lemma epoch_is_zero: "civil_days 1970 1 1 = 0"
  by (simp add: civil_days_def days_before_year_def days_before_month_def Let_def)

section \<open>Parsing\<close>

datatype chunk = LongYear | ZeroMonth | ZeroDay | Hour24 | ZeroMin | ZeroSec | ColonTZ | Lit char

definition layout_datetime :: "chunk list" where
  \<comment> \<open>\<open>2006-01-02 15:04:05\<close>\<close>
  "layout_datetime = [LongYear, Lit CHR ''-'', ZeroMonth, Lit CHR ''-'', ZeroDay, Lit CHR '' '',
     Hour24, Lit CHR '':'', ZeroMin, Lit CHR '':'', ZeroSec]"

definition layout_datetime_T :: "chunk list" where
  \<comment> \<open>\<open>2006-01-02T15:04:05\<close>\<close>
  "layout_datetime_T = [LongYear, Lit CHR ''-'', ZeroMonth, Lit CHR ''-'', ZeroDay, Lit CHR ''T'',
     Hour24, Lit CHR '':'', ZeroMin, Lit CHR '':'', ZeroSec]"

definition layout_RFC3339 :: "chunk list" where
  "layout_RFC3339 = layout_datetime_T @ [ColonTZ]"

text \<open>
  \<open>getnum\<close> reads two digits, or one where the layout does not insist; \<open>take_spaces\<close> is the
  library's \<open>cutspace\<close>.
\<close>

fun getnum :: "bool \<Rightarrow> string \<Rightarrow> (nat \<times> string) option" where
  "getnum fixed [] = None"
| "getnum fixed [a] = (if is_digit a \<and> \<not> fixed then Some (digit_val a, []) else None)"
| "getnum fixed (a # b # s) =
     (if \<not> is_digit a then None
      else if is_digit b then Some (10 * digit_val a + digit_val b, s)
      else if fixed then None else Some (digit_val a, b # s))"

definition take_spaces :: "string \<Rightarrow> string" where
  "take_spaces s = dropWhile (\<lambda>c. c = CHR '' '') s"

definition get_ranged :: "bool \<Rightarrow> (nat \<Rightarrow> bool) \<Rightarrow> string \<Rightarrow> (nat \<times> string) option" where
  "get_ranged fixed ok s =
     (case getnum fixed s of
        None \<Rightarrow> None
      | Some (n, r) \<Rightarrow> if ok n then Some (n, r) else None)"

text \<open>A fraction of a second: nine digits count, further ones are dropped.\<close>

definition parse_fraction :: "string \<Rightarrow> nat \<times> string" where
  "parse_fraction s =
     (case s of
        c # d # r \<Rightarrow>
          (if (c = CHR ''.'' \<or> c = CHR '','') \<and> is_digit d
           then let ds = takeWhile is_digit (d # r); k = take 9 ds
                in (foldl (\<lambda>n c. 10 * n + digit_val c) 0 k * 10 ^ (9 - length k),
                    dropWhile is_digit (d # r))
           else (0, s))
      | _ \<Rightarrow> (0, s))"

definition parse_zone :: "string \<Rightarrow> (int \<times> string) option" where
  "parse_zone s =
     (case s of
        [] \<Rightarrow> None
      | c # r \<Rightarrow>
          (if c = CHR ''Z'' then Some (0, r)
           else if length s < 6 \<or> s ! 3 \<noteq> CHR '':'' then None
           else (case (get_ranged True (\<lambda>h. h \<le> 24) (take 2 r),
                       get_ranged True (\<lambda>m. m \<le> 60) (take 2 (drop 4 s))) of
              (Some (h, _), Some (m, _)) \<Rightarrow>
                (let off = (int h * 60 + int m) * 60
                 in if c = CHR ''+'' then Some (off, drop 6 s)
                    else if c = CHR ''-'' then Some (- off, drop 6 s) else None)
            | _ \<Rightarrow> None)))"

text \<open>
  One layout chunk consumes a part of the value and sets the fields it stands for. The
  state is the fields read so far and the zone offset.
\<close>

fun parse_chunk :: "chunk \<Rightarrow> string \<Rightarrow> civil \<times> int \<Rightarrow> ((civil \<times> int) \<times> string) option" where
  "parse_chunk LongYear s (c, z) =
     (if 4 \<le> length s \<and> list_all is_digit (take 4 s)
      then map_option (\<lambda>n. ((c\<lparr>c_year := int n\<rparr>, z), drop 4 s)) (parse_nat (take 4 s))
      else None)"
| "parse_chunk ZeroMonth s (c, z) =
     map_option (\<lambda>(n, r). ((c\<lparr>c_month := n\<rparr>, z), r)) (get_ranged True (\<lambda>n. 0 < n \<and> n \<le> 12) s)"
| "parse_chunk ZeroDay s (c, z) =
     map_option (\<lambda>(n, r). ((c\<lparr>c_day := n\<rparr>, z), r)) (get_ranged True (\<lambda>_. True) s)"
| "parse_chunk Hour24 s (c, z) =
     map_option (\<lambda>(n, r). ((c\<lparr>c_hour := n\<rparr>, z), r)) (get_ranged False (\<lambda>n. n < 24) s)"
| "parse_chunk ZeroMin s (c, z) =
     map_option (\<lambda>(n, r). ((c\<lparr>c_min := n\<rparr>, z), r)) (get_ranged True (\<lambda>n. n < 60) s)"
| "parse_chunk ZeroSec s (c, z) =
     (case get_ranged True (\<lambda>n. n < 60) s of
        None \<Rightarrow> None
      | Some (n, r) \<Rightarrow>
          (let (ns, r') = parse_fraction r in Some ((c\<lparr>c_sec := n, c_nano := ns\<rparr>, z), r')))"
| "parse_chunk ColonTZ s (c, z) = map_option (\<lambda>(off, r). ((c, off), r)) (parse_zone s)"
| "parse_chunk (Lit l) s (c, z) =
     (if l = CHR '' ''
      then (if s \<noteq> [] \<and> hd s \<noteq> CHR '' '' then None else Some ((c, z), take_spaces s))
      else (case s of [] \<Rightarrow> None | x # r \<Rightarrow> if x = l then Some ((c, z), r) else None))"

fun parse_chunks :: "chunk list \<Rightarrow> string \<Rightarrow> civil \<times> int \<Rightarrow> (civil \<times> int) option" where
  "parse_chunks [] s st = (if s = [] then Some st else None)"
| "parse_chunks (k # ks) s st =
     (case parse_chunk k s st of None \<Rightarrow> None | Some (st', r) \<Rightarrow> parse_chunks ks r st')"

text \<open>\<open>time.ParseInLocation(layout, s, zone)\<close>; the day is checked against its month last.\<close>

definition time_parse :: "chunk list \<Rightarrow> int \<Rightarrow> string \<Rightarrow> instant option" where
  "time_parse layout off s =
     (case parse_chunks layout s (zero_civil, off) of
        None \<Rightarrow> None
      | Some (c, z) \<Rightarrow>
          if 1 \<le> c_day c \<and> c_day c \<le> days_in (c_year c) (c_month c)
          then Some (instant_of z c) else None)"

definition ist_offset :: int where
  "ist_offset = 5 * 60 * 60 + 30 * 60"

lemma parse_ist_example:
  "time_parse layout_datetime ist_offset ''2026-07-06 14:30:00'' = Some (1783328400 * 1000000000)"
  by code_simp

end
