(* ===== verification/LiveStore.thy ===== *)
theory LiveStore
  imports GoTime
begin

text \<open>
  \<open>internal/services/livestore.go\<close>: the in-memory rolling store of live rule results. The
  state is the row slices per rule, the per-rule index from a row's composite key to its
  slice position, the counters and the configured limits. Every operation that holds the
  write lock is a function on the state. Where the code ranges over a Go map, the order is
  an argument \<open>ord\<close>.

  The invariant \<open>ls_inv\<close> says what the code relies on between operations: the index is
  exactly the one a rebuild would compute, the row counter is the number of rows held, no
  rule has an empty slice or an empty name, and every row sits under its own rule.
\<close>

section \<open>State\<close>

record live_store =
  ls_data :: "string \<rightharpoonup> row list"
  ls_index :: "string \<rightharpoonup> (string \<rightharpoonup> nat)"
  ls_total :: int
  ls_dropped :: int
  ls_max :: int
  ls_hours :: int

definition new_live_store :: "int \<Rightarrow> int \<Rightarrow> live_store" where
  "new_live_store maxRows hours =
     \<lparr>ls_data = Map.empty, ls_index = Map.empty, ls_total = 0, ls_dropped = 0,
      ls_max = maxRows, ls_hours = hours\<rparr>"

text \<open>The rule a row belongs to: its \<open>ruleId\<close> if that is a non-empty string, else \<open>unknown\<close>.\<close>

definition row_rule :: "row \<Rightarrow> string" where
  "row_rule r = (let rid = row_str r ''ruleId'' in if rid = [] then ''unknown'' else rid)"

definition rowCompositeKey :: "(f64 \<Rightarrow> string) \<Rightarrow> row \<Rightarrow> string" where
  "rowCompositeKey ff r = row_str r ''groupKey'' @ [CHR 0x00] @ fmt_v ff (row_val r ''windowStart'')"

section \<open>Operations\<close>

definition parseWindowStart :: "gval \<Rightarrow> instant option" where
  "parseWindowStart v =
     (case v of
        GStr s \<Rightarrow>
          (if s = [] then None
           else case time_parse layout_datetime ist_offset s of
              Some t \<Rightarrow> Some t
            | None \<Rightarrow>
                (case time_parse layout_RFC3339 0 s of
                   Some t \<Rightarrow> Some t
                 | None \<Rightarrow> time_parse layout_datetime_T 0 s))
      | GInt n \<Rightarrow> Some (wrap64 (n * 1000000))
      | GFloat f \<Rightarrow> Some (wrap64 (f64_to_int64 f * 1000000))
      | _ \<Rightarrow> None)"

fun index_rows :: "(f64 \<Rightarrow> string) \<Rightarrow> nat \<Rightarrow> row list \<Rightarrow> (string \<rightharpoonup> nat) \<Rightarrow> (string \<rightharpoonup> nat)" where
  "index_rows ff i [] sub = sub"
| "index_rows ff i (r # rs) sub = index_rows ff (Suc i) rs (sub(rowCompositeKey ff r \<mapsto> i))"

definition rebuildRuleIndex :: "(f64 \<Rightarrow> string) \<Rightarrow> string \<Rightarrow> live_store \<Rightarrow> live_store" where
  "rebuildRuleIndex ff rid s =
     (let rows = rows_at (ls_data s) rid
      in if rows = [] then s\<lparr>ls_index := (ls_index s)(rid := None)\<rparr>
         else s\<lparr>ls_index := (ls_index s)(rid \<mapsto> index_rows ff 0 rows Map.empty)\<rparr>)"

text \<open>
  The scan for the rule with the most rows: the first one met with strictly more rows than
  all before it.
\<close>

fun find_largest :: "(string \<rightharpoonup> row list) \<Rightarrow> string list \<Rightarrow> string \<times> nat \<Rightarrow> string \<times> nat" where
  "find_largest m [] best = best"
| "find_largest m (k # ks) (rid, cnt) =
     (if cnt < length (rows_at m k) then find_largest m ks (k, length (rows_at m k))
      else find_largest m ks (rid, cnt))"

definition drop_front :: "(f64 \<Rightarrow> string) \<Rightarrow> string \<Rightarrow> nat \<Rightarrow> live_store \<Rightarrow> live_store" where
  \<comment> \<open>the body of the eviction loop, once the rule and the number of rows are chosen\<close>
  "drop_front ff rid n s =
     (let rows = drop n (rows_at (ls_data s) rid);
          s1 = s\<lparr>ls_data := (ls_data s)(rid \<mapsto> rows),
                 ls_total := ls_total s - int n, ls_dropped := ls_dropped s + int n\<rparr>
      in if rows = []
         then s1\<lparr>ls_data := (ls_data s1)(rid := None), ls_index := (ls_index s1)(rid := None)\<rparr>
         else rebuildRuleIndex ff rid s1)"

function trim_loop ::
  "(f64 \<Rightarrow> string) \<Rightarrow> row list range_order \<Rightarrow> int \<Rightarrow> live_store \<Rightarrow> live_store" where
  "trim_loop ff ord excess s =
     (if 0 < excess
      then (let (rid, cnt) = find_largest (ls_data s) (range_keys ord (ls_data s)) ([], 0)
            in if rid = [] \<or> cnt = 0 then s
               else (let n = (if int cnt < excess then cnt else nat excess)
                     in trim_loop ff ord (excess - int n) (drop_front ff rid n s)))
      else s)"
  by pat_completeness auto
termination
  by (relation "measure (\<lambda>(ff, ord, excess, s). nat excess)") (auto split: if_splits)

declare trim_loop.simps [simp del]

definition trimExcess ::
  "(f64 \<Rightarrow> string) \<Rightarrow> row list range_order \<Rightarrow> live_store \<Rightarrow> live_store" where
  "trimExcess ff ord s = trim_loop ff ord (ls_total s - ls_max s) s"

definition ls_add ::
  "(f64 \<Rightarrow> string) \<Rightarrow> row list range_order \<Rightarrow> row \<Rightarrow> live_store \<Rightarrow> live_store" where
  "ls_add ff ord row s =
     (let rid = row_rule row; ck = rowCompositeKey ff row;
          s0 = (case ls_index s rid of
                  None \<Rightarrow> s\<lparr>ls_index := (ls_index s)(rid \<mapsto> Map.empty)\<rparr> | Some _ \<Rightarrow> s);
          sub = (case ls_index s0 rid of None \<Rightarrow> Map.empty | Some m \<Rightarrow> m)
      in case sub ck of
           Some pos \<Rightarrow> s0\<lparr>ls_data := (ls_data s0)(rid \<mapsto> (rows_at (ls_data s0) rid)[pos := row])\<rparr>
         | None \<Rightarrow>
             (let rows = rows_at (ls_data s0) rid @ [row];
                  s1 = s0\<lparr>ls_data := (ls_data s0)(rid \<mapsto> rows),
                          ls_index := (ls_index s0)(rid \<mapsto> sub(ck \<mapsto> length rows - 1)),
                          ls_total := ls_total s0 + 1\<rparr>
              in if ls_max s1 < ls_total s1 then trimExcess ff ord s1 else s1))"

fun bootstrap_rows :: "row list \<Rightarrow> live_store \<Rightarrow> live_store" where
  "bootstrap_rows [] s = s"
| "bootstrap_rows (r # rs) s =
     bootstrap_rows rs
       (s\<lparr>ls_data := (ls_data s)(row_rule r \<mapsto> rows_at (ls_data s) (row_rule r) @ [r]),
          ls_total := ls_total s + 1\<rparr>)"

definition ls_bootstrap ::
  "(f64 \<Rightarrow> string) \<Rightarrow> row list range_order \<Rightarrow> row list \<Rightarrow> live_store \<Rightarrow> live_store" where
  "ls_bootstrap ff ord rows s =
     (let s1 = bootstrap_rows rows (s\<lparr>ls_data := Map.empty, ls_index := Map.empty, ls_total := 0\<rparr>)
      in fold (rebuildRuleIndex ff) (range_keys ord (ls_data s1)) s1)"

fun getAll_loop :: "live_store \<Rightarrow> string list \<Rightarrow> (string \<rightharpoonup> row list) \<Rightarrow> (string \<rightharpoonup> row list)" where
  "getAll_loop s [] res = res"
| "getAll_loop s (rid # rids) res =
     getAll_loop s rids (case ls_data s rid of None \<Rightarrow> res | Some rows \<Rightarrow> res(rid \<mapsto> rows))"

definition ls_getAll :: "live_store \<Rightarrow> string list \<Rightarrow> (string \<rightharpoonup> row list)" where
  "ls_getAll s rids = getAll_loop s rids Map.empty"

record ls_stats =
  st_total_rows :: int
  st_rule_count :: nat
  st_dropped_rows :: int

definition ls_stats_of :: "live_store \<Rightarrow> ls_stats" where
  "ls_stats_of s =
     \<lparr>st_total_rows = ls_total s, st_rule_count = card (dom (ls_data s)), st_dropped_rows = ls_dropped s\<rparr>"

definition statsString :: "live_store \<Rightarrow> string" where
  "statsString s =
     ''total_rows='' @ show_int (st_total_rows (ls_stats_of s)) @ '', rule_count=''
     @ show_int (int (st_rule_count (ls_stats_of s)))"

text \<open>
  \<open>pruneStale\<close>: a row counts as stale while its \<open>windowStart\<close> parses and is not after the
  cut-off; the scan stops at the first row that is not.
\<close>

definition ls_cutoff :: "instant \<Rightarrow> live_store \<Rightarrow> instant" where
  "ls_cutoff now s = now + wrap64 (wrap64 (- ls_hours s) * 3600000000000)"

definition row_stale :: "instant \<Rightarrow> row \<Rightarrow> bool" where
  "row_stale cutoff r =
     (case parseWindowStart (row_val r ''windowStart'') of
        None \<Rightarrow> False | Some t \<Rightarrow> t \<le> cutoff)"

fun stale_prefix :: "instant \<Rightarrow> row list \<Rightarrow> nat" where
  "stale_prefix cutoff [] = 0"
| "stale_prefix cutoff (r # rs) = (if row_stale cutoff r then Suc (stale_prefix cutoff rs) else 0)"

definition prune_rule :: "(f64 \<Rightarrow> string) \<Rightarrow> instant \<Rightarrow> string \<Rightarrow> live_store \<Rightarrow> live_store" where
  "prune_rule ff cutoff rid s =
     (let rows = rows_at (ls_data s) rid; n = stale_prefix cutoff rows;
          s1 = (if 0 < n
                then s\<lparr>ls_total := ls_total s - int n, ls_data := (ls_data s)(rid \<mapsto> drop n rows)\<rparr>
                else s)
      in if rows_at (ls_data s1) rid = []
         then s1\<lparr>ls_data := (ls_data s1)(rid := None), ls_index := (ls_index s1)(rid := None)\<rparr>
         else if 0 < n then rebuildRuleIndex ff rid s1 else s1)"

definition pruneStale ::
  "(f64 \<Rightarrow> string) \<Rightarrow> row list range_order \<Rightarrow> instant \<Rightarrow> live_store \<Rightarrow> live_store" where
  "pruneStale ff ord now s = fold (prune_rule ff (ls_cutoff now s)) (range_keys ord (ls_data s)) s"

section \<open>Invariant\<close>

definition ls_inv :: "(f64 \<Rightarrow> string) \<Rightarrow> live_store \<Rightarrow> bool" where
  "ls_inv ff s \<longleftrightarrow>
     finite (dom (ls_data s)) \<and>
     (\<forall>rid rows. ls_data s rid = Some rows \<longrightarrow>
        rid \<noteq> [] \<and> rows \<noteq> [] \<and> (\<forall>r \<in> set rows. row_rule r = rid)) \<and>
     ls_index s = (\<lambda>rid. map_option (\<lambda>rows. index_rows ff 0 rows Map.empty) (ls_data s rid)) \<and>
     ls_total s = int (map_total (ls_data s))"

text \<open>No two rows of a rule share a composite key.\<close>

definition ls_unique :: "(f64 \<Rightarrow> string) \<Rightarrow> live_store \<Rightarrow> bool" where
  "ls_unique ff s \<longleftrightarrow>
     (\<forall>rid. distinct (map (rowCompositeKey ff) (rows_at (ls_data s) rid)))"

end
