(* ===== verification/LiveStore_Props.thy ===== *)
theory LiveStore_Props
  imports LiveStore
begin

text \<open>
  Correctness of the live store: the index computes the same as a linear scan, every
  operation keeps \<open>ls_inv\<close>, the eviction loop ends within the cap and drops oldest rows
  only, the pruner removes exactly the stale prefix.
\<close>

section \<open>The index of a slice\<close>

lemma index_rows_snoc:
  "index_rows ff i (rs @ [r]) sub = (index_rows ff i rs sub)(rowCompositeKey ff r \<mapsto> i + length rs)"
  by (induction rs arbitrary: i sub) auto

lemma index_rows_cong:
  "map (rowCompositeKey ff) xs = map (rowCompositeKey ff) ys \<Longrightarrow> index_rows ff i xs sub = index_rows ff i ys sub"
proof (induction xs arbitrary: ys i sub)
  case (Cons x xs)
  then obtain y ys' where ys: "ys = y # ys'" by (cases ys) auto
  with Cons.prems have "rowCompositeKey ff x = rowCompositeKey ff y"
    and "map (rowCompositeKey ff) xs = map (rowCompositeKey ff) ys'" by auto
  with ys Cons.IH [of ys'] show ?case by simp
qed simp

lemma index_rows_None_iff:
  "index_rows ff 0 rs Map.empty k = None \<longleftrightarrow> k \<notin> rowCompositeKey ff ` set rs"
  by (induction rs rule: rev_induct) (auto simp: index_rows_snoc)

lemma index_rows_Some:
  "index_rows ff 0 rs Map.empty k = Some p \<Longrightarrow> p < length rs \<and> rowCompositeKey ff (rs ! p) = k"
  by (induction rs rule: rev_induct) (auto simp: index_rows_snoc nth_append split: if_splits)

lemma index_rows_last:
  "index_rows ff 0 rs Map.empty k = Some p \<Longrightarrow> p < q \<Longrightarrow> q < length rs \<Longrightarrow> rowCompositeKey ff (rs ! q) \<noteq> k"
proof (induction rs arbitrary: q rule: rev_induct)
  case (snoc r rs)
  show ?case
  proof (cases "rowCompositeKey ff r = k")
    case True
    with snoc.prems show ?thesis by (simp add: index_rows_snoc)
  next
    case False
    with snoc.prems have "index_rows ff 0 rs Map.empty k = Some p" by (simp add: index_rows_snoc)
    with snoc False show ?thesis by (cases "q < length rs") (auto simp: nth_append less_Suc_eq)
  qed
qed simp

section \<open>Reference: upsert by linear scan\<close>

text \<open>
  What \<open>Add\<close> does to the slice of the row's rule, without the index: replace the (last) row
  with the same composite key in place, or append.
\<close>

fun upsert_scan :: "(f64 \<Rightarrow> string) \<Rightarrow> row \<Rightarrow> row list \<Rightarrow> row list" where
  "upsert_scan ff row [] = [row]"
| "upsert_scan ff row (r # rs) =
     (if rowCompositeKey ff r = rowCompositeKey ff row
         \<and> rowCompositeKey ff row \<notin> rowCompositeKey ff ` set rs
      then row # rs else r # upsert_scan ff row rs)"

lemma upsert_scan_append:
  "rowCompositeKey ff row \<notin> rowCompositeKey ff ` set rs \<Longrightarrow> upsert_scan ff row rs = rs @ [row]"
  by (induction rs) auto

lemma upsert_scan_update:
  assumes "p < length rs" and "rowCompositeKey ff (rs ! p) = rowCompositeKey ff row"
    and "\<And>q. p < q \<Longrightarrow> q < length rs \<Longrightarrow> rowCompositeKey ff (rs ! q) \<noteq> rowCompositeKey ff row"
  shows "upsert_scan ff row rs = rs[p := row]"
  using assms
proof (induction rs arbitrary: p)
  case (Cons r rs)
  show ?case
  proof (cases p)
    case 0
    have "rowCompositeKey ff row \<notin> rowCompositeKey ff ` set rs"
    proof
      assume "rowCompositeKey ff row \<in> rowCompositeKey ff ` set rs"
      then obtain q where "q < length rs" "rowCompositeKey ff (rs ! q) = rowCompositeKey ff row"
        by (metis imageE in_set_conv_nth)
      with Cons.prems(3) [of "Suc q"] 0 show False by simp
    qed
    with 0 Cons.prems(2) show ?thesis by simp
  next
    case (Suc p')
    have "upsert_scan ff row rs = rs[p' := row]"
      using Cons.prems(1,2) Cons.prems(3) [of "Suc q" for q] Suc by (intro Cons.IH) auto
    moreover have "rowCompositeKey ff row \<in> rowCompositeKey ff ` set rs"
      using Cons.prems(1,2) Suc by (metis Suc_less_eq image_eqI length_Cons nth_Cons_Suc nth_mem)
    ultimately show ?thesis using Suc by simp
  qed
qed simp

text \<open>The two cases of \<open>Add\<close>, read through the index.\<close>

lemma upsert_scan_index:
  "upsert_scan ff row rs =
     (case index_rows ff 0 rs Map.empty (rowCompositeKey ff row) of
        Some p \<Rightarrow> rs[p := row] | None \<Rightarrow> rs @ [row])"
proof (cases "index_rows ff 0 rs Map.empty (rowCompositeKey ff row)")
  case None
  then have "rowCompositeKey ff row \<notin> rowCompositeKey ff ` set rs"
    by (metis index_rows_None_iff)
  with None show ?thesis by (simp add: upsert_scan_append)
next
  case (Some p)
  then show ?thesis
    using index_rows_Some [OF Some] index_rows_last [OF Some] by (simp add: upsert_scan_update)
qed

lemma set_upsert_scan: "set (upsert_scan ff row rs) \<subseteq> insert row (set rs)"
  by (induction rs) auto

lemma upsert_scan_not_Nil [simp]: "upsert_scan ff row rs \<noteq> []"
  by (cases rs) auto

lemma upsert_scan_distinct:
  assumes "distinct (map (rowCompositeKey ff) rs)"
  shows "distinct (map (rowCompositeKey ff) (upsert_scan ff row rs))"
proof -
  have "rowCompositeKey ff ` set (upsert_scan ff row xs) \<subseteq> insert (rowCompositeKey ff row) (rowCompositeKey ff ` set xs)" for xs
    using set_upsert_scan [of ff row xs] by auto
  then show ?thesis using assms by (induction rs) (auto, blast)
qed

section \<open>The invariant\<close>

lemma ls_invD:
  assumes "ls_inv ff s"
  shows "finite (dom (ls_data s))"
    and "ls_data s rid = Some rows \<Longrightarrow> rid \<noteq> [] \<and> rows \<noteq> [] \<and> (\<forall>r \<in> set rows. row_rule r = rid)"
    and "ls_index s rid = map_option (\<lambda>rows. index_rows ff 0 rows Map.empty) (ls_data s rid)"
    and "ls_total s = int (map_total (ls_data s))"
  using assms by (auto simp: ls_inv_def)

lemma ls_inv_rows_at:
  "ls_inv ff s \<Longrightarrow> r \<in> set (rows_at (ls_data s) rid) \<Longrightarrow> row_rule r = rid"
  by (cases "ls_data s rid") (auto simp: ls_inv_def rows_at_def)

lemma row_rule_not_Nil [simp]: "row_rule r \<noteq> []"
  by (simp add: row_rule_def Let_def)

lemma new_live_store_fields [simp]:
  "ls_data (new_live_store m h) = Map.empty" "ls_total (new_live_store m h) = 0"
  "ls_max (new_live_store m h) = m" "ls_hours (new_live_store m h) = h"
  "ls_dropped (new_live_store m h) = 0"
  by (simp_all add: new_live_store_def)

lemma ls_inv_new [simp]: "ls_inv ff (new_live_store m h)"
  by (simp add: ls_inv_def new_live_store_def)

text \<open>Replacing one rule's slice and index entry together keeps the invariant.\<close>

lemma ls_inv_put:
  assumes "ls_inv ff s" and "rid \<noteq> []" and "rows \<noteq> []" and "\<forall>r \<in> set rows. row_rule r = rid"
    and "ls_total t = ls_total s - int (length (rows_at (ls_data s) rid)) + int (length rows)"
    and "ls_data t = (ls_data s)(rid \<mapsto> rows)"
    and "ls_index t = (ls_index s)(rid \<mapsto> index_rows ff 0 rows Map.empty)"
  shows "ls_inv ff t"
proof -
  have "int (map_total (ls_data t)) = int (map_total (ls_data s)) - int (length (rows_at (ls_data s) rid)) + int (length rows)"
    using map_total_upd_add [OF ls_invD(1) [OF assms(1)], of rid rows] assms(6) by simp
  moreover have "ls_index t = (\<lambda>r. map_option (\<lambda>rows. index_rows ff 0 rows Map.empty) (ls_data t r))"
    using ls_invD(3) [OF assms(1)] by (simp add: assms(6,7) fun_eq_iff)
  ultimately show ?thesis
    using assms(1-5) by (simp add: ls_inv_def assms(6))
qed

lemma ls_inv_remove:
  assumes "ls_inv ff s"
    and "ls_total t = ls_total s - int (length (rows_at (ls_data s) rid))"
    and "ls_data t = (ls_data s)(rid := None)"
    and "ls_index t = (ls_index s)(rid := None)"
  shows "ls_inv ff t"
proof -
  have "int (map_total (ls_data t)) = int (map_total (ls_data s)) - int (length (rows_at (ls_data s) rid))"
    using map_total_del_add [OF ls_invD(1) [OF assms(1)], of rid] assms(3) by simp
  moreover have "ls_index t = (\<lambda>r. map_option (\<lambda>rows. index_rows ff 0 rows Map.empty) (ls_data t r))"
    using ls_invD(3) [OF assms(1)] by (simp add: assms(3,4) fun_eq_iff)
  ultimately show ?thesis
    using assms(1,2) by (simp add: ls_inv_def assms(3))
qed

section \<open>Eviction\<close>

lemma find_largest_facts:
  "find_largest m ks (r0, c0) = (rid, cnt) \<Longrightarrow>
     c0 \<le> cnt \<and> (\<forall>k \<in> set ks. length (rows_at m k) \<le> cnt) \<and>
     ((rid, cnt) = (r0, c0) \<or> rid \<in> set ks \<and> cnt = length (rows_at m rid))"
proof (induction ks arbitrary: r0 c0)
  case (Cons k ks)
  show ?case
  proof (cases "c0 < length (rows_at m k)")
    case True
    with Cons.prems have "find_largest m ks (k, length (rows_at m k)) = (rid, cnt)" by simp
    from Cons.IH [OF this] True show ?thesis by auto
  next
    case False
    with Cons.prems have "find_largest m ks (r0, c0) = (rid, cnt)" by simp
    from Cons.IH [OF this] False show ?thesis by auto
  qed
qed simp

lemma drop_front_frame [simp]:
  "ls_max (drop_front ff rid n s) = ls_max s" "ls_hours (drop_front ff rid n s) = ls_hours s"
  "ls_total (drop_front ff rid n s) = ls_total s - int n"
  "ls_dropped (drop_front ff rid n s) = ls_dropped s + int n"
  by (simp_all add: drop_front_def rebuildRuleIndex_def Let_def)

lemma drop_front_rows [simp]:
  "rows_at (ls_data (drop_front ff rid n s)) j =
     (if j = rid then drop n (rows_at (ls_data s) rid) else rows_at (ls_data s) j)"
  by (auto simp: drop_front_def rebuildRuleIndex_def Let_def)

lemma drop_front_inv:
  assumes inv: "ls_inv ff s" and rid: "rid \<noteq> []" and n: "n \<le> length (rows_at (ls_data s) rid)"
  shows "ls_inv ff (drop_front ff rid n s)"
proof (cases "drop n (rows_at (ls_data s) rid) = []")
  case True
  with n have "n = length (rows_at (ls_data s) rid)" by simp
  with True show ?thesis
    by (intro ls_inv_remove [OF inv, where rid = rid]) (auto simp: drop_front_def Let_def)
next
  case False
  then show ?thesis using inv rid n ls_inv_rows_at [OF inv]
    by (intro ls_inv_put [OF inv, where rid = rid and rows = "drop n (rows_at (ls_data s) rid)"])
      (auto simp: drop_front_def rebuildRuleIndex_def Let_def dest: in_set_dropD)
qed

text \<open>What the scan finds in a store that satisfies the invariant.\<close>

lemma find_largest_inv:
  assumes inv: "ls_inv ff s"
    and found: "find_largest (ls_data s) (range_keys ord (ls_data s)) ([], 0) = (rid, cnt)"
  shows "cnt = length (rows_at (ls_data s) rid)"
    and "rid = [] \<or> cnt = 0 \<longleftrightarrow> ls_total s = 0"
    and "length (rows_at (ls_data s) k) \<le> cnt"
proof -
  have keys: "set (range_keys ord (ls_data s)) = dom (ls_data s)"
    using ls_invD(1) [OF inv] by simp
  note f = find_largest_facts [OF found]
  have nil: "rows_at (ls_data s) [] = []"
    using ls_invD(2) [OF inv] by (cases "ls_data s []") (auto simp: rows_at_def)
  show "cnt = length (rows_at (ls_data s) rid)" using f nil by auto
  show le: "length (rows_at (ls_data s) k) \<le> cnt" for k
    using f keys by (cases "k \<in> dom (ls_data s)") (auto simp: rows_at_None domIff)
  show "rid = [] \<or> cnt = 0 \<longleftrightarrow> ls_total s = 0"
  proof
    assume "rid = [] \<or> cnt = 0"
    with f nil have "cnt = 0" by auto
    with le have "map_total (ls_data s) = 0"
      using map_total_0_iff [OF ls_invD(1) [OF inv]] by simp
    then show "ls_total s = 0" using ls_invD(4) [OF inv] by simp
  next
    assume "ls_total s = 0"
    then have "rows_at (ls_data s) rid = []"
      using ls_invD(4) [OF inv] map_total_0_iff [OF ls_invD(1) [OF inv]] by simp
    then show "rid = [] \<or> cnt = 0" using f by auto
  qed
qed

definition evicted_from :: "live_store \<Rightarrow> live_store \<Rightarrow> bool" where
  \<comment> \<open>\<open>t\<close> is \<open>s\<close> after dropping some rows from the front of some rules, all accounted for\<close>
  "evicted_from s t \<longleftrightarrow>
     (\<forall>rid. \<exists>n. rows_at (ls_data t) rid = drop n (rows_at (ls_data s) rid)) \<and>
     ls_total t + ls_dropped t = ls_total s + ls_dropped s \<and>
     ls_max t = ls_max s \<and> ls_hours t = ls_hours s"

lemma evicted_refl [simp]: "evicted_from s s"
  by (auto simp: evicted_from_def intro: exI [of _ 0])

lemma evicted_trans: "evicted_from s t \<Longrightarrow> evicted_from t u \<Longrightarrow> evicted_from s u"
  unfolding evicted_from_def by (metis drop_drop)

lemma evicted_drop_front: "evicted_from s (drop_front ff rid n s)"
proof -
  have "\<exists>k. rows_at (ls_data (drop_front ff rid n s)) j = drop k (rows_at (ls_data s) j)" for j
    by (cases "j = rid") (auto intro: exI [of _ n] exI [of _ 0])
  then show ?thesis by (simp add: evicted_from_def)
qed

lemma trim_loop_correct:
  assumes "ls_inv ff s"
  shows "ls_inv ff (trim_loop ff ord e s) \<and> evicted_from s (trim_loop ff ord e s) \<and>
     ls_total (trim_loop ff ord e s) = ls_total s - min (max 0 e) (ls_total s)"
  using assms
proof (induction ff ord e s rule: trim_loop.induct)
  case (1 ff ord e s)
  have tot: "0 \<le> ls_total s" using ls_invD(4) [OF "1.prems"] by simp
  obtain rid cnt where found: "find_largest (ls_data s) (range_keys ord (ls_data s)) ([], 0) = (rid, cnt)"
    by (cases "find_largest (ls_data s) (range_keys ord (ls_data s)) ([], 0)")
  note f = find_largest_inv [OF "1.prems" found]
  show ?case
  proof (cases "0 < e \<and> \<not> (rid = [] \<or> cnt = 0)")
    case False
    then show ?thesis using "1.prems" f(2) found tot
      by (auto simp: trim_loop.simps [of ff ord e s])
  next
    case True
    define n where "n = (if int cnt < e then cnt else nat e)"
    let ?s1 = "drop_front ff rid n s"
    have n: "n \<le> cnt" "int n \<le> e" using True by (auto simp: n_def)
    have cnt: "int cnt \<le> ls_total s"
      using rows_at_le_total [OF ls_invD(1) [OF "1.prems"], of rid] f(1) ls_invD(4) [OF "1.prems"]
      by simp
    have inv1: "ls_inv ff ?s1" using True n f(1) by (intro drop_front_inv "1.prems") auto
    have step: "trim_loop ff ord e s = trim_loop ff ord (e - int n) ?s1"
      using True found by (simp add: trim_loop.simps [of ff ord e s] n_def)
    have IH: "ls_inv ff (trim_loop ff ord (e - int n) ?s1) \<and> evicted_from ?s1 (trim_loop ff ord (e - int n) ?s1) \<and>
        ls_total (trim_loop ff ord (e - int n) ?s1) = ls_total ?s1 - min (max 0 (e - int n)) (ls_total ?s1)"
      using True found n_def inv1 by (intro "1.IH") auto
    then show ?thesis
      using step n cnt evicted_trans [OF evicted_drop_front] by auto
  qed
qed

lemma trimExcess_correct:
  assumes "ls_inv ff s" and "ls_max s < ls_total s"
  shows "ls_inv ff (trimExcess ff ord s)" and "evicted_from s (trimExcess ff ord s)"
    and "ls_total (trimExcess ff ord s) = max 0 (ls_max s)"
proof -
  have "0 \<le> ls_total s" using ls_invD(4) [OF assms(1)] by simp
  then show "ls_inv ff (trimExcess ff ord s)" and "evicted_from s (trimExcess ff ord s)"
    and "ls_total (trimExcess ff ord s) = max 0 (ls_max s)"
    using trim_loop_correct [OF assms(1), of ord "ls_total s - ls_max s"] assms(2)
    by (auto simp: trimExcess_def)
qed

section \<open>Add\<close>

text \<open>\<open>Add\<close> before any eviction: the row's rule gets the upserted slice and its index.\<close>

definition ls_upsert :: "(f64 \<Rightarrow> string) \<Rightarrow> row \<Rightarrow> live_store \<Rightarrow> live_store" where
  "ls_upsert ff row s =
     (let rid = row_rule row; rows = rows_at (ls_data s) rid; rows' = upsert_scan ff row rows
      in s\<lparr>ls_data := (ls_data s)(rid \<mapsto> rows'),
           ls_index := (ls_index s)(rid \<mapsto> index_rows ff 0 rows' Map.empty),
           ls_total := ls_total s + (int (length rows') - int (length rows))\<rparr>)"

definition known_key :: "(f64 \<Rightarrow> string) \<Rightarrow> row \<Rightarrow> live_store \<Rightarrow> bool" where
  "known_key ff row s \<longleftrightarrow>
     rowCompositeKey ff row \<in> rowCompositeKey ff ` set (rows_at (ls_data s) (row_rule row))"

lemma ls_index_rows:
  assumes "ls_inv ff s"
  shows "ls_index s rid =
     (if rows_at (ls_data s) rid = [] then None
      else Some (index_rows ff 0 (rows_at (ls_data s) rid) Map.empty))"
  using ls_invD(2,3) [OF assms] by (cases "ls_data s rid") (auto simp: rows_at_def)

lemma ls_upsert_frame [simp]:
  "ls_max (ls_upsert ff row s) = ls_max s" "ls_hours (ls_upsert ff row s) = ls_hours s"
  "ls_dropped (ls_upsert ff row s) = ls_dropped s"
  "rows_at (ls_data (ls_upsert ff row s)) rid =
     (if rid = row_rule row then upsert_scan ff row (rows_at (ls_data s) rid) else rows_at (ls_data s) rid)"
  by (simp_all add: ls_upsert_def Let_def)

lemma ls_upsert_total:
  "ls_total (ls_upsert ff row s) = ls_total s + (if known_key ff row s then 0 else 1)"
proof (cases "known_key ff row s")
  case True
  then obtain p where "index_rows ff 0 (rows_at (ls_data s) (row_rule row)) Map.empty (rowCompositeKey ff row) = Some p"
    unfolding known_key_def by (metis index_rows_None_iff not_None_eq)
  with True show ?thesis by (simp add: ls_upsert_def Let_def upsert_scan_index)
next
  case False
  then show ?thesis by (simp add: ls_upsert_def Let_def known_key_def upsert_scan_append)
qed

lemma ls_upsert_inv:
  assumes inv: "ls_inv ff s"
  shows "ls_inv ff (ls_upsert ff row s)"
proof -
  let ?rows = "upsert_scan ff row (rows_at (ls_data s) (row_rule row))"
  have "\<forall>r \<in> set ?rows. row_rule r = row_rule row"
    using set_upsert_scan [of ff row "rows_at (ls_data s) (row_rule row)"] ls_inv_rows_at [OF inv]
    by blast
  then show ?thesis
    by (intro ls_inv_put [OF inv, where rid = "row_rule row" and rows = ?rows])
      (simp_all add: ls_upsert_def Let_def del: fun_upd_apply)
qed

lemma ls_add_known:
  assumes inv: "ls_inv ff s" and "known_key ff row s"
  shows "ls_add ff ord row s = ls_upsert ff row s"
proof -
  let ?rid = "row_rule row" and ?ck = "rowCompositeKey ff row"
  let ?rows = "rows_at (ls_data s) ?rid"
  have ne: "?rows \<noteq> []" using assms(2) by (auto simp: known_key_def)
  obtain p where p: "index_rows ff 0 ?rows Map.empty ?ck = Some p"
    using assms(2) unfolding known_key_def by (metis index_rows_None_iff not_None_eq)
  have ix: "ls_index s ?rid = Some (index_rows ff 0 ?rows Map.empty)"
    using ls_index_rows [OF inv] ne by simp
  have "map (rowCompositeKey ff) (?rows[p := row]) = map (rowCompositeKey ff) ?rows"
    using index_rows_Some [OF p] by (metis list_update_id map_update)
  then have "index_rows ff 0 (?rows[p := row]) Map.empty = index_rows ff 0 ?rows Map.empty"
    by (rule index_rows_cong)
  with ix have same: "(ls_index s)(?rid \<mapsto> index_rows ff 0 (?rows[p := row]) Map.empty) = ls_index s"
    by (simp add: fun_upd_idem)
  show ?thesis
    using ix p same by (simp add: ls_add_def ls_upsert_def Let_def upsert_scan_index)
qed

lemma ls_add_new:
  assumes inv: "ls_inv ff s" and new: "\<not> known_key ff row s"
  shows "ls_add ff ord row s =
     (if ls_max s < ls_total (ls_upsert ff row s) then trimExcess ff ord (ls_upsert ff row s)
      else ls_upsert ff row s)"
proof -
  let ?rid = "row_rule row" and ?ck = "rowCompositeKey ff row"
  let ?rows = "rows_at (ls_data s) ?rid"
  have none: "index_rows ff 0 ?rows Map.empty ?ck = None"
    using new unfolding known_key_def by (metis index_rows_None_iff)
  have up: "upsert_scan ff row ?rows = ?rows @ [row]"
    using new by (simp add: known_key_def upsert_scan_append)
  show ?thesis
    using ls_index_rows [OF inv, of ?rid] none up
    by (cases "?rows = []")
      (simp_all add: ls_add_def ls_upsert_def Let_def index_rows_snoc)
qed

lemma ls_add_cases:
  assumes "ls_inv ff s"
  shows "ls_add ff ord row s =
     (if \<not> known_key ff row s \<and> ls_max s < ls_total (ls_upsert ff row s)
      then trimExcess ff ord (ls_upsert ff row s) else ls_upsert ff row s)"
  by (cases "known_key ff row s") (simp_all add: ls_add_known [OF assms] ls_add_new [OF assms])

lemma ls_add_inv_evicted:
  assumes "ls_inv ff s"
  shows "ls_inv ff (ls_add ff ord row s)" and "evicted_from (ls_upsert ff row s) (ls_add ff ord row s)"
  using trimExcess_correct [OF ls_upsert_inv [OF assms(1)], of row]
    ls_upsert_inv [OF assms(1)]
  by (simp_all add: ls_add_cases [OF assms(1)])

lemma evicted_unique:
  assumes "evicted_from s t" and "ls_unique ff s"
  shows "ls_unique ff t"
  unfolding ls_unique_def
proof
  fix rid
  obtain n where "rows_at (ls_data t) rid = drop n (rows_at (ls_data s) rid)"
    using assms(1) by (auto simp: evicted_from_def)
  with assms(2) show "distinct (map (rowCompositeKey ff) (rows_at (ls_data t) rid))"
    by (simp add: ls_unique_def drop_map [symmetric])
qed

lemma ls_upsert_unique: "ls_unique ff s \<Longrightarrow> ls_unique ff (ls_upsert ff row s)"
  by (simp add: ls_unique_def upsert_scan_distinct)

section \<open>Prune\<close>

lemma drop_stale_prefix: "drop (stale_prefix c rows) rows = dropWhile (row_stale c) rows"
  by (induction rows) auto

lemma stale_prefix_le: "stale_prefix c rows \<le> length rows"
  by (induction rows) auto

lemma stale_prefix_0_iff: "stale_prefix c rows = 0 \<longleftrightarrow> dropWhile (row_stale c) rows = rows"
  by (cases rows) (simp_all only: dropWhile_eq_self_iff stale_prefix.simps list.sel, simp_all)

lemma prune_rule_frame [simp]:
  "ls_max (prune_rule ff c rid s) = ls_max s" "ls_hours (prune_rule ff c rid s) = ls_hours s"
  "ls_dropped (prune_rule ff c rid s) = ls_dropped s"
  by (auto simp: prune_rule_def rebuildRuleIndex_def Let_def)

lemma prune_rule_rows [simp]:
  "rows_at (ls_data (prune_rule ff c rid s)) j =
     (if j = rid then dropWhile (row_stale c) (rows_at (ls_data s) rid) else rows_at (ls_data s) j)"
proof -
  let ?rows = "rows_at (ls_data s) rid"
  have "stale_prefix c ?rows = 0 \<Longrightarrow> dropWhile (row_stale c) ?rows = ?rows"
    by (simp add: stale_prefix_0_iff)
  then show ?thesis
    using drop_stale_prefix [of c ?rows]
    by (cases "drop (stale_prefix c ?rows) ?rows = []")
      (auto simp: prune_rule_def rebuildRuleIndex_def Let_def)
qed

lemma prune_rule_inv:
  assumes inv: "ls_inv ff s" and rid: "rid \<noteq> []"
  shows "ls_inv ff (prune_rule ff c rid s)"
proof -
  let ?rows = "rows_at (ls_data s) rid"
  let ?n = "stale_prefix c ?rows"
  have n: "?n \<le> length ?rows" by (rule stale_prefix_le)
  consider (none) "?n = 0" "?rows \<noteq> []" | (all) "drop ?n ?rows = []" | (some) "0 < ?n" "drop ?n ?rows \<noteq> []"
    by fastforce
  then show ?thesis
  proof cases
    case none
    then show ?thesis using inv by (simp add: prune_rule_def Let_def)
  next
    case all
    with n have "?n = length ?rows" by simp
    with all show ?thesis
      by (intro ls_inv_remove [OF inv, where rid = rid]) (auto simp: prune_rule_def Let_def)
  next
    case some
    then show ?thesis using rid n ls_inv_rows_at [OF inv]
      by (intro ls_inv_put [OF inv, where rid = rid and rows = "drop ?n ?rows"])
        (auto simp: prune_rule_def rebuildRuleIndex_def Let_def dest: in_set_dropD)
  qed
qed

lemma fold_prune_rule:
  assumes "ls_inv ff s" and "distinct ks" and "[] \<notin> set ks"
  shows "ls_inv ff (fold (prune_rule ff c) ks s) \<and>
     (\<forall>rid. rows_at (ls_data (fold (prune_rule ff c) ks s)) rid =
        (if rid \<in> set ks then dropWhile (row_stale c) (rows_at (ls_data s) rid) else rows_at (ls_data s) rid)) \<and>
     ls_max (fold (prune_rule ff c) ks s) = ls_max s \<and>
     ls_dropped (fold (prune_rule ff c) ks s) = ls_dropped s"
  using assms
proof (induction ks arbitrary: s)
  case (Cons k ks)
  then have "k \<noteq> []" by auto
  with Cons.prems have "ls_inv ff (prune_rule ff c k s)" by (simp add: prune_rule_inv)
  from Cons.IH [OF this] Cons.prems show ?case by auto
qed simp

lemma pruneStale_correct:
  assumes "ls_inv ff s"
  shows "ls_inv ff (pruneStale ff ord now s)"
    and "rows_at (ls_data (pruneStale ff ord now s)) rid =
           dropWhile (row_stale (ls_cutoff now s)) (rows_at (ls_data s) rid)"
    and "ls_max (pruneStale ff ord now s) = ls_max s"
    and "ls_dropped (pruneStale ff ord now s) = ls_dropped s"
proof -
  have ks: "set (range_keys ord (ls_data s)) = dom (ls_data s)" "distinct (range_keys ord (ls_data s))"
    using ls_invD(1) [OF assms(1)] by simp_all
  moreover have "[] \<notin> dom (ls_data s)" using ls_invD(2) [OF assms(1)] by blast
  ultimately have f: "ls_inv ff (pruneStale ff ord now s) \<and>
     (\<forall>rid. rows_at (ls_data (pruneStale ff ord now s)) rid =
        (if rid \<in> dom (ls_data s) then dropWhile (row_stale (ls_cutoff now s)) (rows_at (ls_data s) rid)
         else rows_at (ls_data s) rid)) \<and>
     ls_max (pruneStale ff ord now s) = ls_max s \<and>
     ls_dropped (pruneStale ff ord now s) = ls_dropped s"
    unfolding pruneStale_def using fold_prune_rule [OF assms(1)] by simp
  then show "ls_inv ff (pruneStale ff ord now s)"
    and "ls_max (pruneStale ff ord now s) = ls_max s"
    and "ls_dropped (pruneStale ff ord now s) = ls_dropped s" by auto
  from f show "rows_at (ls_data (pruneStale ff ord now s)) rid =
           dropWhile (row_stale (ls_cutoff now s)) (rows_at (ls_data s) rid)"
    by (cases "rid \<in> dom (ls_data s)") (auto simp: domIff rows_at_None)
qed

lemma dropWhile_sorted_filter:
  "sorted_wrt (\<lambda>x y. P y \<longrightarrow> P x) xs \<Longrightarrow> dropWhile P xs = filter (\<lambda>x. \<not> P x) xs"
proof (induction xs)
  case (Cons x xs)
  then show ?case by (cases "P x") (auto intro!: filter_True [symmetric])
qed simp

section \<open>Bootstrap\<close>

lemma bootstrap_rows_data:
  "rows_at (ls_data (bootstrap_rows rs s)) rid = rows_at (ls_data s) rid @ filter (\<lambda>r. row_rule r = rid) rs"
  by (induction rs s rule: bootstrap_rows.induct) auto

lemma bootstrap_rows_frame:
  "ls_index (bootstrap_rows rs s) = ls_index s" "ls_max (bootstrap_rows rs s) = ls_max s"
  "ls_hours (bootstrap_rows rs s) = ls_hours s" "ls_dropped (bootstrap_rows rs s) = ls_dropped s"
  "ls_total (bootstrap_rows rs s) = ls_total s + int (length rs)"
  by (induction rs s rule: bootstrap_rows.induct) auto

lemma bootstrap_rows_dom:
  "dom (ls_data (bootstrap_rows rs s)) = dom (ls_data s) \<union> row_rule ` set rs"
  by (induction rs s rule: bootstrap_rows.induct) auto

lemma bootstrap_rows_total:
  "finite (dom (ls_data s)) \<Longrightarrow> ls_total s = int (map_total (ls_data s)) \<Longrightarrow>
     ls_total (bootstrap_rows rs s) = int (map_total (ls_data (bootstrap_rows rs s)))"
proof (induction rs s rule: bootstrap_rows.induct)
  case (2 r rs s)
  let ?xs = "rows_at (ls_data s) (row_rule r) @ [r]"
  have "map_total ((ls_data s)(row_rule r \<mapsto> ?xs)) = map_total (ls_data s) + 1"
    using map_total_upd_add [OF "2.prems"(1), of "row_rule r" ?xs] by simp
  then show ?case
    using "2.prems" unfolding bootstrap_rows.simps
    by (intro "2.IH") (simp_all del: fun_upd_apply)
qed simp

lemma fold_rebuild_frame [simp]:
  "ls_data (fold (rebuildRuleIndex ff) ks s) = ls_data s"
  "ls_total (fold (rebuildRuleIndex ff) ks s) = ls_total s"
  "ls_max (fold (rebuildRuleIndex ff) ks s) = ls_max s"
  "ls_dropped (fold (rebuildRuleIndex ff) ks s) = ls_dropped s"
  by (induction ks arbitrary: s) (auto simp: rebuildRuleIndex_def Let_def)

lemma ls_hours_fold_rebuild:
  "ls_hours (fold (rebuildRuleIndex ff) ks s) = ls_hours s"
  by (induction ks arbitrary: s) (auto simp: rebuildRuleIndex_def Let_def)

lemma fold_rebuild_index:
  "ls_index (fold (rebuildRuleIndex ff) ks s) rid =
     (if rid \<in> set ks
      then (if rows_at (ls_data s) rid = [] then None
            else Some (index_rows ff 0 (rows_at (ls_data s) rid) Map.empty))
      else ls_index s rid)"
  by (induction ks arbitrary: s) (auto simp: rebuildRuleIndex_def Let_def)

lemma ls_bootstrap_correct:
  shows "ls_inv ff (ls_bootstrap ff ord rows s)"
    and "rows_at (ls_data (ls_bootstrap ff ord rows s)) rid = filter (\<lambda>r. row_rule r = rid) rows"
    and "ls_total (ls_bootstrap ff ord rows s) = int (length rows)"
    and "ls_dropped (ls_bootstrap ff ord rows s) = ls_dropped s"
    and "ls_max (ls_bootstrap ff ord rows s) = ls_max s"
proof -
  define e where "e = s\<lparr>ls_data := Map.empty, ls_index := Map.empty, ls_total := 0\<rparr>"
  define b where "b = bootstrap_rows rows e"
  have res: "ls_bootstrap ff ord rows s = fold (rebuildRuleIndex ff) (range_keys ord (ls_data b)) b"
    by (simp add: ls_bootstrap_def b_def e_def Let_def)
  have rows: "rows_at (ls_data b) r = filter (\<lambda>x. row_rule x = r) rows" for r
    by (simp add: b_def e_def bootstrap_rows_data)
  have ixb: "ls_index b = Map.empty"
    by (simp add: b_def e_def bootstrap_rows_frame)
  have dom: "dom (ls_data b) = row_rule ` set rows"
    by (simp add: b_def e_def bootstrap_rows_dom)
  have ks: "set (range_keys ord (ls_data b)) = dom (ls_data b)"
    using dom by simp
  show "rows_at (ls_data (ls_bootstrap ff ord rows s)) rid = filter (\<lambda>r. row_rule r = rid) rows"
    by (simp add: res rows)
  show "ls_total (ls_bootstrap ff ord rows s) = int (length rows)"
    and "ls_dropped (ls_bootstrap ff ord rows s) = ls_dropped s"
    and "ls_max (ls_bootstrap ff ord rows s) = ls_max s"
    by (simp_all add: res b_def e_def bootstrap_rows_frame)
  have at: "ls_data b r = (if r \<in> row_rule ` set rows then Some (filter (\<lambda>x. row_rule x = r) rows) else None)" for r
    using rows [of r] dom by (cases "ls_data b r") (auto simp: rows_at_def)
  have "ls_total b = int (map_total (ls_data b))"
    unfolding b_def by (rule bootstrap_rows_total) (simp_all add: e_def)
  moreover have "ls_index (fold (rebuildRuleIndex ff) (range_keys ord (ls_data b)) b) r =
      map_option (\<lambda>rows. index_rows ff 0 rows Map.empty) (ls_data b r)" for r
    using ixb by (auto simp: fold_rebuild_index ks dom at rows filter_empty_conv)
  ultimately show "ls_inv ff (ls_bootstrap ff ord rows s)"
    unfolding res by (auto simp: ls_inv_def dom at filter_empty_conv split: if_splits)
qed

lemma ls_bootstrap_hours: "ls_hours (ls_bootstrap ff ord rows s) = ls_hours s"
  by (simp add: ls_bootstrap_def Let_def ls_hours_fold_rebuild bootstrap_rows_frame)

section \<open>GetAll\<close>

lemma getAll_loop_eq:
  "getAll_loop s rids res rid = (if rid \<in> set rids \<and> ls_data s rid \<noteq> None then ls_data s rid else res rid)"
  by (induction s rids res rule: getAll_loop.induct) (auto split: option.splits)

lemma ls_getAll_eq: "ls_getAll s rids = (ls_data s) |` set rids"
  by (auto simp: ls_getAll_def getAll_loop_eq restrict_map_def fun_eq_iff)

section \<open>Runs of the store\<close>

text \<open>
  The store's life: it is created empty, then any sequence of locked operations follows,
  each with a map order of its own.
\<close>

datatype ls_op =
    OpAdd row "row list range_order"
  | OpBootstrap "row list" "row list range_order"
  | OpPrune instant "row list range_order"

fun ls_step :: "(f64 \<Rightarrow> string) \<Rightarrow> live_store \<Rightarrow> ls_op \<Rightarrow> live_store" where
  "ls_step ff s (OpAdd r ord) = ls_add ff ord r s"
| "ls_step ff s (OpBootstrap rs ord) = ls_bootstrap ff ord rs s"
| "ls_step ff s (OpPrune now ord) = pruneStale ff ord now s"

definition ls_run :: "(f64 \<Rightarrow> string) \<Rightarrow> live_store \<Rightarrow> ls_op list \<Rightarrow> live_store" where
  "ls_run ff s ops = foldl (ls_step ff) s ops"

lemma ls_step_inv: "ls_inv ff s \<Longrightarrow> ls_inv ff (ls_step ff s op)"
  by (cases op) (auto intro: ls_add_inv_evicted pruneStale_correct ls_bootstrap_correct)

lemma ls_run_inv: "ls_inv ff s \<Longrightarrow> ls_inv ff (ls_run ff s ops)"
  unfolding ls_run_def by (induction ops arbitrary: s) (auto intro: ls_step_inv)

lemma ls_inv_index_sound:
  assumes inv: "ls_inv ff s" and ix: "ls_index s rid = Some sub" and pos: "sub ck = Some p"
  shows "p < length (rows_at (ls_data s) rid) \<and> rowCompositeKey ff (rows_at (ls_data s) rid ! p) = ck"
proof -
  have "sub = index_rows ff 0 (rows_at (ls_data s) rid) Map.empty"
    using ix ls_index_rows [OF inv, of rid] by (auto split: if_splits)
  with pos show ?thesis by (auto dest: index_rows_Some)
qed

lemma ls_add_max: "ls_inv ff s \<Longrightarrow> ls_max (ls_add ff ord row s) = ls_max s"
  using ls_add_inv_evicted(2) [of ff s row ord] by (simp add: evicted_from_def)

lemma ls_add_cap:
  assumes inv: "ls_inv ff s" and cap: "ls_total s \<le> max 0 (ls_max s)"
  shows "ls_total (ls_add ff ord row s) \<le> max 0 (ls_max s)"
  using trimExcess_correct(3) [OF ls_upsert_inv [OF inv], of row ord] cap ls_upsert_total [of ff row s]
  by (auto simp: ls_add_cases [OF inv])

section \<open>Properties\<close>

text \<open>C1. Whatever sequence of \<open>Add\<close>, \<open>Bootstrap\<close> and prune operations a new store goes
  through, its row counter is the number of rows it holds, every row sits under its own rule,
  no empty slice is kept, and the index only points at existing rows with the indexed key
  (so the in-place write of \<open>Add\<close> never goes out of range).\<close>

theorem live_store_consistent:
  "let s = ls_run ff (new_live_store maxRows hours) ops
   in ls_total s = int (map_total (ls_data s)) \<and>
      (\<forall>rid. ls_data s rid \<noteq> Some []) \<and>
      (\<forall>rid. set (rows_at (ls_data s) rid) \<subseteq> {r. row_rule r = rid}) \<and>
      dom (ls_index s) = dom (ls_data s) \<and>
      {(rid, ck). \<exists>sub p. ls_index s rid = Some sub \<and> sub ck = Some p
          \<and> \<not> (p < length (rows_at (ls_data s) rid) \<and> rowCompositeKey ff (rows_at (ls_data s) rid ! p) = ck)} = {}"
proof -
  let ?s = "ls_run ff (new_live_store maxRows hours) ops"
  have inv: "ls_inv ff ?s" by (intro ls_run_inv ls_inv_new)
  have "dom (ls_index ?s) = dom (ls_data ?s)"
    using ls_invD(3) [OF inv] by (auto simp: dom_def)
  moreover have "ls_data ?s rid \<noteq> Some []" for rid
    using ls_invD(2) [OF inv] by blast
  ultimately show ?thesis
    using ls_invD(4) [OF inv] ls_inv_rows_at [OF inv] ls_inv_index_sound [OF inv]
    by (auto simp: Let_def)
qed

text \<open>C3. The indexed upsert of \<open>Add\<close> computes what the linear scan over the rule's slice
  computes (replace the row with the same group key and window start in place, else append),
  and leaves every other rule alone, as long as the cap does not force an eviction.\<close>

theorem add_refines_linear_scan:
  assumes "ls_inv ff s" and "ls_total s < ls_max s"
  shows "rows_at (ls_data (ls_add ff ord row s)) rid =
     (if rid = row_rule row then upsert_scan ff row (rows_at (ls_data s) rid)
      else rows_at (ls_data s) rid)"
  using assms ls_upsert_total [of ff row s] by (simp add: ls_add_cases)

definition demo_now :: instant where
  "demo_now = 1783328400 * 1000000000"

definition demo_row :: "string \<Rightarrow> string \<Rightarrow> string \<Rightarrow> row" where
  "demo_row rid gk ws = [(''ruleId'', GStr rid), (''groupKey'', GStr gk), (''windowStart'', GStr ws)]"

theorem add_refines_linear_scan_witness:
  "rows_at (ls_data (ls_add (\<lambda>_. []) sorted_order (demo_row ''R'' ''g'' ''w'') (new_live_store 10 1))) ''R''
     = [demo_row ''R'' ''g'' ''w'']"
proof -
  have cap: "ls_total (new_live_store 10 1) < ls_max (new_live_store 10 1)" by simp
  have rule: "row_rule (demo_row ''R'' ''g'' ''w'') = ''R''" by code_simp
  show ?thesis
    using add_refines_linear_scan [OF ls_inv_new cap, of "\<lambda>_. []" sorted_order "demo_row ''R'' ''g'' ''w''" "''R''"] rule
    by simp
qed

text \<open>C5. \<open>Add\<close> keeps the store within its cap: if it was within, it still is; the rows it
  evicts are taken from the fronts of the rules' slices (the upserted slices keep a suffix),
  and every one of them is counted in \<open>droppedRows\<close>.\<close>

theorem add_respects_cap:
  assumes inv: "ls_inv ff s" and cap: "ls_total s \<le> max 0 (ls_max s)"
  shows "ls_total (ls_add ff ord row s) \<le> max 0 (ls_max s) \<and>
     (\<exists>n. rows_at (ls_data (ls_add ff ord row s)) rid =
        drop n (if rid = row_rule row then upsert_scan ff row (rows_at (ls_data s) rid)
                else rows_at (ls_data s) rid)) \<and>
     ls_dropped (ls_add ff ord row s) - ls_dropped s =
       ls_total s + (if known_key ff row s then 0 else 1) - ls_total (ls_add ff ord row s)"
proof -
  have ev: "evicted_from (ls_upsert ff row s) (ls_add ff ord row s)"
    using ls_add_inv_evicted [OF inv] by simp
  have "ls_total (ls_add ff ord row s) \<le> max 0 (ls_max s)"
    by (rule ls_add_cap [OF inv cap])
  moreover have "\<exists>n. rows_at (ls_data (ls_add ff ord row s)) rid =
        drop n (rows_at (ls_data (ls_upsert ff row s)) rid)"
    using ev unfolding evicted_from_def by blast
  moreover have "ls_dropped (ls_add ff ord row s) - ls_dropped s =
       ls_total s + (if known_key ff row s then 0 else 1) - ls_total (ls_add ff ord row s)"
    using ev ls_upsert_total [of ff row s] by (simp add: evicted_from_def)
  ultimately show ?thesis by simp
qed

theorem add_respects_cap_witness:
  "ls_total (ls_add (\<lambda>_. []) sorted_order (demo_row ''R'' ''g'' ''w2'')
     (ls_add (\<lambda>_. []) sorted_order (demo_row ''R'' ''g'' ''w1'') (new_live_store 1 1))) \<le> 1"
proof -
  have c0: "ls_total (new_live_store 1 1) \<le> max 0 (ls_max (new_live_store 1 1))" by simp
  have c1: "ls_total (ls_add (\<lambda>_. []) sorted_order (demo_row ''R'' ''g'' ''w1'') (new_live_store 1 1))
      \<le> max 0 (ls_max (ls_add (\<lambda>_. []) sorted_order (demo_row ''R'' ''g'' ''w1'') (new_live_store 1 1)))"
    using conjunct1 [OF add_respects_cap [OF ls_inv_new c0, of "\<lambda>_. []" sorted_order "demo_row ''R'' ''g'' ''w1''"]]
    by (simp add: ls_add_max [OF ls_inv_new])
  have inv: "ls_inv (\<lambda>_. []) (ls_add (\<lambda>_. []) sorted_order (demo_row ''R'' ''g'' ''w1'') (new_live_store 1 1))"
    by (intro ls_add_inv_evicted ls_inv_new)
  show ?thesis
    using conjunct1 [OF add_respects_cap [OF inv c1, of sorted_order "demo_row ''R'' ''g'' ''w2''"]]
    by (simp add: ls_add_max [OF ls_inv_new])
qed

text \<open>C12. On a slice whose rows are in chronological order (all of them parseable), the pruner
  removes exactly the rows whose window starts at or before the cut-off \<open>now - hours\<close>, and
  counts none of them as dropped; the store stays consistent.\<close>

theorem prune_removes_exactly_stale:
  assumes inv: "ls_inv ff s"
    and chrono: "sorted_wrt (\<lambda>r1 r2. \<exists>t1 t2. parseWindowStart (row_val r1 ''windowStart'') = Some t1
        \<and> parseWindowStart (row_val r2 ''windowStart'') = Some t2 \<and> t1 \<le> t2) (rows_at (ls_data s) rid)"
  shows "rows_at (ls_data (pruneStale ff ord now s)) rid =
       filter (\<lambda>r. \<not> row_stale (ls_cutoff now s) r) (rows_at (ls_data s) rid) \<and>
     ls_inv ff (pruneStale ff ord now s) \<and>
     ls_dropped (pruneStale ff ord now s) = ls_dropped s"
proof -
  have "sorted_wrt (\<lambda>r1 r2. row_stale (ls_cutoff now s) r2 \<longrightarrow> row_stale (ls_cutoff now s) r1) (rows_at (ls_data s) rid)"
    using chrono by (rule sorted_wrt_mono_rel [rotated]) (auto simp: row_stale_def)
  then show ?thesis
    using pruneStale_correct [OF inv] by (simp add: dropWhile_sorted_filter)
qed

theorem prune_removes_exactly_stale_witness:
  "rows_at (ls_data (pruneStale (\<lambda>_. []) sorted_order demo_now
     (ls_bootstrap (\<lambda>_. []) sorted_order
        [demo_row ''R'' ''g'' ''2020-01-01 00:00:00'', demo_row ''R'' ''g'' ''2026-07-06 14:30:00'']
        (new_live_store 100 1)))) ''R''
   = [demo_row ''R'' ''g'' ''2026-07-06 14:30:00'']"
proof -
  let ?old = "demo_row ''R'' ''g'' ''2020-01-01 00:00:00''"
  let ?new = "demo_row ''R'' ''g'' ''2026-07-06 14:30:00''"
  let ?s = "ls_bootstrap (\<lambda>_ :: f64. []) sorted_order [?old, ?new] (new_live_store 100 1)"
  have rows: "rows_at (ls_data ?s) ''R'' = [?old, ?new]"
  proof -
    have "filter (\<lambda>x. row_rule x = ''R'') [?old, ?new] = [?old, ?new]" by code_simp
    then show ?thesis by (simp only: ls_bootstrap_correct(2))
  qed
  have t1: "parseWindowStart (row_val ?old ''windowStart'') = Some (1577817000 * 1000000000)"
    and t2: "parseWindowStart (row_val ?new ''windowStart'') = Some (1783328400 * 1000000000)"
    by code_simp+
  have cut: "ls_cutoff demo_now ?s = demo_now + wrap64 (wrap64 (- 1) * 3600000000000)"
    by (simp add: ls_cutoff_def ls_bootstrap_hours)
  have st: "row_stale (demo_now + wrap64 (wrap64 (- 1) * 3600000000000)) ?old"
    and fr: "\<not> row_stale (demo_now + wrap64 (wrap64 (- 1) * 3600000000000)) ?new"
    by code_simp+
  have chrono: "sorted_wrt (\<lambda>r1 r2. \<exists>t1 t2. parseWindowStart (row_val r1 ''windowStart'') = Some t1
        \<and> parseWindowStart (row_val r2 ''windowStart'') = Some t2 \<and> t1 \<le> t2) (rows_at (ls_data ?s) ''R'')"
    unfolding rows using t1 t2 by simp
  show ?thesis
    using prune_removes_exactly_stale [OF ls_bootstrap_correct(1) chrono, of sorted_order demo_now]
    unfolding cut rows using st fr by simp
qed

text \<open>The pruner gives up on a rule at its first row that is not stale: whatever stale rows
  follow a fresh one are kept. \<open>Bootstrap\<close> stores the rows of a rule in the order they
  come, and the start-up query returns them newest first, so after a start none of a rule's
  bootstrapped rows is pruned while its newest one is fresh, however old the others are.\<close>

theorem newest_first_bootstrap_escapes_pruning:
  assumes "filter (\<lambda>x. row_rule x = rid) rows = r # rs"
    and "\<not> row_stale (ls_cutoff now (ls_bootstrap ff ord rows s)) r"
  shows "rows_at (ls_data (pruneStale ff ord' now (ls_bootstrap ff ord rows s))) rid = r # rs"
  using assms pruneStale_correct(2) [OF ls_bootstrap_correct(1)]
  by (simp add: ls_bootstrap_correct(2))

theorem newest_first_bootstrap_escapes_pruning_witness:
  "rows_at (ls_data (pruneStale (\<lambda>_. []) sorted_order demo_now
     (ls_bootstrap (\<lambda>_. []) sorted_order
        [demo_row ''R'' ''g'' ''2026-07-06 14:30:00'', demo_row ''R'' ''g'' ''2020-01-01 00:00:00'']
        (new_live_store 100 1)))) ''R''
   = [demo_row ''R'' ''g'' ''2026-07-06 14:30:00'', demo_row ''R'' ''g'' ''2020-01-01 00:00:00'']"
proof (rule newest_first_bootstrap_escapes_pruning)
  show "filter (\<lambda>x. row_rule x = ''R'')
      [demo_row ''R'' ''g'' ''2026-07-06 14:30:00'', demo_row ''R'' ''g'' ''2020-01-01 00:00:00'']
    = [demo_row ''R'' ''g'' ''2026-07-06 14:30:00'', demo_row ''R'' ''g'' ''2020-01-01 00:00:00'']"
    by code_simp
  have st: "\<not> row_stale (demo_now + wrap64 (wrap64 (- 1) * 3600000000000))
      (demo_row ''R'' ''g'' ''2026-07-06 14:30:00'')"
    by code_simp
  show "\<not> row_stale (ls_cutoff demo_now (ls_bootstrap (\<lambda>_. []) sorted_order
        [demo_row ''R'' ''g'' ''2026-07-06 14:30:00'', demo_row ''R'' ''g'' ''2020-01-01 00:00:00'']
        (new_live_store 100 1))) (demo_row ''R'' ''g'' ''2026-07-06 14:30:00'')"
    using st by (simp add: ls_cutoff_def ls_bootstrap_hours)
qed

end
