(* ===== verification/LiveStore_Loops.thy ===== *)
theory LiveStore_Loops
  imports LiveStore_Props
begin

text \<open>
  How long the eviction loop of the live results store runs: the loop with a bound on its rounds,
  and the bound that is always enough.
\<close>

text \<open>\<open>trim_loop\<close> that gives up (\<open>None\<close>) when the rounds run out.\<close>

fun trim_fuel ::
  "nat \<Rightarrow> (f64 \<Rightarrow> string) \<Rightarrow> row list range_order \<Rightarrow> int \<Rightarrow> live_store \<Rightarrow> live_store option" where
  "trim_fuel 0 ff ord excess s = None"
| "trim_fuel (Suc fuel) ff ord excess s =
     (if 0 < excess
      then (let (rid, cnt) = find_largest (ls_data s) (range_keys ord (ls_data s)) ([], 0)
            in if rid = [] \<or> cnt = 0 then Some s
               else (let n = (if int cnt < excess then cnt else nat excess)
                     in trim_fuel fuel ff ord (excess - int n) (drop_front ff rid n s)))
      else Some s)"

lemma trim_fuel_stops: "e \<le> 0 \<Longrightarrow> trim_fuel (Suc n) ff ord e s = Some (trim_loop ff ord e s)"
  by (simp add: trim_loop.simps)

declare trim_fuel.simps(2) [simp del]

lemma drop_front_all:
  "length (rows_at (ls_data s) rid) \<le> n \<Longrightarrow> ls_data (drop_front ff rid n s) = (ls_data s)(rid := None)"
  by (simp add: drop_front_def Let_def)

text \<open>A round either uses up the excess or empties a rule.\<close>

lemma trim_fuel_enough:
  assumes "ls_inv ff s" and "card (dom (ls_data s)) \<le> n"
  shows "trim_fuel (Suc n) ff ord e s = Some (trim_loop ff ord e s)"
  using assms
proof (induction n arbitrary: e s)
  case 0
  then have "ls_data s k = None" for k
    using ls_invD(1) [OF "0.prems"(1)] by (auto simp: card_eq_0_iff)
  then have "rows_at (ls_data s) k = []" for k by (simp add: rows_at_None)
  moreover obtain rid cnt where found: "find_largest (ls_data s) (range_keys ord (ls_data s)) ([], 0) = (rid, cnt)"
    by (cases "find_largest (ls_data s) (range_keys ord (ls_data s)) ([], 0)")
  ultimately have "cnt = 0" using find_largest_inv(1) [OF "0.prems"(1) found] by simp
  with found show ?case by (simp add: trim_loop.simps trim_fuel.simps(2))
next
  case (Suc n)
  obtain rid cnt where found: "find_largest (ls_data s) (range_keys ord (ls_data s)) ([], 0) = (rid, cnt)"
    by (cases "find_largest (ls_data s) (range_keys ord (ls_data s)) ([], 0)")
  note f = find_largest_inv [OF Suc.prems(1) found]
  define k where "k = (if int cnt < e then cnt else nat e)"
  let ?s = "drop_front ff rid k s"
  show ?case
  proof (cases "0 < e \<and> \<not> (rid = [] \<or> cnt = 0)")
    case False
    with found show ?thesis by (auto simp: trim_loop.simps [of ff ord e s] trim_fuel.simps(2))
  next
    case True
    have step: "trim_fuel (Suc (Suc n)) ff ord e s = trim_fuel (Suc n) ff ord (e - int k) ?s"
      "trim_loop ff ord e s = trim_loop ff ord (e - int k) ?s"
      using True found by (simp_all add: trim_loop.simps [of ff ord e s] trim_fuel.simps(2) k_def)
    have inv: "ls_inv ff ?s" using True f(1) by (intro drop_front_inv Suc.prems(1)) (auto simp: k_def)
    show ?thesis
    proof (cases "int cnt < e")
      case True
      have "rid \<in> dom (ls_data s)" using f(1) \<open>0 < e \<and> \<not> (rid = [] \<or> cnt = 0)\<close>
        by (auto simp: rows_at_def split: option.splits)
      moreover have "dom (ls_data ?s) = dom (ls_data s) - {rid}"
        using True f(1) by (subst drop_front_all) (auto simp: k_def)
      ultimately have "card (dom (ls_data ?s)) \<le> n"
        using Suc.prems(2) ls_invD(1) [OF Suc.prems(1)] by (simp add: card_Diff_singleton)
      from Suc.IH [OF inv this] step show ?thesis by simp
    next
      case False
      then have "e - int k \<le> 0" by (simp add: k_def)
      from trim_fuel_stops [OF this] step show ?thesis by simp
    qed
  qed
qed

text \<open>C7. The eviction loop ends, and soon: a round that does not reach the cap empties a rule, so as
  many rounds as there are rules and a last look at the condition are enough, whatever the excess;
  the one row that \<open>Add\<close> puts in excess takes one round. The store is then within its cap.\<close>

theorem eviction_loop_terminates:
  assumes "ls_inv ff s"
  shows "trim_fuel (Suc (card (dom (ls_data s)))) ff ord (ls_total s - ls_max s) s = Some (trimExcess ff ord s) \<and>
    trim_fuel 2 ff ord 1 s = Some (trim_loop ff ord 1 s) \<and>
    ls_total (trimExcess ff ord s) \<le> max 0 (ls_max s)"
proof -
  obtain rid cnt where found: "find_largest (ls_data s) (range_keys ord (ls_data s)) ([], 0) = (rid, cnt)"
    by (cases "find_largest (ls_data s) (range_keys ord (ls_data s)) ([], 0)")
  have "trim_fuel 2 ff ord 1 s = Some (trim_loop ff ord 1 s)"
    using found by (cases cnt) (simp_all add: numeral_2_eq_2 trim_fuel.simps(2) trim_loop.simps)
  moreover have "ls_total (trimExcess ff ord s) \<le> max 0 (ls_max s)"
    using trimExcess_correct(3) [OF assms, of ord]
    by (cases "ls_max s < ls_total s") (simp_all add: trimExcess_def trim_loop.simps)
  ultimately show ?thesis using trim_fuel_enough [OF assms order_refl] by (simp add: trimExcess_def)
qed

theorem eviction_loop_terminates_witness:
  "\<exists>s. trim_fuel (Suc (card (dom (ls_data s)))) (\<lambda>_. []) sorted_order (ls_total s - ls_max s) s =
      Some (trimExcess (\<lambda>_. []) sorted_order s) \<and> ls_total s = 2 \<and> ls_max s = 0"
proof -
  let ?s = "ls_bootstrap (\<lambda>_. []) sorted_order [demo_row ''R'' ''g'' ''w1'', demo_row ''S'' ''g'' ''w2''] (new_live_store 0 1)"
  have inv: "ls_inv (\<lambda>_. []) ?s" by (rule ls_bootstrap_correct(1))
  have "ls_total ?s = 2 \<and> ls_max ?s = 0"
    using ls_bootstrap_correct [of "\<lambda>_. []" sorted_order _ "new_live_store 0 1"] by simp
  with eviction_loop_terminates [OF inv, of sorted_order] show ?thesis by blast
qed

section \<open>The pruner\<close>

text \<open>\<open>runPruner\<close> over its first ticks: what the consumer did since the last one, the map order, the time.\<close>

fun runPruner ::
  "(f64 \<Rightarrow> string) \<Rightarrow> (ls_op list \<times> row list range_order \<times> instant) list \<Rightarrow> live_store \<Rightarrow> live_store" where
  "runPruner ff [] s = s"
| "runPruner ff ((ops, ord, now) # ticks) s = runPruner ff ticks (pruneStale ff ord now (ls_run ff s ops))"

definition pruner_interval :: duration where
  "pruner_interval = 30 * 1000000000"

lemma runPruner_append: "runPruner ff (xs @ ys) s = runPruner ff ys (runPruner ff xs s)"
  by (induction ff xs s rule: runPruner.induct) simp_all

lemma ls_add_hours: "ls_inv ff s \<Longrightarrow> ls_hours (ls_add ff ord row s) = ls_hours s"
  using ls_add_inv_evicted(2) [of ff s row ord] by (simp add: evicted_from_def)

lemma prune_hours: "ls_hours (pruneStale ff ord now s) = ls_hours s"
proof -
  have "ls_hours (fold (prune_rule ff c) ks s) = ls_hours s" for c ks s
    by (induction ks arbitrary: s) simp_all
  then show ?thesis by (simp add: pruneStale_def)
qed

lemma ls_run_hours: "ls_inv ff s \<Longrightarrow> ls_hours (ls_run ff s ops) = ls_hours s"
proof (induction ops arbitrary: s)
  case (Cons op ops)
  have "ls_hours (ls_step ff s op) = ls_hours s"
    using Cons.prems by (cases op) (simp_all add: ls_add_hours prune_hours ls_bootstrap_hours)
  with Cons.IH [OF ls_step_inv [OF Cons.prems, of op]] show ?case by (simp add: ls_run_def)
qed (simp add: ls_run_def)

lemma runPruner_inv: "ls_inv ff s \<Longrightarrow> ls_inv ff (runPruner ff ticks s) \<and> ls_hours (runPruner ff ticks s) = ls_hours s"
proof (induction ff ticks s rule: runPruner.induct)
  case (2 ff ops ord now ticks s)
  have "ls_inv ff (ls_run ff s ops)" using 2(2) by (rule ls_run_inv)
  with 2 show ?case by (simp add: pruneStale_correct(1) prune_hours ls_run_hours)
qed simp

text \<open>As long as a rule's rows are in chronological order, what a client is served of it is recent:
  until the next tick, half a minute later, no row held since the last tick is older than the
  configured hours and that half minute.\<close>

lemma served_rows_are_recent:
  assumes "s = runPruner ff (ticks @ [(ops, ord, t)]) (new_live_store m h)" and "0 \<le> h" and "h \<le> 2562047"
    and chrono: "sorted_wrt (\<lambda>r1 r2. \<exists>t1 t2. parseWindowStart (row_val r1 ''windowStart'') = Some t1
        \<and> parseWindowStart (row_val r2 ''windowStart'') = Some t2 \<and> t1 \<le> t2) (rows_at (ls_data s) rid)"
    and "r \<in> set (rows_at (ls_data s) rid)" and start: "parseWindowStart (row_val r ''windowStart'') = Some w"
    and "now \<le> t + pruner_interval"
  shows "now - w < h * 3600000000000 + pruner_interval"
proof -
  let ?u = "ls_run ff (runPruner ff ticks (new_live_store m h)) ops"
  have new: "ls_inv ff (new_live_store m h)" by simp
  note p = runPruner_inv [OF new, of ticks]
  have u: "ls_inv ff ?u" "ls_hours ?u = h" using p by (simp_all add: ls_run_inv ls_run_hours)
  have s: "s = pruneStale ff ord t ?u" using assms(1) by (simp add: runPruner_append)
  have cut: "ls_cutoff t ?u = t - h * 3600000000000"
    using assms(2,3) u(2) by (simp add: ls_cutoff_def int64_range_def)
  have rows: "rows_at (ls_data s) rid = dropWhile (row_stale (t - h * 3600000000000)) (rows_at (ls_data ?u) rid)"
    unfolding s by (simp add: pruneStale_correct(2) [OF u(1)] cut)
  obtain r0 rs where c: "rows_at (ls_data s) rid = r0 # rs" using assms(5) by (cases "rows_at (ls_data s) rid") auto
  have fresh: "\<not> row_stale (t - h * 3600000000000) r0" using rows c by (metis dropWhile_eq_Cons_conv)
  have "t - h * 3600000000000 < w"
  proof (cases "r = r0")
    case True
    with fresh start show ?thesis by (simp add: row_stale_def)
  next
    case False
    with assms(5) c have "r \<in> set rs" by simp
    with chrono c start obtain w0 where "parseWindowStart (row_val r0 ''windowStart'') = Some w0" "w0 \<le> w" by auto
    with fresh show ?thesis by (simp add: row_stale_def)
  qed
  with assms(7) show ?thesis by linarith
qed

end
