(* ===== verification/Buffers.thy ===== *)
theory Buffers
  imports Prelude
begin

text \<open>
  The interface of the bounded buffers the program keeps: the anomaly ring buffer drops its
  oldest element when full, a connection's outbox drops the newest. What every client of such
  a buffer relies on is proved once here; the components interpret the locales on their own
  operations.
\<close>

locale bounded_buffer =
  fixes contents :: "'s \<Rightarrow> 'a list" and put :: "'a \<Rightarrow> 's \<Rightarrow> 's" and cap :: "'s \<Rightarrow> nat"
  assumes cap_put: "cap (put x s) = cap s"
    and put_room: "length (contents s) < cap s \<Longrightarrow> contents (put x s) = contents s @ [x]"
    and put_bound: "length (contents s) \<le> cap s \<Longrightarrow> length (contents (put x s)) \<le> cap s"
begin

definition put_all :: "'a list \<Rightarrow> 's \<Rightarrow> 's" where
  "put_all xs s = fold put xs s"

lemma cap_put_all: "cap (put_all xs s) = cap s"
  unfolding put_all_def by (induction xs arbitrary: s) (simp_all add: cap_put)

lemma put_all_bound:
  "length (contents s) \<le> cap s \<Longrightarrow> length (contents (put_all xs s)) \<le> cap s"
  unfolding put_all_def
proof (induction xs arbitrary: s)
  case (Cons x xs)
  then show ?case using put_bound [OF Cons.prems, of x] Cons.IH [of "put x s"] by (simp add: cap_put)
qed simp

lemma put_all_fits:
  "length (contents s) + length xs \<le> cap s \<Longrightarrow> contents (put_all xs s) = contents s @ xs"
  unfolding put_all_def
proof (induction xs arbitrary: s)
  case (Cons x xs)
  then show ?case using Cons.IH [of "put x s"] put_room [of s x] by (simp add: cap_put)
qed simp

end

text \<open>A buffer that makes room by forgetting its oldest elements.\<close>

locale newest_buffer = bounded_buffer +
  assumes put_full: "length (contents s) = cap s \<Longrightarrow> contents (put x s) = last_n (cap s) (contents s @ [x])"
begin

lemma put_last_n:
  assumes "length (contents s) \<le> cap s"
  shows "contents (put x s) = last_n (cap s) (contents s @ [x])"
  using assms put_room [of s x] put_full [of s x] by (cases "length (contents s) = cap s") auto

lemma put_all_last_n:
  "length (contents s) \<le> cap s \<Longrightarrow> contents (put_all xs s) = last_n (cap s) (contents s @ xs)"
proof (induction xs rule: rev_induct)
  case (snoc x xs)
  let ?t = "put_all xs s"
  have "contents (put x ?t) = last_n (cap s) (contents ?t @ [x])"
    using put_last_n [of ?t x] put_all_bound [OF snoc.prems, of xs] by (simp add: cap_put_all)
  then show ?case
    using snoc by (simp add: put_all_def last_n_snoc_last_n)
qed (simp add: put_all_def)

end

text \<open>A buffer that refuses what does not fit.\<close>

locale oldest_buffer = bounded_buffer +
  assumes put_full: "length (contents s) = cap s \<Longrightarrow> contents (put x s) = contents s"
begin

lemma put_all_take:
  "length (contents s) \<le> cap s \<Longrightarrow> contents (put_all xs s) = take (cap s) (contents s @ xs)"
  unfolding put_all_def
proof (induction xs arbitrary: s)
  case (Cons x xs)
  show ?case
  proof (cases "length (contents s) = cap s")
    case True
    then show ?thesis using Cons.IH [of "put x s"] by (simp add: put_full cap_put)
  next
    case False
    then show ?thesis
      using Cons.IH [of "put x s"] Cons.prems put_room [of s x] by (simp add: cap_put)
  qed
qed simp

end

end
