(* ===== verification/WSManager.thy ===== *)
theory WSManager
  imports Buffers GoValue
begin

text \<open>
  \<open>internal/services/wsmanager.go\<close>: the WebSocket connection manager with its goroutines. A
  \<open>wsEntry\<close> pointer is named by the connection it was created for and a serial number. The
  manager's state is the \<open>conns\<close> map, the heap of entries and the two metrics it keeps.

  A goroutine is the list of the atomic actions it still has to perform: a critical section
  under \<open>m.mu\<close>, a channel operation, or a socket write. \<open>ws_exec\<close> gives, for an action and a
  manager state, every outcome the code and the scheduler allow: the new state, the actions
  that replace the performed one, and the goroutines it starts. No outcome means that the
  goroutine blocks there. A critical section is one action, so waiting for \<open>m.mu\<close> is not
  modelled (no action inside one blocks). Time is not measured: a write may end at any moment, as
  may the two-second wait of \<open>CloseAll\<close>; how long they can take is in \<open>Platform\<close>, and what happens
  while a write does not end in \<open>WSManager_Props\<close> (\<open>ws_exec_stalled\<close>). \<open>ws_step\<close> interleaves the goroutines of a system, and lets callers
  start new ones at any time, which covers every interleaving of the handlers.
\<close>

section \<open>State\<close>

type_synonym conn = nat
datatype eid = Eid (of_conn: conn) (serial_no: nat)

type_synonym conn_order = "(conn, eid) key_order"

definition outboxSize :: nat where
  "outboxSize = 256"

record ws_entry =
  e_rules :: "string list"
  e_outbox :: "gval list"
  e_closed :: bool
  e_done :: bool

definition newWsEntry :: "string list \<Rightarrow> ws_entry" where
  "newWsEntry ids = \<lparr>e_rules = ids, e_outbox = [], e_closed = False, e_done = False\<rparr>"

record ws_mgr =
  w_conns :: "conn \<rightharpoonup> eid"
  w_heap :: "eid \<rightharpoonup> ws_entry"
  w_serial :: nat
  w_active :: int
  w_dropped :: nat

definition newWSManager :: ws_mgr where
  "newWSManager = \<lparr>w_conns = Map.empty, w_heap = Map.empty, w_serial = 0, w_active = 0, w_dropped = 0\<rparr>"

text \<open>A method call through an entry pointer changes the entry in the heap.\<close>

definition upd_entry :: "eid \<Rightarrow> (ws_entry \<Rightarrow> ws_entry) \<Rightarrow> ws_mgr \<Rightarrow> ws_mgr" where
  "upd_entry e f m = m\<lparr>w_heap := (w_heap m)(e := map_option f (w_heap m e))\<rparr>"

text \<open>
  \<open>enqueue\<close> selects between sending to the outbox, which is ready while there is room, and
  the closed channel; with both ready the runtime picks either (\<open>pick\<close>), with neither the
  default case drops the message.
\<close>

definition e_enqueue :: "bool \<Rightarrow> gval \<Rightarrow> ws_entry \<Rightarrow> ws_entry \<times> bool" where
  "e_enqueue pick d e =
     (if length (e_outbox e) < outboxSize \<and> (\<not> e_closed e \<or> pick)
      then (e\<lparr>e_outbox := e_outbox e @ [d]\<rparr>, True) else (e, False))"

definition e_stop :: "ws_entry \<Rightarrow> ws_entry" where
  "e_stop e = e\<lparr>e_closed := True\<rparr>"

section \<open>Actions\<close>

datatype act =
    DoConnect conn "string list"       \<comment> \<open>the critical section of \<open>Connect\<close>\<close>
  | DoStarted conn eid                 \<comment> \<open>\<open>go m.writePump\<close> and the gauge increment\<close>
  | DoDisconnect conn                  \<comment> \<open>the critical section of \<open>Disconnect\<close>\<close>
  | DoStop eid bool                    \<comment> \<open>\<open>entry.stop()\<close>, with the gauge decrement of \<open>Disconnect\<close>\<close>
  | DoWrite conn gval                  \<comment> \<open>the critical section of \<open>WriteToConn\<close>\<close>
  | DoBroadcast conn_order string row  \<comment> \<open>the critical section of \<open>Broadcast\<close>\<close>
  | DoEnqueue eid gval bool            \<comment> \<open>\<open>entry.enqueue\<close>, counting a drop for \<open>Broadcast\<close>\<close>
  | DoPump conn eid                    \<comment> \<open>the select of \<open>writePump\<close>\<close>
  | DoSend conn eid gval               \<comment> \<open>\<open>writePump\<close> inside \<open>conn.WriteMessage\<close>\<close>
  | DoDone eid                         \<comment> \<open>the deferred \<open>close(entry.done)\<close>\<close>
  | DoCloseAll conn_order              \<comment> \<open>the critical section of \<open>CloseAll\<close>\<close>
  | DoAwait conn eid                   \<comment> \<open>the select of \<open>CloseAll\<close> on \<open>entry.done\<close> and the timer\<close>
  | DoSendClose conn                   \<comment> \<open>\<open>CloseAll\<close> inside \<open>conn.WriteMessage\<close>\<close>
  | DoCloseConn conn                   \<comment> \<open>\<open>conn.Close()\<close>\<close>

text \<open>
  The message of a broadcast. \<open>json.Marshal\<close> fails on a NaN or an infinity (exponent 2047),
  and \<open>Broadcast\<close> then returns without sending.
\<close>

fun marshalable :: "gval \<Rightarrow> bool" where
  "marshalable (GFloat f) \<longleftrightarrow> f64_exp f \<noteq> 2047"
| "marshalable (GList xs) \<longleftrightarrow> list_all marshalable xs"
| "marshalable (GMap kvs) \<longleftrightarrow> list_all (\<lambda>kv. marshalable (snd kv)) kvs"
| "marshalable _ \<longleftrightarrow> True"

definition delta_msg :: "string \<Rightarrow> row \<Rightarrow> gval" where
  "delta_msg rid row = GMap [(''type'', GStr ''delta''), (''rule_id'', GStr rid), (''row'', GMap row)]"

definition ws_targets :: "conn_order \<Rightarrow> string \<Rightarrow> ws_mgr \<Rightarrow> eid list" where
  "ws_targets ord rid m =
     filter (\<lambda>e. case w_heap m e of None \<Rightarrow> False | Some en \<Rightarrow> rid \<in> set (e_rules en))
       (map (\<lambda>c. the (w_conns m c)) (range_keys ord (w_conns m)))"

definition ws_register :: "conn \<Rightarrow> string list \<Rightarrow> ws_mgr \<Rightarrow> ws_mgr \<times> act list" where
  "ws_register c ids m =
     (case w_conns m c of
        Some e \<Rightarrow> (upd_entry e (e_rules_update (\<lambda>_. ids)) m, [])
      | None \<Rightarrow>
          (let e = Eid c (w_serial m)
           in (m\<lparr>w_heap := (w_heap m)(e \<mapsto> newWsEntry ids), w_serial := w_serial m + 1,
                 w_conns := (w_conns m)(c \<mapsto> e)\<rparr>, [DoStarted c e])))"

text \<open>The end of a goroutine's turn at an entry: one outcome per way the select may go.\<close>

definition do_enqueue :: "eid \<Rightarrow> gval \<Rightarrow> bool \<Rightarrow> bool \<Rightarrow> ws_mgr \<Rightarrow> ws_mgr \<times> bool" where
  "do_enqueue e d counted pick m =
     (case w_heap m e of
        None \<Rightarrow> (m, False)
      | Some en \<Rightarrow>
          (let (en', ok) = e_enqueue pick d en; m' = m\<lparr>w_heap := (w_heap m)(e \<mapsto> en')\<rparr>
           in if ok \<or> \<not> counted then (m', ok) else (m'\<lparr>w_dropped := w_dropped m + 1\<rparr>, ok)))"

fun ws_exec :: "act \<Rightarrow> ws_mgr \<Rightarrow> (ws_mgr \<times> act list \<times> act list list) list" where
  "ws_exec (DoConnect c ids) m = (case ws_register c ids m of (m', k) \<Rightarrow> [(m', k, [])])"
| "ws_exec (DoStarted c e) m = [(m\<lparr>w_active := w_active m + 1\<rparr>, [], [[DoPump c e, DoDone e]])]"
| "ws_exec (DoDisconnect c) m =
     [(m\<lparr>w_conns := (w_conns m)(c := None)\<rparr>,
       case w_conns m c of None \<Rightarrow> [] | Some e \<Rightarrow> [DoStop e True], [])]"
| "ws_exec (DoStop e dec) m =
     [(let m' = upd_entry e e_stop m in if dec then m'\<lparr>w_active := w_active m' - 1\<rparr> else m', [], [])]"
| "ws_exec (DoWrite c d) m =
     [(m, case w_conns m c of None \<Rightarrow> [] | Some e \<Rightarrow> [DoEnqueue e d False], [])]"
| "ws_exec (DoBroadcast ord rid row) m =
     [(m, if marshalable (delta_msg rid row)
          then map (\<lambda>e. DoEnqueue e (delta_msg rid row) True) (ws_targets ord rid m) else [], [])]"
| "ws_exec (DoEnqueue e d counted) m =
     map (\<lambda>pick. (fst (do_enqueue e d counted pick m), [], [])) [True, False]"
| "ws_exec (DoPump c e) m =
     (case w_heap m e of
        None \<Rightarrow> []
      | Some en \<Rightarrow>
          (case e_outbox en of
             [] \<Rightarrow> []
           | d # ds \<Rightarrow> [(upd_entry e (e_outbox_update tl) m, [DoSend c e d], [])])
          @ (if e_closed en then [(m, [], [])] else []))"
| "ws_exec (DoSend c e d) m = [(m, [DoPump c e], []), (m, [DoDisconnect c, DoCloseConn c], [])]"
| "ws_exec (DoDone e) m = [(upd_entry e (e_done_update (\<lambda>_. True)) m, [], [])]"
| "ws_exec (DoCloseAll ord) m =
     [(m, concat (map (\<lambda>c. [DoStop (the (w_conns m c)) False, DoAwait c (the (w_conns m c)),
                             DoDisconnect c, DoCloseConn c]) (range_keys ord (w_conns m))), [])]"
| "ws_exec (DoAwait c e) m =
     (case w_heap m e of
        None \<Rightarrow> []
      | Some en \<Rightarrow> if e_done en then [(m, [DoSendClose c], [])] else [])
     @ [(m, [], [])]"
| "ws_exec (DoSendClose c) m = [(m, [], [])]"
| "ws_exec (DoCloseConn c) m = [(m, [], [])]"

section \<open>The system\<close>

type_synonym ws_sys = "ws_mgr \<times> act list list \<times> bool"

fun api_call :: "act \<Rightarrow> bool" where
  "api_call (DoConnect c ids) \<longleftrightarrow> True"
| "api_call (DoDisconnect c) \<longleftrightarrow> True"
| "api_call (DoWrite c d) \<longleftrightarrow> True"
| "api_call (DoBroadcast ord rid row) \<longleftrightarrow> True"
| "api_call _ \<longleftrightarrow> False"

text \<open>
  The server's \<open>main\<close> calls \<open>CloseAll\<close> once, during shutdown; the last component of a system
  says whether it has.
\<close>

inductive ws_step :: "ws_sys \<Rightarrow> ws_sys \<Rightarrow> bool" where
  ws_call: "api_call a \<Longrightarrow> ws_step (m, ts, sd) (m, ts @ [[a]], sd)"
| ws_shutdown: "ws_step (m, ts, False) (m, ts @ [[DoCloseAll ord]], True)"
| ws_run: "i < length ts \<Longrightarrow> ts ! i = a # k \<Longrightarrow> (m', k', new) \<in> set (ws_exec a m) \<Longrightarrow>
     ws_step (m, ts, sd) (m', ts[i := k' @ k] @ new, sd)"

inductive_cases ws_stepE: "ws_step (m, ts, sd) s'"

inductive ws_reach :: "ws_sys \<Rightarrow> bool" where
  ws_init: "ws_reach (newWSManager, [], False)"
| ws_next: "ws_reach s \<Longrightarrow> ws_step s s' \<Longrightarrow> ws_reach s'"

definition connectionCount :: "ws_mgr \<Rightarrow> nat" where
  "connectionCount m = card (dom (w_conns m))"

text \<open>A goroutine that is inside a write on a connection's socket.\<close>

fun writing :: "conn \<Rightarrow> act list \<Rightarrow> bool" where
  "writing c (DoSend c' e d # k) \<longleftrightarrow> c' = c"
| "writing c (DoSendClose c' # k) \<longleftrightarrow> c' = c"
| "writing c _ \<longleftrightarrow> False"

end
