(* ===== verification/AnomalyStore.thy ===== *)
theory AnomalyStore
  imports Buffers GoValue
begin

text \<open>
  The anomaly ring buffer of \<open>internal/services/anomaly_consumer.go\<close>: its state, \<open>Add\<close>,
  \<open>GetRecent\<close> with its backwards scan and the in-place reversal of the result, and what the
  two promise together. A negative capacity makes the constructor panic (\<open>None\<close>), so the
  capacity of an existing store is a natural number.
\<close>

section \<open>Model\<close>

record anomaly_store =
  an_events :: "row list"
  an_max :: nat

definition new_anomaly_store :: "int \<Rightarrow> anomaly_store option" where
  "new_anomaly_store maxLen =
     (if maxLen < 0 then None else Some \<lparr>an_events = [], an_max = nat maxLen\<rparr>)"

definition an_add :: "row \<Rightarrow> anomaly_store \<Rightarrow> anomaly_store" where
  "an_add event s =
     (let evs = an_events s @ [event]
      in if an_max s < length evs then s\<lparr>an_events := drop (length evs - an_max s) evs\<rparr>
         else s\<lparr>an_events := evs\<rparr>)"

text \<open>
  The scan goes from the newest event back, until \<open>n\<close> events are collected; the events are
  given newest first.
\<close>

fun recent_scan :: "string \<Rightarrow> int \<Rightarrow> row list \<Rightarrow> row list \<Rightarrow> row list" where
  "recent_scan rid n [] result = result"
| "recent_scan rid n (evt # evts) result =
     (if int (length result) < n
      then if rid \<noteq> [] \<and> row_str evt ''ruleId'' \<noteq> rid then recent_scan rid n evts result
           else recent_scan rid n evts (result @ [evt])
      else result)"

text \<open>The reversal loop swaps the ends and moves inwards.\<close>

function swap_ends :: "nat \<Rightarrow> int \<Rightarrow> 'a list \<Rightarrow> 'a list" where
  "swap_ends i j xs =
     (if int i < j
      then swap_ends (Suc i) (j - 1) (xs[i := xs ! nat j, nat j := xs ! i])
      else xs)"
  by pat_completeness auto
termination
  by (relation "measure (\<lambda>(i, j, xs). nat (j - int i))") auto

declare swap_ends.simps [simp del]

definition an_getRecent :: "anomaly_store \<Rightarrow> string \<Rightarrow> int \<Rightarrow> row list" where
  "an_getRecent s rid n =
     (let result = recent_scan rid n (rev (an_events s)) []
      in swap_ends 0 (int (length result) - 1) result)"

section \<open>The loops\<close>

lemma length_swap_ends [simp]: "length (swap_ends i j xs) = length xs"
  by (induction i j xs rule: swap_ends.induct) (subst swap_ends.simps, simp)

lemma swap_ends_nth:
  assumes "int i + j + 1 = int (length xs)" and "k < length xs"
  shows "swap_ends i j xs ! k =
     (if i \<le> k \<and> int k \<le> j then xs ! (length xs - 1 - k) else xs ! k)"
  using assms
proof (induction i j xs rule: swap_ends.induct)
  case (1 i j xs)
  show ?case
  proof (cases "int i < j")
    case True
    let ?ys = "xs[i := xs ! nat j, nat j := xs ! i]"
    have ij: "i < length xs" "nat j < length xs" "nat j = length xs - 1 - i"
      using True "1.prems" by linarith+
    have "swap_ends i j xs ! k = swap_ends (Suc i) (j - 1) ?ys ! k"
      using True by (subst swap_ends.simps) simp
    also have "\<dots> = (if Suc i \<le> k \<and> int k \<le> j - 1 then ?ys ! (length xs - 1 - k) else ?ys ! k)"
      using "1.IH" [OF True] "1.prems" by simp
    also have "\<dots> = (if i \<le> k \<and> int k \<le> j then xs ! (length xs - 1 - k) else xs ! k)"
    proof -
      consider "k = i" | "int k = j" | "i < k" "int k < j" | "k < i" | "j < int k" by linarith
      then show ?thesis
      proof cases
        case 1
        with True ij show ?thesis by simp
      next
        case 2
        with True ij have "length xs - 1 - k = i" "k = nat j" "i \<le> k" by linarith+
        with True 2 ij show ?thesis by simp
      next
        case 3
        with ij have "length xs - 1 - k \<noteq> i" "length xs - 1 - k \<noteq> nat j" by linarith+
        with 3 show ?thesis by simp
      next
        case 4
        with True ij show ?thesis by simp
      next
        case 5
        with True ij have "k \<noteq> nat j" by linarith
        with True 5 show ?thesis by simp
      qed
    qed
    finally show ?thesis .
  next
    case False
    then have "swap_ends i j xs = xs" by (subst swap_ends.simps) simp
    then show ?thesis using False "1.prems" by (auto intro: arg_cong [where f = "nth xs"])
  qed
qed

lemma swap_ends_rev: "swap_ends 0 (int (length xs) - 1) xs = rev xs"
  by (rule nth_equalityI) (auto simp: swap_ends_nth rev_nth)

lemma recent_scan_take:
  "int (length res) \<le> max 0 n \<Longrightarrow> recent_scan rid n evts res =
     res @ take (nat n - length res) (filter (\<lambda>e. rid = [] \<or> row_str e ''ruleId'' = rid) evts)"
proof (induction rid n evts res rule: recent_scan.induct)
  case (2 rid n evt evts result)
  show ?case
  proof (cases "int (length result) < n")
    case True
    then obtain k where "nat n - length result = Suc k"
      by (metis Suc_pred' nat_int zero_less_diff zless_nat_eq_int_zless)
    moreover from this have "k = nat n - Suc (length result)" by simp
    ultimately show ?thesis using 2 True by auto
  next
    case False
    with 2 show ?thesis by auto
  qed
qed simp

lemma rev_take_filter_rev: "rev (take n (filter P (rev xs))) = last_n n (filter P xs)"
  by (simp add: last_n_def rev_filter [symmetric] take_rev)

lemma an_getRecent_eq:
  "an_getRecent s rid n =
     last_n (nat n) (filter (\<lambda>e. rid = [] \<or> row_str e ''ruleId'' = rid) (an_events s))"
  by (simp add: an_getRecent_def Let_def swap_ends_rev recent_scan_take rev_take_filter_rev)

section \<open>The store is a buffer of the newest events\<close>

interpretation anomalies: newest_buffer an_events an_add an_max
  by unfold_locales (auto simp: an_add_def Let_def last_n_def)

section \<open>Properties\<close>

text \<open>An anomaly store that has received any sequence of events answers \<open>GetRecent\<close>
  with the newest \<open>n\<close> of the retained events of the rule (of all rules for an empty id), in
  chronological order, the retained events being the newest \<open>maxLen\<close> received.\<close>

theorem getRecent_after_adds:
  assumes "new_anomaly_store maxLen = Some s0"
  shows "an_getRecent (fold an_add events s0) rid n =
     last_n (nat n) (filter (\<lambda>e. rid = [] \<or> row_str e ''ruleId'' = rid) (last_n (nat maxLen) events))"
proof -
  have s0: "an_events s0 = []" "an_max s0 = nat maxLen"
    using assms by (auto simp: new_anomaly_store_def split: if_splits)
  then show ?thesis
    using anomalies.put_all_last_n [of s0 events] by (simp add: an_getRecent_eq anomalies.put_all_def)
qed

theorem getRecent_after_adds_witness:
  "an_getRecent (fold an_add [[(''ruleId'', GStr ''A''), (''n'', GInt 1)],
        [(''ruleId'', GStr ''B'')], [(''ruleId'', GStr ''A''), (''n'', GInt 3)]]
        \<lparr>an_events = [], an_max = 2\<rparr>) ''A'' 5
     = [[(''ruleId'', GStr ''A''), (''n'', GInt 3)]]"
proof -
  have new: "new_anomaly_store 2 = Some \<lparr>an_events = [], an_max = 2\<rparr>"
    by (simp add: new_anomaly_store_def)
  show ?thesis
    unfolding getRecent_after_adds [OF new] by code_simp
qed

end
