(* ===== verification/WSHandlers.thy ===== *)
theory WSHandlers
  imports WSManager LiveStore AnomalyStore
begin

text \<open>
  \<open>internal/handlers/websocket.go\<close>: the origin check and the two connection handlers. A handler
  is a loop over what \<open>ReadMessage\<close> returns; what it does to the connection manager are the
  actions of \<open>WSManager\<close>. The socket library is a parameter: the sequence of its results.
\<close>

section \<open>Origin\<close>

definition checkOrigin :: "string \<Rightarrow> string \<Rightarrow> bool" where
  "checkOrigin cors origin \<longleftrightarrow>
     origin = [] \<or> cors = ''*'' \<or> origin \<in> set (map trim_space (split_on CHR '','' cors))"

section \<open>The loop\<close>

text \<open>What \<open>ReadMessage\<close> returns: a message (\<open>None\<close> if it is no JSON), a close error with its code, a
  timeout of the read deadline, another error; or it panics, which ends the handler through its
  deferred calls (\<open>gin.Recovery\<close> keeps the process).\<close>

datatype ws_read = Msg "gval option" | Closed nat | Timeout | ReadFailed | Panics

text \<open>What \<open>WriteToConn\<close> answers: only a full outbox is an error.\<close>

type_synonym outbox_full = bool

definition heartbeat :: gval where
  "heartbeat = GMap [(''type'', GStr ''heartbeat'')]"

text \<open>The frame of a value: \<open>GNil\<close> stands for the empty text a failed \<open>json.Marshal\<close> leaves.\<close>

definition frame :: "gval \<Rightarrow> gval" where
  "frame v = (if marshalable v then v else GNil)"

text \<open>The rule ids of a subscription, if the message is one.\<close>

definition subscription :: "gval option \<Rightarrow> string list option" where
  "subscription doc =
     (case doc of
        Some (GMap msg) \<Rightarrow>
          if row_val msg ''type'' = GStr ''subscribe''
          then Some (case as_list (row_val msg ''rule_ids'') of None \<Rightarrow> [] | Some xs \<Rightarrow> List.map_filter as_str xs)
          else None
      | _ \<Rightarrow> None)"

text \<open>One turn: the actions, and whether the loop goes on.\<close>

definition ws_turn :: "conn \<Rightarrow> (string list \<Rightarrow> gval) \<Rightarrow> ws_read \<Rightarrow> outbox_full \<Rightarrow> act list \<times> bool" where
  "ws_turn c snapshot rd full =
     (case rd of
        Closed code \<Rightarrow> ([], False)
      | ReadFailed \<Rightarrow> ([], False)
      | Panics \<Rightarrow> ([], False)
      | Timeout \<Rightarrow> ([DoWrite c (frame heartbeat)], True)
      | Msg doc \<Rightarrow>
          (case subscription doc of
             None \<Rightarrow> ([], True)
           | Some ids \<Rightarrow> ([DoConnect c ids, DoWrite c (frame (snapshot ids))], \<not> full)))"

text \<open>The whole handler over the first results; the deferred calls run when the loop ends.\<close>

fun ws_loop :: "conn \<Rightarrow> ('s \<Rightarrow> string list \<Rightarrow> gval) \<Rightarrow> (ws_read \<times> 's \<times> outbox_full) list \<Rightarrow> act list \<times> bool" where
  "ws_loop c snap [] = ([], True)"
| "ws_loop c snap ((rd, s, full) # evs) =
     (case ws_turn c (snap s) rd full of
        (acts, True) \<Rightarrow> (case ws_loop c snap evs of (later, alive) \<Rightarrow> (acts @ later, alive))
      | (acts, False) \<Rightarrow> (acts @ [DoDisconnect c, DoCloseConn c], False))"

section \<open>The two handlers\<close>

definition bootstrap_msg :: "gval \<Rightarrow> gval" where
  "bootstrap_msg data = GMap [(''type'', GStr ''bootstrap''), (''data'', data)]"

definition live_snapshot :: "live_store \<Rightarrow> string list \<Rightarrow> gval" where
  "live_snapshot s ids =
     (let m = ls_getAll s ids
      in bootstrap_msg (GMap (map (\<lambda>k. (k, GList (map GMap (rows_at m k)))) (sorted_list_of_set (dom m)))))"

definition anomaly_snapshot :: "anomaly_store \<Rightarrow> string list \<Rightarrow> gval" where
  "anomaly_snapshot s ids =
     (let rows = (if ids = [] then an_getRecent s [] 200 else concat (map (\<lambda>i. an_getRecent s i 50) ids))
      in bootstrap_msg (if rows = [] then GNil else GList (map GMap rows)))"

definition liveAnalysisWS :: "conn \<Rightarrow> (ws_read \<times> live_store \<times> outbox_full) list \<Rightarrow> act list \<times> bool" where
  "liveAnalysisWS c evs = ws_loop c live_snapshot evs"

definition anomalyAnalysisWS :: "conn \<Rightarrow> (ws_read \<times> anomaly_store \<times> outbox_full) list \<Rightarrow> act list \<times> bool" where
  "anomalyAnalysisWS c evs = ws_loop c anomaly_snapshot evs"

end
