(* ===== verification/WSManager_Props.thy ===== *)
theory WSManager_Props
  imports WSManager
begin

text \<open>
  What holds in every reachable state of the connection manager, whatever the scheduler does:
  the bound of the outboxes, the gauge of active connections, the life cycle of a writer
  goroutine, and that one goroutine at most writes to a socket.
\<close>

section \<open>Pending actions\<close>

definition pend :: "(act \<Rightarrow> bool) \<Rightarrow> act list list \<Rightarrow> nat" where
  "pend P ts = (\<Sum>t\<leftarrow>ts. length (filter P t))"

lemma pend_simps [simp]:
  "pend P [] = 0" "pend P (t # ts) = length (filter P t) + pend P ts"
  "pend P (ts @ us) = pend P ts + pend P us"
  by (simp_all add: pend_def)

lemma pend_run:
  assumes "i < length ts" and "ts ! i = a # k"
  shows "pend P (ts[i := k' @ k]) + (if P a then 1 else 0) = pend P ts + length (filter P k')"
proof -
  have "ts = take i ts @ (a # k) # drop (Suc i) ts"
    using assms by (metis id_take_nth_drop)
  moreover from this have "ts[i := k' @ k] = take i ts @ (k' @ k) # drop (Suc i) ts"
    using assms(1) by (simp add: upd_conv_take_nth_drop)
  ultimately have "pend P ts = pend P (take i ts) + length (filter P (a # k)) + pend P (drop (Suc i) ts)"
    and "pend P (ts[i := k' @ k]) = pend P (take i ts) + length (filter P (k' @ k)) + pend P (drop (Suc i) ts)"
    by (metis pend_simps(2,3) add.assoc)+
  then show ?thesis by simp
qed

lemma pend_head:
  assumes "i < length ts" and "ts ! i = a # k" and "P a"
  shows "0 < pend P ts"
  using pend_run [OF assms(1,2), of P "[]"] assms(3) by simp

lemma pend_ge_mem: "t \<in> set ts \<Longrightarrow> length (filter P t) \<le> pend P ts"
  by (induction ts) auto

lemma upd_entry_simps [simp]:
  "w_conns (upd_entry e f m) = w_conns m" "w_serial (upd_entry e f m) = w_serial m"
  "w_active (upd_entry e f m) = w_active m" "w_dropped (upd_entry e f m) = w_dropped m"
  "w_heap (upd_entry e f m) = (w_heap m)(e := map_option f (w_heap m e))"
  by (simp_all add: upd_entry_def)

lemma do_enqueue_frame [simp]:
  "w_conns (fst (do_enqueue e d b p m)) = w_conns m" "w_serial (fst (do_enqueue e d b p m)) = w_serial m"
  "w_active (fst (do_enqueue e d b p m)) = w_active m"
  by (auto simp: do_enqueue_def Let_def split: option.splits prod.splits)

lemma do_enqueue_heap:
  "w_heap (fst (do_enqueue e d b p m)) = (w_heap m)(e := map_option (\<lambda>en. fst (e_enqueue p d en)) (w_heap m e))"
  by (auto simp: do_enqueue_def Let_def fun_eq_iff split: option.splits prod.splits)

lemma e_enqueue_frame [simp]:
  "e_rules (fst (e_enqueue p d en)) = e_rules en" "e_closed (fst (e_enqueue p d en)) = e_closed en"
  "e_done (fst (e_enqueue p d en)) = e_done en"
  by (auto simp: e_enqueue_def)

lemma e_stop_simps [simp]:
  "e_rules (e_stop en) = e_rules en" "e_outbox (e_stop en) = e_outbox en" "e_closed (e_stop en)"
  "e_done (e_stop en) = e_done en"
  by (auto simp: e_stop_def)

lemma newWsEntry_simps [simp]:
  "e_rules (newWsEntry ids) = ids" "e_outbox (newWsEntry ids) = []" "\<not> e_closed (newWsEntry ids)"
  "\<not> e_done (newWsEntry ids)"
  by (auto simp: newWsEntry_def)

lemma newWSManager_simps [simp]:
  "w_conns newWSManager = Map.empty" "w_heap newWSManager = Map.empty" "w_serial newWSManager = 0"
  "w_active newWSManager = 0"
  by (simp_all add: newWSManager_def)

text \<open>An invariant of the system holds initially and is kept by a caller's new goroutine, by
  the shutdown and by every outcome of every action.\<close>

lemma ws_reach_inv [consumes 1, case_names init call shutdown run]:
  assumes "ws_reach (m, ts, sd)"
    and "I newWSManager [] False"
    and "\<And>a m ts sd. I m ts sd \<Longrightarrow> api_call a \<Longrightarrow> I m (ts @ [[a]]) sd"
    and "\<And>ord m ts. I m ts False \<Longrightarrow> I m (ts @ [[DoCloseAll ord]]) True"
    and "\<And>a k i m ts sd m' k' new. I m ts sd \<Longrightarrow> i < length ts \<Longrightarrow> ts ! i = a # k \<Longrightarrow>
           (m', k', new) \<in> set (ws_exec a m) \<Longrightarrow> I m' (ts[i := k' @ k] @ new) sd"
  shows "I m ts sd"
proof -
  have "case s of (m, ts, sd) \<Rightarrow> I m ts sd" if "ws_reach s" for s
    using that
  proof induction
    case (ws_next s s')
    obtain m ts sd where s: "s = (m, ts, sd)" by (cases s) auto
    with ws_next have I: "I m ts sd" and st: "ws_step (m, ts, sd) s'" by auto
    from st show ?case
      by (cases rule: ws_stepE) (use I assms(3-5) in auto)
  qed (use assms(2) in simp)
  from this [OF assms(1)] show ?thesis by simp
qed

section \<open>Outboxes\<close>

definition outboxes_bounded :: "ws_mgr \<Rightarrow> bool" where
  "outboxes_bounded m \<longleftrightarrow> (\<forall>e en. w_heap m e = Some en \<longrightarrow> length (e_outbox en) \<le> outboxSize)"

lemma e_enqueue_bound: "length (e_outbox en) \<le> outboxSize \<Longrightarrow> length (e_outbox (fst (e_enqueue p d en))) \<le> outboxSize"
  by (simp add: e_enqueue_def)

lemma le_minus_1: "(k :: nat) \<le> n \<Longrightarrow> k - Suc 0 \<le> n"
  by simp

lemma ws_exec_outboxes:
  assumes "outboxes_bounded m" and "(m', k', new) \<in> set (ws_exec a m)"
  shows "outboxes_bounded m'"
  using assms
  by (cases a)
    (auto simp: outboxes_bounded_def ws_register_def do_enqueue_heap e_enqueue_bound Let_def le_minus_1 split: option.splits list.splits if_splits)

section \<open>Registered connections\<close>

definition conns_ok :: "ws_mgr \<Rightarrow> bool" where
  "conns_ok m \<longleftrightarrow> finite (dom (w_conns m)) \<and>
     (\<forall>e en. w_heap m e = Some en \<longrightarrow> serial_no e < w_serial m) \<and>
     (\<forall>c e. w_conns m c = Some e \<longrightarrow> of_conn e = c \<and> w_heap m e \<noteq> None)"

lemma ws_exec_conns_ok:
  assumes "conns_ok m" and "(m', k', new) \<in> set (ws_exec a m)"
  shows "conns_ok m'"
  using assms
  by (cases a)
    (auto simp: conns_ok_def ws_register_def do_enqueue_heap Let_def less_Suc_eq
       split: option.splits list.splits if_splits)


lemma reach_conns_ok: "ws_reach (m, ts, sd) \<Longrightarrow> conns_ok m"
proof (induction rule: ws_reach_inv)
  case init
  then show ?case by (simp add: conns_ok_def)
next
  case (run a k i m ts sd m' k' new)
  then show ?case by (elim ws_exec_conns_ok)
qed simp_all

lemma reach_outboxes: "ws_reach (m, ts, sd) \<Longrightarrow> outboxes_bounded m"
proof (induction rule: ws_reach_inv)
  case init
  then show ?case by (simp add: outboxes_bounded_def)
next
  case (run a k i m ts sd m' k' new)
  then show ?case by (elim ws_exec_outboxes)
qed simp_all

lemma conns_ok_fresh: "conns_ok m \<Longrightarrow> w_heap m (Eid c (w_serial m)) = None"
  by (cases "w_heap m (Eid c (w_serial m))") (auto simp: conns_ok_def)

section \<open>The gauge of active connections\<close>

fun is_started :: "act \<Rightarrow> bool" where
  "is_started (DoStarted c e) \<longleftrightarrow> True"
| "is_started _ \<longleftrightarrow> False"

fun is_counted_stop :: "act \<Rightarrow> bool" where
  "is_counted_stop (DoStop e dec) \<longleftrightarrow> dec"
| "is_counted_stop _ \<longleftrightarrow> False"

definition gauge_ok :: "ws_mgr \<Rightarrow> act list list \<Rightarrow> bool" where
  "gauge_ok m ts \<longleftrightarrow>
     w_active m + int (pend is_started ts) = int (connectionCount m) + int (pend is_counted_stop ts)"

lemma filter_concat_none: "(\<And>x. x \<in> set xs \<Longrightarrow> filter P x = []) \<Longrightarrow> filter P (concat xs) = []"
  by (induction xs) auto

lemma filter_not_started_concat:
  "filter is_started (concat (map (\<lambda>c. [DoStop (f c) False, DoAwait c (f c), DoDisconnect c, DoCloseConn c]) cs)) = []"
  "filter is_counted_stop (concat (map (\<lambda>c. [DoStop (f c) False, DoAwait c (f c), DoDisconnect c, DoCloseConn c]) cs)) = []"
  by (induction cs) auto

lemma filter_enqueue_map:
  "(\<And>e. \<not> P (DoEnqueue e d b)) \<Longrightarrow> filter P (map (\<lambda>e. DoEnqueue e d b) es) = []"
  by (induction es) auto

lemma dom_upd_card:
  assumes "finite (dom f)" and "f c = None"
  shows "card (dom (f(c \<mapsto> e))) = Suc (card (dom f))"
  using assms by (simp add: card_insert_if domIff)

lemma dom_del_card:
  assumes "finite (dom f)" and "f c = Some e"
  shows "Suc (card (dom (f(c := None)))) = card (dom f)"
proof -
  have "c \<in> dom f" using assms(2) by blast
  from card_Suc_Diff1 [OF assms(1) this] show ?thesis by simp
qed

lemma ws_exec_gauge:
  assumes ok: "conns_ok m" and st: "(m', k', new) \<in> set (ws_exec a m)"
  shows "w_active m' - w_active m =
     int (connectionCount m') - int (connectionCount m)
     + int (length (filter is_counted_stop k') + pend is_counted_stop new) - (if is_counted_stop a then 1 else 0)
     - int (length (filter is_started k') + pend is_started new) + (if is_started a then 1 else 0)"
proof -
  have fin: "finite (dom (w_conns m))" using ok by (simp add: conns_ok_def)
  show ?thesis
  proof (cases a)
    case (DoConnect c ids)
    with st dom_upd_card [OF fin, of c] show ?thesis
      by (auto simp: ws_register_def connectionCount_def Let_def simp del: dom_fun_upd split: option.splits)
  next
    case (DoDisconnect c)
    with st dom_del_card [OF fin, of c] show ?thesis
      by (cases "w_conns m c") (auto simp: connectionCount_def fun_upd_idem simp del: dom_fun_upd)
  qed (use st in \<open>auto simp: connectionCount_def filter_not_started_concat filter_enqueue_map Let_def
         split: option.splits list.splits if_splits\<close>)
qed

lemma gauge_ok_run:
  assumes "gauge_ok m ts" and "conns_ok m" and "i < length ts" and "ts ! i = a # k"
    and "(m', k', new) \<in> set (ws_exec a m)"
  shows "gauge_ok m' (ts[i := k' @ k] @ new)"
  using assms(1) ws_exec_gauge [OF assms(2,5)]
    pend_run [OF assms(3,4), of is_started k'] pend_run [OF assms(3,4), of is_counted_stop k']
  by (auto simp: gauge_ok_def split: if_splits)

lemma reach_gauge: "ws_reach (m, ts, sd) \<Longrightarrow> conns_ok m \<and> gauge_ok m ts"
proof (induction rule: ws_reach_inv)
  case (call a m ts sd)
  then show ?case by (cases a) (auto simp: gauge_ok_def)
next
  case (run a k i m ts sd m' k' new)
  then show ?case using gauge_ok_run [of m ts i a k m' k' new] ws_exec_conns_ok [of m m' k' new a] by simp
qed (auto simp: gauge_ok_def connectionCount_def conns_ok_def)

section \<open>Life cycle of the writers\<close>

text \<open>An entry is alive from its creation until its writer closes \<open>done\<close>; exactly one pending
  action stands for that writer: its start, or its final close.\<close>

fun life :: "eid \<Rightarrow> act \<Rightarrow> bool" where
  "life e (DoDone e') \<longleftrightarrow> e' = e"
| "life e (DoStarted c e') \<longleftrightarrow> e' = e"
| "life e _ \<longleftrightarrow> False"

definition alive :: "eid \<Rightarrow> ws_mgr \<Rightarrow> bool" where
  "alive e m \<longleftrightarrow> (case w_heap m e of None \<Rightarrow> False | Some en \<Rightarrow> \<not> e_done en)"

definition life_ok :: "ws_mgr \<Rightarrow> act list list \<Rightarrow> bool" where
  "life_ok m ts \<longleftrightarrow> (\<forall>e. pend (life e) ts = (if alive e m then 1 else 0))"

lemma filter_life_closeAll [simp]:
  "filter (life e) (concat (map (\<lambda>c. [DoStop (f c) False, DoAwait c (f c), DoDisconnect c, DoCloseConn c]) cs)) = []"
  by (induction cs) auto

lemma ws_exec_life:
  assumes ok: "conns_ok m" and st: "(m', k', new) \<in> set (ws_exec a m)" and live: "life e a \<Longrightarrow> alive e m"
  shows "(if alive e m' then 1 else 0) + (if life e a then 1 else 0) =
     (if alive e m then 1 else 0) + length (filter (life e) k') + pend (life e) new"
proof (cases a)
  case (DoConnect c ids)
  show ?thesis
  proof (cases "w_conns m c")
    case None
    with st DoConnect conns_ok_fresh [OF ok, of c] show ?thesis
      by (auto simp: ws_register_def alive_def Let_def)
  next
    case (Some e')
    with st DoConnect show ?thesis by (auto simp: ws_register_def alive_def split: option.splits)
  qed
next
  case (DoEnqueue e' d b)
  with st show ?thesis by (cases "e = e'") (auto simp: alive_def do_enqueue_heap split: option.splits)
next
  case (DoDone e')
  with st live show ?thesis by (cases "e = e'") (auto simp: alive_def split: option.splits)
next
  case (DoStop e' dec)
  with st show ?thesis by (cases "e = e'") (auto simp: alive_def Let_def split: option.splits)
next
  case (DoPump c e')
  with st show ?thesis by (cases "e = e'") (auto simp: alive_def split: option.splits list.splits if_splits)
qed (use st in \<open>auto simp: alive_def filter_enqueue_map split: option.splits if_splits\<close>)

lemma life_ok_head:
  "life_ok m ts \<Longrightarrow> i < length ts \<Longrightarrow> ts ! i = a # k \<Longrightarrow> life e a \<Longrightarrow> alive e m"
  using pend_head [of i ts a k "life e"] by (auto simp: life_ok_def split: if_splits)

lemma life_ok_run:
  assumes "life_ok m ts" and "conns_ok m" and "i < length ts" and "ts ! i = a # k"
    and "(m', k', new) \<in> set (ws_exec a m)"
  shows "life_ok m' (ts[i := k' @ k] @ new)"
proof -
  have "pend (life e) (ts[i := k' @ k] @ new) = (if alive e m' then 1 else 0)" for e
    using assms(1) ws_exec_life [OF assms(2,5) life_ok_head [OF assms(1,3,4)], of e]
      pend_run [OF assms(3,4), of "life e" k']
    by (simp add: life_ok_def)
  then show ?thesis by (simp add: life_ok_def)
qed

lemma reach_life: "ws_reach (m, ts, sd) \<Longrightarrow> conns_ok m \<and> life_ok m ts"
proof (induction rule: ws_reach_inv)
  case (call a m ts sd)
  then show ?case by (cases a) (auto simp: life_ok_def)
next
  case (run a k i m ts sd m' k' new)
  then show ?case using life_ok_run [of m ts i a k m' k' new] ws_exec_conns_ok [of m m' k' new a] by simp
qed (auto simp: life_ok_def alive_def conns_ok_def)

section \<open>Removed entries are stopped\<close>

fun stops :: "eid \<Rightarrow> act \<Rightarrow> bool" where
  "stops e (DoStop e' dec) \<longleftrightarrow> e' = e"
| "stops e _ \<longleftrightarrow> False"

definition stop_ok :: "ws_mgr \<Rightarrow> act list list \<Rightarrow> bool" where
  "stop_ok m ts \<longleftrightarrow> (\<forall>e en. w_heap m e = Some en \<longrightarrow>
     w_conns m (of_conn e) = Some e \<or> e_closed en \<or> 0 < pend (stops e) ts)"

lemma stop_okD:
  "stop_ok m ts \<Longrightarrow> w_heap m e = Some en \<Longrightarrow>
     w_conns m (of_conn e) = Some e \<or> e_closed en \<or> 0 < pend (stops e) ts"
  by (simp add: stop_ok_def)

lemma ws_exec_stop:
  assumes ok: "conns_ok m" and st: "(m', k', new) \<in> set (ws_exec a m)" and h: "w_heap m' e = Some en'"
    and pre: "\<And>en. w_heap m e = Some en \<Longrightarrow> w_conns m (of_conn e) = Some e \<or> e_closed en \<or> 0 < n"
    and n: "stops e a \<Longrightarrow> 0 < n"
  shows "w_conns m' (of_conn e) = Some e \<or> e_closed en' \<or>
     0 < n + length (filter (stops e) k') - (if stops e a then 1 else 0)"
proof (cases a)
  case (DoConnect c ids)
  with st h pre show ?thesis
    by (cases "w_conns m c") (auto simp: ws_register_def Let_def split: if_splits)
next
  case (DoDisconnect c)
  with st h pre show ?thesis
    by (cases "w_conns m c") auto
next
  case (DoEnqueue e' d b)
  with st h pre show ?thesis by (auto simp: do_enqueue_heap split: if_splits)
next
  case (DoStop e' dec)
  with st h pre show ?thesis by (auto simp: Let_def split: if_splits)
next
  case (DoDone e')
  with st h pre show ?thesis by (auto split: if_splits)
qed (use st h pre in \<open>auto split: option.splits list.splits if_splits\<close>)

lemma stop_ok_run:
  assumes "stop_ok m ts" and "conns_ok m" and "i < length ts" and "ts ! i = a # k"
    and st: "(m', k', new) \<in> set (ws_exec a m)"
  shows "stop_ok m' (ts[i := k' @ k] @ new)"
  unfolding stop_ok_def
proof (intro allI impI)
  fix e en' assume h: "w_heap m' e = Some en'"
  have pre: "w_conns m (of_conn e) = Some e \<or> e_closed en \<or> 0 < pend (stops e) ts" if "w_heap m e = Some en" for en
    using assms(1) that by (auto simp: stop_ok_def)
  show "w_conns m' (of_conn e) = Some e \<or> e_closed en' \<or> 0 < pend (stops e) (ts[i := k' @ k] @ new)"
    using ws_exec_stop [OF assms(2) st h pre pend_head [OF assms(3,4)]]
      pend_run [OF assms(3,4), of "stops e" k'] by auto
qed

lemma reach_stop: "ws_reach (m, ts, sd) \<Longrightarrow> conns_ok m \<and> stop_ok m ts"
proof (induction rule: ws_reach_inv)
  case (run a k i m ts sd m' k' new)
  then show ?case using stop_ok_run [of m ts i a k m' k' new] ws_exec_conns_ok [of m m' k' new a] by simp
qed (auto simp: stop_ok_def conns_ok_def)

section \<open>The shape of goroutines\<close>

text \<open>The actions only a writer goroutine performs, and those only \<open>CloseAll\<close> performs.\<close>

fun writer_act :: "act \<Rightarrow> bool" where
  "writer_act (DoPump c e) \<longleftrightarrow> True"
| "writer_act (DoSend c e d) \<longleftrightarrow> True"
| "writer_act (DoDone e) \<longleftrightarrow> True"
| "writer_act _ \<longleftrightarrow> False"

fun closing_act :: "act \<Rightarrow> bool" where
  "closing_act (DoCloseAll ord) \<longleftrightarrow> True"
| "closing_act (DoAwait c e) \<longleftrightarrow> True"
| "closing_act (DoSendClose c) \<longleftrightarrow> True"
| "closing_act _ \<longleftrightarrow> False"

text \<open>The connection an action names is the one its entry was created for.\<close>

fun act_ok :: "act \<Rightarrow> bool" where
  "act_ok (DoStarted c e) \<longleftrightarrow> of_conn e = c"
| "act_ok (DoAwait c e) \<longleftrightarrow> of_conn e = c"
| "act_ok _ \<longleftrightarrow> True"

inductive pump_shape :: "act list \<Rightarrow> bool" where
  ps_select: "of_conn e = c \<Longrightarrow> pump_shape [DoPump c e, DoDone e]"
| ps_send: "of_conn e = c \<Longrightarrow> pump_shape [DoSend c e d, DoDone e]"
| ps_drop: "pump_shape [DoDisconnect c, DoCloseConn c, DoDone e]"
| ps_stop: "pump_shape [DoStop e' dec, DoCloseConn c, DoDone e]"
| ps_close: "pump_shape [DoCloseConn c, DoDone e]"
| ps_done: "pump_shape [DoDone e]"

inductive_cases pump_shapeE: "pump_shape t"
inductive_simps pump_shape_send: "pump_shape (DoSend c e d # k)"
inductive_simps pump_shape_sendClose: "pump_shape (DoSendClose c # k)"

definition done_on :: "conn \<Rightarrow> ws_mgr \<Rightarrow> bool" where
  "done_on c m \<longleftrightarrow> (\<exists>e en. of_conn e = c \<and> w_heap m e = Some en \<and> e_done en)"

definition no_send :: "act list \<Rightarrow> bool" where
  "no_send k \<longleftrightarrow> (\<forall>a \<in> set k. (\<forall>c. a \<noteq> DoSendClose c) \<and> \<not> writer_act a \<and> act_ok a)"

definition api_shape :: "ws_mgr \<Rightarrow> act list \<Rightarrow> bool" where
  "api_shape m t \<longleftrightarrow>
     (case t of [] \<Rightarrow> True
      | a # k \<Rightarrow> no_send k \<and> \<not> writer_act a \<and> act_ok a \<and> (\<forall>c. a = DoSendClose c \<longrightarrow> done_on c m))"

definition shape :: "ws_mgr \<Rightarrow> act list \<Rightarrow> bool" where
  "shape m t \<longleftrightarrow> pump_shape t \<or> api_shape m t"

lemma done_onI: "w_heap m e = Some en \<Longrightarrow> e_done en \<Longrightarrow> done_on (of_conn e) m"
  by (auto simp: done_on_def)

lemma done_on_mono:
  assumes "conns_ok m" and "(m', k', new) \<in> set (ws_exec a m)" and "done_on c m"
  shows "done_on c m'"
proof -
  obtain e en where e: "of_conn e = c" "w_heap m e = Some en" "e_done en"
    using assms(3) by (auto simp: done_on_def)
  have "\<exists>en'. w_heap m' e = Some en' \<and> e_done en'"
    using assms(2) e conns_ok_fresh [OF assms(1)]
    by (cases a) (auto simp: ws_register_def do_enqueue_heap Let_def
        split: option.splits list.splits if_splits)
  with e(1) show ?thesis by (auto simp: done_on_def)
qed

lemma no_send_append [simp]: "no_send (k @ k') \<longleftrightarrow> no_send k \<and> no_send k'"
  by (auto simp: no_send_def)

lemma no_send_enqueues [simp]: "no_send (map (\<lambda>e. DoEnqueue e d b) es)"
  by (auto simp: no_send_def)

lemma no_send_Nil [simp]: "no_send []"
  by (simp add: no_send_def)

lemma no_send_closeAll:
  "(\<And>c. c \<in> set cs \<Longrightarrow> of_conn (f c) = c) \<Longrightarrow>
   no_send (concat (map (\<lambda>c. [DoStop (f c) False, DoAwait c (f c), DoDisconnect c, DoCloseConn c]) cs))"
  by (auto simp: no_send_def)

lemma api_shape_no_send: "no_send t \<Longrightarrow> api_shape m t"
  by (cases t) (auto simp: api_shape_def no_send_def)

lemma ws_exec_pump_shape:
  assumes "pump_shape (a # k)" and "(m', k', new) \<in> set (ws_exec a m)"
  shows "(k' @ k = [] \<or> pump_shape (k' @ k)) \<and> new = []"
  using assms
  by (cases rule: pump_shapeE)
    (auto intro!: pump_shape.intros simp: Let_def split: option.splits list.splits if_splits)

lemma ws_exec_api_shape:
  assumes ok: "conns_ok m" and sh: "api_shape m (a # k)" and st: "(m', k', new) \<in> set (ws_exec a m)"
  shows "api_shape m' (k' @ k) \<and> (\<forall>t \<in> set new. pump_shape t)"
proof -
  have k: "no_send k" "\<not> writer_act a" "act_ok a" using sh by (auto simp: api_shape_def)
  show ?thesis
  proof (cases a)
    case (DoAwait c e)
    with st k show ?thesis
      by (auto simp: api_shape_def no_send_def intro: done_onI [OF sym]
          split: option.splits if_splits list.splits)
  next
    case (DoCloseAll ord)
    have "of_conn (the (w_conns m c)) = c" if "c \<in> set (range_keys ord (w_conns m))" for c
      using ok that by (auto simp: conns_ok_def)
    from no_send_closeAll [OF this] st k DoCloseAll show ?thesis
      by (auto intro: api_shape_no_send)
  next
    case (DoStarted c e)
    with st k show ?thesis by (auto intro: api_shape_no_send pump_shape.intros)
  next
    case (DoBroadcast ord rid row)
    with st k show ?thesis by (auto intro: api_shape_no_send)
  qed (use st k in \<open>auto intro!: api_shape_no_send simp: no_send_def ws_register_def Let_def
         split: option.splits if_splits\<close>)
qed

lemma shape_mono:
  "conns_ok m \<Longrightarrow> (m', k', new) \<in> set (ws_exec a m) \<Longrightarrow> shape m t \<Longrightarrow> shape m' t"
  using done_on_mono by (cases t) (auto simp: shape_def api_shape_def)

lemma api_shape_single: "api_call a \<Longrightarrow> api_shape m [a]"
  by (cases a) (auto simp: api_shape_def no_send_def)

lemma reach_shape: "ws_reach (m, ts, sd) \<Longrightarrow> conns_ok m \<and> (\<forall>t \<in> set ts. shape m t)"
proof (induction rule: ws_reach_inv)
  case (call a m ts sd)
  then show ?case by (auto simp: shape_def api_shape_single)
next
  case (shutdown ord m ts)
  then show ?case by (auto simp: shape_def api_shape_def no_send_def)
next
  case (run a k i m ts sd m' k' new)
  have hd: "shape m (a # k)" using run by (metis nth_mem)
  have "shape m' (k' @ k) \<and> (\<forall>t \<in> set new. shape m' t)"
    using hd ws_exec_pump_shape [of a k m' k' new m] ws_exec_api_shape [of m a k m' k' new] run
    by (auto simp: shape_def api_shape_def)
  moreover have "shape m' t" if "t \<in> set ts" for t
    using shape_mono run that by blast
  ultimately show ?case
    using ws_exec_conns_ok run(1,4) set_update_subset_insert [of ts i "k' @ k"] by fastforce
qed (simp add: conns_ok_def)

section \<open>One closer\<close>

definition has_closing :: "act list \<Rightarrow> bool" where
  "has_closing t \<longleftrightarrow> list_ex closing_act t"

definition closers :: "act list list \<Rightarrow> nat" where
  "closers ts = (\<Sum>t\<leftarrow>ts. if has_closing t then 1 else 0)"

lemma closers_simps [simp]:
  "closers [] = 0" "closers (t # ts) = (if has_closing t then 1 else 0) + closers ts"
  "closers (ts @ us) = closers ts + closers us"
  by (simp_all add: closers_def)

lemma closers_update:
  "i < length ts \<Longrightarrow> (has_closing t \<Longrightarrow> has_closing (ts ! i)) \<Longrightarrow> closers (ts[i := t]) \<le> closers ts"
proof (induction ts arbitrary: i)
  case (Cons u us)
  then show ?case by (cases i) auto
qed simp

lemma closing_closeAll [simp]:
  "list_ex closing_act (map (\<lambda>e. DoEnqueue e d b) es) \<longleftrightarrow> False"
  by (induction es) auto

lemma ws_exec_closing:
  assumes "(m', k', new) \<in> set (ws_exec a m)"
  shows "(list_ex closing_act k' \<longrightarrow> closing_act a) \<and> closers new = 0"
  using assms
  by (cases a) (auto simp: ws_register_def has_closing_def Let_def split: option.splits list.splits if_splits)

lemma reach_closers: "ws_reach (m, ts, sd) \<Longrightarrow> closers ts \<le> (if sd then 1 else 0)"
proof (induction rule: ws_reach_inv)
  case (call a m ts sd)
  then show ?case by (cases a) (auto simp: has_closing_def)
next
  case (run a k i m ts sd m' k' new)
  have "closers (ts[i := k' @ k]) \<le> closers ts"
    using run ws_exec_closing [OF run(4)] by (intro closers_update) (auto simp: has_closing_def)
  with run ws_exec_closing [OF run(4)] show ?case by simp
qed (auto simp: has_closing_def)

lemma sum_two:
  fixes f :: "'a \<Rightarrow> nat"
  assumes "i < j" and "j < length ts"
  shows "f (ts ! i) + f (ts ! j) \<le> (\<Sum>t\<leftarrow>ts. f t)"
  using assms
proof (induction ts arbitrary: i j)
  case (Cons t ts)
  show ?case
  proof (cases i)
    case 0
    with Cons.prems show ?thesis
      by (cases j) (auto intro: member_le_sum_list)
  next
    case (Suc i')
    with Cons.IH [of i' "j - 1"] Cons.prems show ?thesis by (cases j) auto
  qed
qed simp

lemma filter_le_1:
  assumes "\<And>i j. i < j \<Longrightarrow> j < length xs \<Longrightarrow> P (xs ! i) \<Longrightarrow> P (xs ! j) \<Longrightarrow> False"
  shows "length (filter P xs) \<le> 1"
  using assms
proof (induction xs)
  case (Cons x xs)
  have IH: "length (filter P xs) \<le> 1"
    using Cons.prems [of "Suc i" "Suc j" for i j] by (intro Cons.IH) auto
  have "\<not> P y" if "P x" and y: "y \<in> set xs" for y
  proof -
    obtain j where "j < length xs" "xs ! j = y" using y by (auto simp: in_set_conv_nth)
    with Cons.prems [of 0 "Suc j"] that(1) show ?thesis by auto
  qed
  then have "P x \<Longrightarrow> filter P xs = []" by (simp add: filter_empty_conv)
  with IH show ?case by auto
qed simp

section \<open>Schedules\<close>

text \<open>A schedule names the next goroutine and the outcome of its action; following one is
  following steps of the system.\<close>

datatype sched = SCall act | SShutdown conn_order | SRun nat nat

fun ws_do :: "sched \<Rightarrow> ws_sys \<Rightarrow> ws_sys option" where
  "ws_do (SCall a) (m, ts, sd) = (if api_call a then Some (m, ts @ [[a]], sd) else None)"
| "ws_do (SShutdown ord) (m, ts, sd) = (if sd then None else Some (m, ts @ [[DoCloseAll ord]], True))"
| "ws_do (SRun i j) (m, ts, sd) =
     (if i < length ts
      then (case ts ! i of
              [] \<Rightarrow> None
            | a # k \<Rightarrow>
                (if j < length (ws_exec a m)
                 then (case ws_exec a m ! j of (m', k', new) \<Rightarrow> Some (m', ts[i := k' @ k] @ new, sd))
                 else None))
      else None)"

fun ws_follow :: "sched list \<Rightarrow> ws_sys \<Rightarrow> ws_sys option" where
  "ws_follow [] s = Some s"
| "ws_follow (c # cs) s = (case ws_do c s of None \<Rightarrow> None | Some s' \<Rightarrow> ws_follow cs s')"

lemma ws_do_step: "ws_do c s = Some s' \<Longrightarrow> ws_step s s'"
proof (induction c s rule: ws_do.induct)
  case (3 i j m ts sd)
  then show ?case
    by (auto split: if_splits list.splits prod.splits intro!: ws_run dest: nth_mem)
qed (auto split: if_splits intro: ws_call ws_shutdown)

lemma ws_follow_reach: "ws_follow cs s = Some s' \<Longrightarrow> ws_reach s \<Longrightarrow> ws_reach s'"
  by (induction cs s rule: ws_follow.induct)
    (auto split: option.splits dest!: ws_do_step intro: ws_reach.intros)

lemmas follow_reach = ws_follow_reach [OF _ ws_init]

section \<open>Properties\<close>

text \<open>C35. In every reachable state each connection's outbox holds at most 256 messages,
  and the gauge of active connections differs from the number of registered ones exactly by
  the writers about to be counted in and the disconnections about to be counted out.\<close>

theorem ws_outboxes_and_gauge:
  assumes "ws_reach (m, ts, sd)"
  shows "(case w_heap m e of None \<Rightarrow> True | Some en \<Rightarrow> length (e_outbox en) \<le> 256) \<and>
     w_active m = int (connectionCount m) + int (pend is_counted_stop ts) - int (pend is_started ts)"
proof -
  have "outboxes_bounded m" by (rule reach_outboxes [OF assms])
  then show ?thesis
    using reach_gauge [OF assms]
    by (auto simp: outboxes_bounded_def outboxSize_def gauge_ok_def split: option.splits)
qed

theorem ws_outboxes_and_gauge_witness:
  "\<exists>m ts. ws_follow [SCall (DoConnect 1 [''R'']), SRun 0 0, SRun 0 0] (newWSManager, [], False) = Some (m, ts, False)
     \<and> w_active m = 1 \<and> connectionCount m = 1"
proof -
  obtain m ts where f: "ws_follow [SCall (DoConnect 1 [''R'']), SRun 0 0, SRun 0 0] (newWSManager, [], False)
      = Some (m, ts, False)" and c: "w_conns m = [1 \<mapsto> Eid 1 0]" and t: "ts = [[], [DoPump 1 (Eid 1 0), DoDone (Eid 1 0)]]"
    by (simp add: ws_register_def Let_def)
  from ws_outboxes_and_gauge [OF follow_reach [OF f]] f c t show ?thesis
    by (auto simp: connectionCount_def)
qed

text \<open>C25. As long as a connection is registered at most once in its life, at most one
  goroutine at a time is inside a write on its socket: its writer, or \<open>CloseAll\<close> once that
  writer has closed \<open>done\<close>.\<close>

theorem single_writer_per_connection:
  assumes reach: "ws_reach (m, ts, sd)"
    and once: "\<And>e e'. of_conn e = c \<Longrightarrow> of_conn e' = c \<Longrightarrow> w_heap m e \<noteq> None \<Longrightarrow> w_heap m e' \<noteq> None \<Longrightarrow> e = e'"
  shows "length (filter (writing c) ts) \<le> 1"
proof (rule filter_le_1)
  have life: "life_ok m ts" and shape: "\<And>t. t \<in> set ts \<Longrightarrow> shape m t"
    using reach_life [OF reach] reach_shape [OF reach] by auto
  have kinds: "(\<exists>e d. t = [DoSend c e d, DoDone e] \<and> of_conn e = c) \<or>
      (has_closing t \<and> done_on c m)" if "t \<in> set ts" "writing c t" for t
    using shape [OF that(1)] that(2)
    by (cases "(c, t)" rule: writing.cases)
      (auto simp: shape_def api_shape_def has_closing_def pump_shape_send pump_shape_sendClose)
  have live: "alive e m \<and> w_heap m e \<noteq> None" if "[DoSend c e d, DoDone e] \<in> set ts" for e d
    using pend_ge_mem [OF that, of "life e"] life by (auto simp: life_ok_def alive_def split: if_splits option.splits)
  fix i j assume ij: "i < j" "j < length ts" "writing c (ts ! i)" "writing c (ts ! j)"
  then have mem: "ts ! i \<in> set ts" "ts ! j \<in> set ts" by auto
  have clash: False if s: "[DoSend c e d, DoDone e] \<in> set ts" and cc: "of_conn e = c" and dn: "done_on c m" for e d
  proof -
    obtain e' en' where e': "of_conn e' = c" "w_heap m e' = Some en'" "e_done en'"
      using dn by (auto simp: done_on_def)
    with once [of e e'] live [OF s] cc show False by (auto simp: alive_def)
  qed
  show False
  proof (cases "has_closing (ts ! i) \<and> done_on c m")
    case True
    with kinds [OF mem(2) ij(4)] clash mem(2) have "has_closing (ts ! j)" by force
    with True sum_two [OF ij(1,2), of "\<lambda>t. if has_closing t then 1 else 0"] reach_closers [OF reach]
    show False by (simp add: closers_def split: if_splits)
  next
    case False
    with kinds [OF mem(1) ij(3)] obtain e d where e: "ts ! i = [DoSend c e d, DoDone e]" "of_conn e = c" by blast
    with kinds [OF mem(2) ij(4)] clash mem(1) obtain e' d' where
      e': "ts ! j = [DoSend c e' d', DoDone e']" "of_conn e' = c" by force
    have "e = e'" using once e e' live mem by metis
    with sum_two [OF ij(1,2), of "\<lambda>t. length (filter (life e) t)"] e e' life
    show False by (auto simp: life_ok_def pend_def split: if_splits)
  qed
qed

theorem single_writer_per_connection_witness:
  "\<exists>m ts. ws_follow [SCall (DoConnect 1 []), SRun 0 0, SRun 0 0, SCall (DoWrite 1 GNil), SRun 2 0, SRun 2 0, SRun 1 0]
        (newWSManager, [], False) = Some (m, ts, False)
     \<and> writing 1 (ts ! 1) \<and> length (filter (writing 1) ts) \<le> 1"
proof -
  obtain m ts where f: "ws_follow [SCall (DoConnect 1 []), SRun 0 0, SRun 0 0, SCall (DoWrite 1 GNil), SRun 2 0, SRun 2 0, SRun 1 0]
        (newWSManager, [], False) = Some (m, ts, False)"
    and h: "\<forall>e. w_heap m e \<noteq> None \<longrightarrow> e = Eid 1 0" and t: "writing 1 (ts ! 1)"
    by (simp add: ws_register_def do_enqueue_def e_enqueue_def newWsEntry_def outboxSize_def
        Let_def upd_entry_def nth_append)
  have "length (filter (writing 1) ts) \<le> 1"
  proof (rule single_writer_per_connection [OF follow_reach [OF f]])
    fix e e' assume "w_heap m e \<noteq> None" "w_heap m e' \<noteq> None"
    with h show "e = e'" by metis
  qed
  with f t show ?thesis by blast
qed

text \<open>Without that restriction the guarantee is lost: a subscription that re-registers a
  connection after its writer has failed and unregistered it, while \<open>CloseAll\<close> still holds the
  old entry, leaves the new writer and \<open>CloseAll\<close> writing to the same socket at once.\<close>

theorem reregistration_allows_two_writers:
  "\<exists>m ts sd. ws_reach (m, ts, sd) \<and> length (filter (writing c) ts) = 2"
proof -
  have ord: "range_keys sorted_order [c \<mapsto> e] = [c]" for e :: eid
    by (simp add: sorted_order.rep_eq)
  have "\<exists>m ts. ws_follow
     [SCall (DoConnect c []), SRun 0 0, SRun 0 0,
      SCall (DoWrite c GNil), SRun 2 0, SRun 2 0, SRun 1 0,
      SShutdown sorted_order, SRun 3 0,
      SRun 1 1, SRun 1 0, SRun 1 0,
      SCall (DoConnect c []), SRun 4 0, SRun 4 0,
      SCall (DoWrite c GNil), SRun 6 0, SRun 6 0, SRun 5 0,
      SRun 1 0, SRun 1 0,
      SRun 3 0, SRun 3 0]
     (newWSManager, [], False) = Some (m, ts, True) \<and> length (filter (writing c) ts) = 2"
    by (simp add: ws_register_def do_enqueue_def e_enqueue_def e_stop_def newWsEntry_def outboxSize_def
        Let_def upd_entry_def nth_append ord)
  then show ?thesis using follow_reach by blast
qed

section \<open>Who waits\<close>

text \<open>The sockets of the connections in \<open>S\<close> accept nothing: a write on one does not return (in the
  program until its deadline).\<close>

definition ws_exec_stalled :: "conn set \<Rightarrow> act \<Rightarrow> ws_mgr \<Rightarrow> (ws_mgr \<times> act list \<times> act list list) list" where
  "ws_exec_stalled S a m =
     (case a of
        DoSend c e d \<Rightarrow> if c \<in> S then [] else ws_exec a m
      | DoSendClose c \<Rightarrow> if c \<in> S then [] else ws_exec a m
      | _ \<Rightarrow> ws_exec a m)"

text \<open>What the callers of \<open>Connect\<close>, \<open>Disconnect\<close>, \<open>WriteToConn\<close> and \<open>Broadcast\<close> do, and how many steps an
  action is still good for: \<open>Broadcast\<close> has one more for each registered connection.\<close>

fun caller_act :: "act \<Rightarrow> bool" where
  "caller_act (DoStarted c e) \<longleftrightarrow> True"
| "caller_act (DoStop e dec) \<longleftrightarrow> True"
| "caller_act (DoEnqueue e d counted) \<longleftrightarrow> True"
| "caller_act a \<longleftrightarrow> api_call a"

fun act_steps :: "ws_mgr \<Rightarrow> act \<Rightarrow> nat" where
  "act_steps m (DoConnect c ids) = 2"
| "act_steps m (DoDisconnect c) = 2"
| "act_steps m (DoWrite c d) = 2"
| "act_steps m (DoBroadcast ord rid row) = 1 + connectionCount m"
| "act_steps m _ = 1"

definition steps_left :: "ws_mgr \<Rightarrow> act list \<Rightarrow> nat" where
  "steps_left m t = (\<Sum>a\<leftarrow>t. act_steps m a)"

lemma targets_count: "conns_ok m \<Longrightarrow> length (ws_targets ord rid m) \<le> connectionCount m"
proof -
  assume "conns_ok m"
  then have "length (range_keys ord (w_conns m)) = connectionCount m"
    by (metis conns_ok_def connectionCount_def distinct_card range_keys_distinct range_keys_set)
  then show ?thesis unfolding ws_targets_def by (metis length_filter_le length_map)
qed

lemma steps_left_enqueues: "steps_left m (map (\<lambda>e. DoEnqueue e d b) es) = length es"
  by (induction es) (simp_all add: steps_left_def)

lemma caller_progress:
  assumes "conns_ok m" and "caller_act a" and "(m', k', new) \<in> set (ws_exec a m)"
  shows "steps_left m k' < act_steps m a" and "list_all caller_act k'"
proof -
  have "steps_left m k' < act_steps m a \<and> list_all caller_act k'"
  proof (cases a)
    case (DoBroadcast ord rid row)
    then show ?thesis using assms(3) targets_count [OF assms(1), of ord rid]
      by (auto simp: steps_left_enqueues list_all_iff) (simp add: steps_left_def)
  qed (use assms(2,3) in \<open>auto simp: steps_left_def ws_register_def Let_def split: option.splits\<close>)
  then show "steps_left m k' < act_steps m a" and "list_all caller_act k'" by simp_all
qed

text \<open>C32. No caller waits for a client. Whatever sockets \<open>S\<close> accept nothing and whatever state the
  goroutines have reached, one that cannot go on is a writer with nothing to send, or is itself
  inside a write on a socket of \<open>S\<close> (a writer, or \<open>CloseAll\<close> with its close frame). So a goroutine in
  \<open>Connect\<close>, \<open>Disconnect\<close>, \<open>WriteToConn\<close> or \<open>Broadcast\<close>, the consumer in particular, can always go on,
  and each of its steps brings it nearer to its return: two steps for the first three, one and one
  for each registered connection for \<open>Broadcast\<close>. Outboxes that are full do not hold it up. \<open>CloseAll\<close>
  makes no such promise: it waits for writers (up to a timer) and writes itself.\<close>

theorem callers_never_wait_for_clients:
  assumes reach: "ws_reach (m, ts, sd)" and t: "a # k \<in> set ts"
  shows "(ws_exec_stalled S a m = [] \<longleftrightarrow>
      (\<exists>c e en. a = DoPump c e \<and> w_heap m e = Some en \<and> e_outbox en = [] \<and> \<not> e_closed en) \<or>
      (\<exists>c \<in> S. a = DoSendClose c \<or> (\<exists>e d. a = DoSend c e d))) \<and>
    (list_all caller_act (a # k) \<longrightarrow> ws_exec_stalled S a m \<noteq> [] \<and>
      (\<forall>(m', k', new) \<in> set (ws_exec_stalled S a m). list_all caller_act (k' @ k) \<and>
         steps_left m (k' @ k) < steps_left m (a # k)))"
proof -
  have ok: "conns_ok m" by (rule reach_conns_ok [OF reach])
  have pump: "w_heap m e \<noteq> None" if a: "a = DoPump c e" for c e
  proof -
    have "pump_shape (a # k)"
      using reach_shape [OF reach] t a by (auto simp: shape_def api_shape_def)
    then have "k = [DoDone e]" using a by (auto elim: pump_shape.cases)
    then show ?thesis
      using pend_ge_mem [OF t, of "life e"] reach_life [OF reach] a
      by (auto simp: life_ok_def alive_def split: if_splits option.splits)
  qed
  have wait: "ws_exec_stalled S a m = [] \<longleftrightarrow>
      (\<exists>c e en. a = DoPump c e \<and> w_heap m e = Some en \<and> e_outbox en = [] \<and> \<not> e_closed en) \<or>
      (\<exists>c \<in> S. a = DoSendClose c \<or> (\<exists>e d. a = DoSend c e d))"
  proof (cases a)
    case (DoPump c e)
    then show ?thesis using pump [OF DoPump]
      by (auto simp: ws_exec_stalled_def split: list.splits)
  qed (auto simp: ws_exec_stalled_def split: prod.splits)
  have "ws_exec_stalled S a m \<noteq> [] \<and> (\<forall>(m', k', new) \<in> set (ws_exec_stalled S a m). list_all caller_act (k' @ k) \<and>
         steps_left m (k' @ k) < steps_left m (a # k))" if c: "list_all caller_act (a # k)"
  proof -
    have "\<not> (\<exists>c e en. a = DoPump c e \<and> w_heap m e = Some en \<and> e_outbox en = [] \<and> \<not> e_closed en)"
      "\<not> (\<exists>c \<in> S. a = DoSendClose c \<or> (\<exists>e d. a = DoSend c e d))" "ws_exec_stalled S a m = ws_exec a m"
      using c by (auto simp: ws_exec_stalled_def split: act.split)
    then show ?thesis using wait caller_progress [OF ok, of a] c
      by (auto simp: steps_left_def)
  qed
  with wait show ?thesis by blast
qed

theorem callers_never_wait_for_clients_witness:
  "\<exists>m ts. ws_follow [SCall (DoConnect 1 []), SRun 0 0, SRun 0 0, SCall (DoWrite 1 GNil), SRun 2 0, SRun 2 0, SRun 1 0,
        SCall (DoBroadcast sorted_order ''R'' [])] (newWSManager, [], False) = Some (m, ts, False) \<and>
     ws_exec_stalled {1} (DoSend 1 (Eid 1 0) GNil) m = [] \<and> ws_exec_stalled {1} (DoBroadcast sorted_order ''R'' []) m \<noteq> []"
proof -
  obtain m ts where f: "ws_follow [SCall (DoConnect 1 []), SRun 0 0, SRun 0 0, SCall (DoWrite 1 GNil), SRun 2 0, SRun 2 0, SRun 1 0,
        SCall (DoBroadcast sorted_order ''R'' [])] (newWSManager, [], False) = Some (m, ts, False)"
    and t: "[DoSend 1 (Eid 1 0) GNil, DoDone (Eid 1 0)] \<in> set ts" "[DoBroadcast sorted_order ''R'' []] \<in> set ts"
    by (simp add: ws_register_def do_enqueue_def e_enqueue_def newWsEntry_def outboxSize_def
        Let_def upd_entry_def nth_append)
  note c = callers_never_wait_for_clients [OF follow_reach [OF f], where S = "{1}"]
  from c [OF t(1)] c [OF t(2)] f show ?thesis by auto
qed

text \<open>No writer outlives its connection: once an entry is no longer the registered one of
  its connection and no goroutine still has to stop it, its closed channel is closed, and its
  writer can leave at its select.\<close>

theorem unregistered_writer_can_exit:
  assumes "ws_reach (m, ts, sd)" and "w_heap m e = Some en"
    and "w_conns m (of_conn e) \<noteq> Some e" and "pend (stops e) ts = 0"
  shows "e_closed en \<and> (m, [], []) \<in> set (ws_exec (DoPump (of_conn e) e) m)"
proof -
  have "w_conns m (of_conn e) = Some e \<or> e_closed en \<or> 0 < pend (stops e) ts"
    using stop_okD [OF conjunct2 [OF reach_stop [OF assms(1)]] assms(2)] .
  with assms(2-4) show ?thesis by simp
qed

theorem unregistered_writer_can_exit_witness:
  "\<exists>m ts en. ws_follow [SCall (DoConnect 1 []), SRun 0 0, SCall (DoDisconnect 1), SRun 1 0, SRun 1 0]
      (newWSManager, [], False) = Some (m, ts, False) \<and> w_heap m (Eid 1 0) = Some en \<and> e_closed en"
proof -
  obtain m ts en where f: "ws_follow [SCall (DoConnect 1 []), SRun 0 0, SCall (DoDisconnect 1), SRun 1 0, SRun 1 0]
      (newWSManager, [], False) = Some (m, ts, False)" and h: "w_heap m (Eid 1 0) = Some en"
    and c: "w_conns m (of_conn (Eid 1 0)) \<noteq> Some (Eid 1 0)" and p: "pend (stops (Eid 1 0)) ts = 0"
    by (simp add: ws_register_def Let_def nth_append upd_entry_def e_stop_def)
  from unregistered_writer_can_exit [OF follow_reach [OF f] h c p] f h show ?thesis by blast
qed

section \<open>The outbox as a buffer\<close>

text \<open>Seen alone, an entry that is open is a buffer that refuses what does not fit.\<close>

interpretation outbox: oldest_buffer
  "e_outbox" "\<lambda>d en. fst (e_enqueue False d (en\<lparr>e_closed := False\<rparr>))" "\<lambda>_. outboxSize"
  by unfold_locales (auto simp: e_enqueue_def)

end
