(* ===== verification/WSHandlers_Props.thy ===== *)
theory WSHandlers_Props
  imports WSHandlers WSManager_Props
begin

text \<open>
  What the connection handlers do to the manager, and the consequence of going on reading after a
  read error.
\<close>

section \<open>Shape of a run\<close>

text \<open>A run that is not over has only registered, written and nothing else; a finished one ends
  with its own disconnection, once.\<close>

fun registering :: "conn \<Rightarrow> act \<Rightarrow> bool" where
  "registering c (DoConnect c' ids) \<longleftrightarrow> c' = c"
| "registering c (DoWrite c' d) \<longleftrightarrow> c' = c"
| "registering c _ \<longleftrightarrow> False"

fun_cases registering_cases: "registering c a"

lemma ws_turn_acts: "ws_turn c snap rd full = (acts, running) \<Longrightarrow> list_all (registering c) acts"
  by (auto simp: ws_turn_def split: ws_read.splits option.splits)

lemma ws_loop_shape:
  "ws_loop c snap evs = (acts, running) \<Longrightarrow>
    \<exists>pre. list_all (registering c) pre \<and> acts = pre @ (if running then [] else [DoDisconnect c, DoCloseConn c])"
proof (induction evs arbitrary: acts running)
  case (Cons ev evs)
  obtain rd s full where ev: "ev = (rd, s, full)" by (cases ev)
  obtain a go where t: "ws_turn c (snap s) rd full = (a, go)" by (cases "ws_turn c (snap s) rd full")
  note reg = ws_turn_acts [OF t]
  show ?case
  proof (cases go)
    case True
    obtain later al where m: "ws_loop c snap evs = (later, al)" by (cases "ws_loop c snap evs")
    from Cons.IH [OF m] obtain pre where "list_all (registering c) pre"
      "later = pre @ (if al then [] else [DoDisconnect c, DoCloseConn c])" by blast
    with Cons.prems reg ev t True m show ?thesis by (intro exI [where x = "a @ pre"]) auto
  next
    case False
    with Cons.prems reg ev t show ?thesis by auto
  qed
qed simp

text \<open>Every snapshot goes out after the registration it belongs to, so an update broadcast after the
  snapshot was taken finds the connection registered.\<close>

lemma snapshot_after_registration:
  assumes "subscription doc = Some ids"
  shows "ws_turn c snap (Msg doc) full = ([DoConnect c ids, DoWrite c (frame (snap ids))], \<not> full)"
  using assms by (simp add: ws_turn_def)

text \<open>Whatever a client sends and however its connection ends, a handler touches only its own
  connection: it registers it and writes to it while the loop runs, unregisters and closes it,
  exactly once, when the loop ends, and calls nothing else of the manager.\<close>

theorem handler_owns_its_connection:
  assumes "ws_loop c snap evs = (acts, running)"
  shows "\<exists>pre. list_all (registering c) pre \<and> acts = pre @ (if running then [] else [DoDisconnect c, DoCloseConn c]) \<and>
    (\<forall>a \<in> set acts. api_call a \<or> a = DoCloseConn c)"
proof -
  from ws_loop_shape [OF assms] obtain pre where
    p: "list_all (registering c) pre" "acts = pre @ (if running then [] else [DoDisconnect c, DoCloseConn c])" by blast
  have "api_call a" if "registering c a" for a using that by (elim registering_cases) simp_all
  with p have "\<forall>a \<in> set acts. api_call a \<or> a = DoCloseConn c" by (auto simp: list_all_iff)
  with p show ?thesis by blast
qed

abbreviation subscribe_doc :: gval where
  "subscribe_doc \<equiv> GMap [(''type'', GStr ''subscribe''), (''rule_ids'', GList [GStr ''R''])]"

lemma demo_session:
  "ws_loop 7 (\<lambda>_ _. GNil) [(Msg (Some subscribe_doc), (), False), (Timeout, (), False), (Closed 1000, (), False)] =
    ([DoConnect 7 [''R''], DoWrite 7 GNil, DoWrite 7 (frame heartbeat), DoDisconnect 7, DoCloseConn 7], False)"
  by (simp add: ws_turn_def subscription_def row_val_def map_filter_simps frame_def)

theorem handler_owns_its_connection_witness:
  "\<exists>pre. [DoConnect 7 [''R''], DoWrite 7 GNil, DoWrite 7 (frame heartbeat), DoDisconnect 7, DoCloseConn 7] =
    pre @ [DoDisconnect 7, DoCloseConn 7]"
  using handler_owns_its_connection [OF demo_session] by auto

section \<open>Reading on after an error\<close>

text \<open>How the library treats reads after a timeout (\<open>gorilla/websocket\<close> 1.5.3: the errors of
  \<open>NextReader\<close> are permanent, every later call returns the same one, and after a number of repeated
  calls, a thousand, it panics): \<open>m\<close> timeouts, then the panic.\<close>

definition timeouts_final :: "nat \<Rightarrow> (nat \<Rightarrow> ws_read) \<Rightarrow> bool" where
  "timeouts_final m reads \<longleftrightarrow>
     (\<forall>n. reads n = Timeout \<and> (\<forall>i<n. reads i \<noteq> Timeout) \<longrightarrow>
        (\<forall>j<m. reads (n + j) = Timeout) \<and> reads (n + m) = Panics)"

definition session :: "(nat \<Rightarrow> ws_read) \<Rightarrow> (nat \<Rightarrow> 's) \<Rightarrow> (nat \<Rightarrow> outbox_full) \<Rightarrow> nat \<Rightarrow> (ws_read \<times> 's \<times> outbox_full) list" where
  "session reads st full n = map (\<lambda>i. (reads i, st i, full i)) [0..<n]"

lemma ws_loop_snoc:
  "ws_loop c snap (evs @ [(rd, s, full)]) =
     (case ws_loop c snap evs of
        (acts, False) \<Rightarrow> (acts, False)
      | (acts, True) \<Rightarrow>
          (case ws_turn c (snap s) rd full of
             (a, go) \<Rightarrow> (acts @ a @ (if go then [] else [DoDisconnect c, DoCloseConn c]), go)))"
proof (induction evs)
  case (Cons ev evs)
  obtain rd' s' full' where ev: "ev = (rd', s', full')" by (cases ev)
  obtain a go where t: "ws_turn c (snap s') rd' full' = (a, go)" by (cases "ws_turn c (snap s') rd' full'")
  obtain acts al where "ws_loop c snap evs = (acts, al)" by (cases "ws_loop c snap evs")
  with Cons ev t show ?case by (cases go; cases al) (auto split: prod.splits)
qed (auto split: prod.splits bool.splits)

lemma session_Suc: "session reads st full (Suc n) = session reads st full n @ [(reads n, st n, full n)]"
  by (simp add: session_def)

lemma timeouts_beat:
  assumes "ws_loop c snap (session reads st full n) = (acts, True)" and "\<forall>j<k. reads (n + j) = Timeout"
  shows "ws_loop c snap (session reads st full (n + k)) = (acts @ replicate k (DoWrite c (frame heartbeat)), True)"
  using assms(2)
proof (induction k)
  case 0
  show ?case using assms(1) by simp
next
  case (Suc k)
  then have "ws_turn c (snap (st (n + k))) (reads (n + k)) (full (n + k)) = ([DoWrite c (frame heartbeat)], True)"
    by (simp add: ws_turn_def)
  with Suc show ?case by (simp add: session_Suc ws_loop_snoc replicate_append_same)
qed

text \<open>C21. A connection whose client is quiet for one heartbeat interval is dropped: the handler reads
  on after the timeout, the library repeats the timeout at once and then panics, so the handler
  asks for \<open>m\<close> heartbeats without a pause, hears nothing more from the client (no subscription, no
  close), unregisters the connection and closes it.\<close>

theorem quiet_connection_is_dropped:
  assumes "timeouts_final m reads" and "reads n = Timeout" and "\<forall>i<n. reads i \<noteq> Timeout"
    and "ws_loop c snap (session reads st full n) = (acts, True)"
  shows "ws_loop c snap (session reads st full (n + m + 1)) =
    (acts @ replicate m (DoWrite c (frame heartbeat)) @ [DoDisconnect c, DoCloseConn c], False)"
proof -
  have m: "\<forall>j<m. reads (n + j) = Timeout" "reads (n + m) = Panics"
    using assms(1-3) unfolding timeouts_final_def by blast+
  from timeouts_beat [OF assms(4) m(1)] m(2) show ?thesis
    by (simp add: session_Suc ws_loop_snoc ws_turn_def)
qed

theorem quiet_connection_is_dropped_witness:
  "ws_loop 7 (\<lambda>_ _. GNil) (session (\<lambda>i. if i < 999 then Timeout else Panics) (\<lambda>_. ()) (\<lambda>_. False) (0 + 999 + 1)) =
    ([] @ replicate 999 (DoWrite 7 (frame heartbeat)) @ [DoDisconnect 7, DoCloseConn 7], False)"
proof (rule quiet_connection_is_dropped)
  show "timeouts_final 999 (\<lambda>i. if i < 999 then Timeout else Panics)"
    unfolding timeouts_final_def by (metis gr0I less_add_same_cancel1 not_add_less2 plus_nat.add_0 ws_read.distinct(17) zero_less_numeral)
qed (simp_all add: session_def)

text \<open>A heartbeat for a connection that has not subscribed goes nowhere: nothing is queued, and no
  goroutine would send it.\<close>

lemma heartbeat_needs_subscription:
  "w_conns m c = None \<Longrightarrow> ws_exec (DoWrite c d) m = [(m, [], [])]"
  by simp

end
