(* ===== verification/Consumers.thy ===== *)
theory Consumers
  imports LiveStore_Props AnomalyStore
begin

text \<open>
  The two Kafka consumers (\<open>consumer.go\<close>, \<open>anomaly_consumer.go\<close>) and the delay metric of
  \<open>metrics.go\<close>: what a message becomes before it is stored and broadcast, and the loop that
  connects, subscribes, polls and reconnects. The JSON decoder \<open>jdec\<close> is a parameter (its text
  grammar is library code); Broadcast calls are recorded as the pairs they are made with.
\<close>

section \<open>Messages\<close>

text \<open>
  \<open>json.Unmarshal\<close> into a \<open>map[string]interface{}\<close>: an object gives the map, \<open>null\<close> succeeds
  and leaves the map nil, anything else is an error.
\<close>

datatype unmarshalled = BadJson | NilMap | Decoded row

definition unmarshal_map :: "(string \<Rightarrow> gval option) \<Rightarrow> string \<Rightarrow> unmarshalled" where
  "unmarshal_map jdec value =
     (case jdec value of
        Some (GMap m) \<Rightarrow> Decoded m | Some GNil \<Rightarrow> NilMap | _ \<Rightarrow> BadJson)"

definition parseProducedAt :: "string \<Rightarrow> instant option" where
  "parseProducedAt v = (if v = [] then None else time_parse layout_datetime ist_offset v)"

definition sat64 :: "int \<Rightarrow> duration" where
  \<comment> \<open>the difference of two instants saturates at the ends of \<open>time.Duration\<close>\<close>
  "sat64 n = max (- (2 ^ 63)) (min (2 ^ 63 - 1) n)"

definition observeConsumeDelay :: "instant \<Rightarrow> row \<Rightarrow> duration option" where
  "observeConsumeDelay now row =
     (case parseProducedAt (row_str row ''producedAt'') of
        None \<Rightarrow> None
      | Some t \<Rightarrow> (let delay = sat64 (now - t) in Some (if delay < 0 then 0 else delay)))"

section \<open>Normalisation\<close>

definition parse_nested :: "(string \<Rightarrow> gval option) \<Rightarrow> string \<Rightarrow> row \<Rightarrow> row" where
  "parse_nested jdec k row =
     (case as_str (row_val row k) of
        None \<Rightarrow> row
      | Some s \<Rightarrow> (case jdec s of None \<Rightarrow> row | Some v \<Rightarrow> row_set k v row))"

definition norm_rule_id :: "row \<Rightarrow> row" where
  "norm_rule_id row =
     (case as_str (row_val row ''id'') of
        None \<Rightarrow> row
      | Some i \<Rightarrow> if i \<noteq> [] \<and> \<not> row_has row ''ruleId'' then row_set ''ruleId'' (GStr i) row else row)"

definition norm_group_key :: "row \<Rightarrow> row" where
  "norm_group_key row =
     (if row_has row ''groupKey'' then row
      else (case as_str (row_val row ''entityValue'') of
              None \<Rightarrow> row
            | Some ev \<Rightarrow> if ev \<noteq> [] then row_set ''groupKey'' (GStr ev) row else row))"

definition norm_window_start :: "row \<Rightarrow> row" where
  "norm_window_start row =
     (if row_has row ''windowStart'' then row
      else (let ws = row_val row ''windowStart''
            in if ws \<noteq> GNil then row_set ''windowStart'' ws row else row))"

definition default_field :: "string \<Rightarrow> gval \<Rightarrow> row \<Rightarrow> row" where
  "default_field k v row = (if row_has row k then row else row_set k v row)"

definition normalize_result :: "(string \<Rightarrow> gval option) \<Rightarrow> row \<Rightarrow> row" where
  "normalize_result jdec row =
     (let r1 = parse_nested jdec ''aggResult'' row;
          r2 = parse_nested jdec ''aggregationResults'' r1;
          r3 = row_set ''event_type'' (GStr ''agg'') r2;
          r4 = norm_rule_id r3;
          r5 = norm_group_key r4;
          r6 = norm_window_start r5;
          r7 = default_field ''thresholdBreached'' (GBool False) r6
      in default_field ''isFinal'' (GBool True) r7)"

definition normalize_anomaly :: "row \<Rightarrow> row" where
  "normalize_anomaly evt = norm_rule_id (row_set ''event_type'' (GStr ''anomaly'') evt)"

definition broadcast_rule :: "row \<Rightarrow> string" where
  "broadcast_rule row =
     (let rid = row_str row ''ruleId'';
          rid' = (if rid = [] then row_str row ''id'' else rid)
      in if rid' = [] then ''unknown'' else rid')"

text \<open>
  A consumer's sink: the store it writes, the Broadcast calls it has made, and the delays it
  has observed. Assigning into the nil map of a \<open>null\<close> message panics, which ends the process
  (\<open>None\<close>).
\<close>

record 's sink =
  sk_store :: 's
  sk_sent :: "(string \<times> row) list"
  sk_delays :: "duration list"

definition observe :: "instant \<Rightarrow> row \<Rightarrow> 's sink \<Rightarrow> 's sink" where
  "observe now row k =
     (case observeConsumeDelay now row of
        None \<Rightarrow> k | Some d \<Rightarrow> k\<lparr>sk_delays := sk_delays k @ [d]\<rparr>)"

definition processMessage ::
  "(string \<Rightarrow> gval option) \<Rightarrow> (f64 \<Rightarrow> string) \<Rightarrow> row list range_order \<Rightarrow> instant \<Rightarrow> string
     \<Rightarrow> live_store sink \<Rightarrow> live_store sink option" where
  "processMessage jdec ff ord now value k =
     (case unmarshal_map jdec value of
        BadJson \<Rightarrow> Some k
      | NilMap \<Rightarrow> None
      | Decoded raw \<Rightarrow>
          (let k1 = observe now raw k; row = normalize_result jdec raw
           in Some (k1\<lparr>sk_store := ls_add ff ord row (sk_store k1),
                       sk_sent := sk_sent k1 @ [(broadcast_rule row, row)]\<rparr>)))"

definition processAnomaly ::
  "(string \<Rightarrow> gval option) \<Rightarrow> instant \<Rightarrow> string \<Rightarrow> anomaly_store sink \<Rightarrow> anomaly_store sink option" where
  "processAnomaly jdec now value k =
     (case unmarshal_map jdec value of
        BadJson \<Rightarrow> Some k
      | NilMap \<Rightarrow> None
      | Decoded raw \<Rightarrow>
          (let k1 = observe now raw k; evt = normalize_anomaly raw
           in Some (k1\<lparr>sk_store := an_add evt (sk_store k1),
                       sk_sent := sk_sent k1 @ [(broadcast_rule evt, evt)]\<rparr>)))"

section \<open>The consumer loop\<close>

text \<open>
  The goroutine's loop as a machine over what Kafka and the caller do: the attempt to create
  a client or to subscribe fails, a subscription succeeds, a poll times out, fails, or gives
  a message with its offset and the partition's high watermark, and the context is cancelled.
  A message comes with whatever else its processing reads (the clock, the map orders).
  \<open>cn_open\<close> counts the clients that were created and not closed.
\<close>

datatype 'm kafka_event =
    CreateFailed
  | SubscribeFailed
  | Subscribed
  | PollTimedOut
  | PollFailed
  | Received 'm int "int option"
  | Cancelled

datatype loop_phase = Connecting | Polling | Exited | Crashed

record 's consumer =
  cn_phase :: loop_phase
  cn_backoff :: duration
  cn_open :: nat
  cn_consumed :: nat
  cn_lag :: int
  cn_sink :: 's

definition second :: duration where
  "second = 1000000000"

definition newConsumer :: "'s \<Rightarrow> 's consumer" where
  "newConsumer k = \<lparr>cn_phase = Connecting, cn_backoff = second, cn_open = 0, cn_consumed = 0, cn_lag = 0, cn_sink = k\<rparr>"

definition consumerGroupID :: "string \<Rightarrow> string \<Rightarrow> string \<Rightarrow> string" where
  "consumerGroupID grp podName hostname =
     (let pod = (if podName = [] then hostname else podName) in grp @ ''-'' @ pod)"

definition grow_results :: "duration \<Rightarrow> duration" where
  "grow_results b = (if b < 30 * second then go_div (3 * b) 2 else b)"

definition grow_anomaly :: "duration \<Rightarrow> duration" where
  "grow_anomaly b = (if b < 30 * second then wrap64 (b * 2) else b)"

definition lag_of :: "int \<Rightarrow> int \<Rightarrow> int" where
  "lag_of high off = (let lag = wrap64 (high - off - 1) in if lag < 0 then 0 else lag)"

fun consumer_step ::
  "(duration \<Rightarrow> duration) \<Rightarrow> ('m \<Rightarrow> 's \<Rightarrow> 's option) \<Rightarrow> 'm kafka_event \<Rightarrow> 's consumer \<Rightarrow> 's consumer" where
  "consumer_step grow process ev c =
     (case cn_phase c of
        Connecting \<Rightarrow>
          (case ev of
             Cancelled \<Rightarrow> c\<lparr>cn_phase := Exited\<rparr>
           | CreateFailed \<Rightarrow> c\<lparr>cn_backoff := grow (cn_backoff c)\<rparr>
           | SubscribeFailed \<Rightarrow> c
           | Subscribed \<Rightarrow> c\<lparr>cn_phase := Polling, cn_backoff := second, cn_open := cn_open c + 1\<rparr>
           | _ \<Rightarrow> c)
      | Polling \<Rightarrow>
          (case ev of
             Cancelled \<Rightarrow> c\<lparr>cn_phase := Exited, cn_open := cn_open c - 1\<rparr>
           | PollFailed \<Rightarrow> c\<lparr>cn_phase := Connecting, cn_open := cn_open c - 1\<rparr>
           | Received msg off high \<Rightarrow>
               (let c1 = c\<lparr>cn_consumed := cn_consumed c + 1,
                          cn_lag := (case high of None \<Rightarrow> cn_lag c | Some h \<Rightarrow> lag_of h off)\<rparr>
                in case process msg (cn_sink c1) of
                     None \<Rightarrow> c1\<lparr>cn_phase := Crashed\<rparr>
                   | Some k \<Rightarrow> c1\<lparr>cn_sink := k\<rparr>)
           | _ \<Rightarrow> c)
      | _ \<Rightarrow> c)"

declare consumer_step.simps [simp del]

definition consumer_run ::
  "(duration \<Rightarrow> duration) \<Rightarrow> ('m \<Rightarrow> 's \<Rightarrow> 's option) \<Rightarrow> 'm kafka_event list \<Rightarrow> 's consumer \<Rightarrow> 's consumer" where
  "consumer_run grow process evs c = fold (consumer_step grow process) evs c"

text \<open>
  The argument of \<open>ReadMessage\<close> is a \<open>time.Duration\<close>, so the constant 1000 of both loops is a
  microsecond: without messages a loop that waits out every timeout polls a million times a second
  (its comment says once), each time changing nothing.
\<close>

definition read_timeout :: duration where
  "read_timeout = 1000"

definition idle_polls :: "duration \<Rightarrow> nat" where
  "idle_polls d = nat (go_div d read_timeout)"

lemma timed_out_polls_change_nothing: "consumer_run grow process (replicate n PollTimedOut) c = c"
proof (induction n)
  case (Suc n)
  have "consumer_step grow process PollTimedOut c = c"
    by (simp add: consumer_step.simps split: loop_phase.split)
  with Suc show ?case by (simp add: consumer_run_def)
qed (simp add: consumer_run_def)

lemma idle_consumer_spins:
  "idle_polls second = 1000000 \<and> consumer_run grow process (replicate (idle_polls second) PollTimedOut) c = c"
  by (intro conjI timed_out_polls_change_nothing) (simp add: idle_polls_def read_timeout_def second_def)

section \<open>What the loop promises for any sink\<close>

text \<open>
  A sink whose processing keeps an invariant, and a retry delay with a bound: the loop keeps
  both, never holds more than one client, and holds none once it has returned.
\<close>

locale message_sink =
  fixes process :: "'m \<Rightarrow> 's \<Rightarrow> 's option" and sink_ok :: "'s \<Rightarrow> bool"
    and grow :: "duration \<Rightarrow> duration" and max_backoff :: duration
  assumes process_ok: "sink_ok k \<Longrightarrow> process msg k = Some k' \<Longrightarrow> sink_ok k'"
    and grow_bound: "second \<le> b \<Longrightarrow> b \<le> max_backoff \<Longrightarrow> second \<le> grow b \<and> grow b \<le> max_backoff"
    and start_bound: "second \<le> max_backoff"
begin

definition loop_ok :: "'s consumer \<Rightarrow> bool" where
  "loop_ok c \<longleftrightarrow> sink_ok (cn_sink c) \<and> second \<le> cn_backoff c \<and> cn_backoff c \<le> max_backoff \<and>
     (cn_phase c = Polling \<longrightarrow> cn_open c = 1) \<and> (cn_phase c \<in> {Connecting, Exited} \<longrightarrow> cn_open c = 0)"

lemma loop_ok_new: "sink_ok k \<Longrightarrow> loop_ok (newConsumer k)"
  using start_bound by (simp add: loop_ok_def newConsumer_def)

lemma loop_ok_step: "loop_ok c \<Longrightarrow> loop_ok (consumer_step grow process ev c)"
  using start_bound process_ok [of "cn_sink c"] grow_bound [of "cn_backoff c"]
  by (cases "cn_phase c"; cases ev)
    (auto simp: loop_ok_def consumer_step.simps Let_def split: option.splits)

lemma loop_ok_run: "loop_ok c \<Longrightarrow> loop_ok (consumer_run grow process evs c)"
  unfolding consumer_run_def by (induction evs arbitrary: c) (auto intro: loop_ok_step)

lemma run_from_new:
  fixes evs
  assumes "sink_ok k"
  defines "c \<equiv> consumer_run grow process evs (newConsumer k)"
  shows "sink_ok (cn_sink c)" and "cn_backoff c \<le> max_backoff"
    and "cn_phase c = Exited \<Longrightarrow> cn_open c = 0" and "cn_phase c \<noteq> Crashed \<Longrightarrow> cn_open c \<le> 1"
  using loop_ok_run [OF loop_ok_new [OF assms(1)], of evs]
  by (auto simp: loop_ok_def c_def) (cases "cn_phase (consumer_run grow process evs (newConsumer k))"; auto)

end

section \<open>The two sinks\<close>

definition results_process ::
  "(string \<Rightarrow> gval option) \<Rightarrow> (f64 \<Rightarrow> string) \<Rightarrow> string \<times> instant \<times> row list range_order
     \<Rightarrow> live_store sink \<Rightarrow> live_store sink option" where
  "results_process jdec ff msg k =
     (case msg of (value, now, ord) \<Rightarrow> processMessage jdec ff ord now value k)"

definition anomaly_process ::
  "(string \<Rightarrow> gval option) \<Rightarrow> string \<times> instant \<Rightarrow> anomaly_store sink \<Rightarrow> anomaly_store sink option" where
  "anomaly_process jdec msg k = (case msg of (value, now) \<Rightarrow> processAnomaly jdec now value k)"

definition results_sink_ok :: "(f64 \<Rightarrow> string) \<Rightarrow> int \<Rightarrow> live_store sink \<Rightarrow> bool" where
  "results_sink_ok ff cap k \<longleftrightarrow> ls_inv ff (sk_store k) \<and> ls_max (sk_store k) = cap \<and>
     ls_total (sk_store k) \<le> max 0 cap \<and> list_all (\<lambda>d. 0 \<le> d) (sk_delays k)"

definition anomaly_sink_ok :: "nat \<Rightarrow> anomaly_store sink \<Rightarrow> bool" where
  "anomaly_sink_ok cap k \<longleftrightarrow> an_max (sk_store k) = cap \<and> length (an_events (sk_store k)) \<le> cap \<and>
     list_all (\<lambda>d. 0 \<le> d) (sk_delays k)"

lemma observe_frame [simp]:
  "sk_store (observe now row k) = sk_store k" "sk_sent (observe now row k) = sk_sent k"
  by (auto simp: observe_def split: option.splits)

lemma observe_delays: "list_all (\<lambda>d. 0 \<le> d) (sk_delays k) \<Longrightarrow> list_all (\<lambda>d. 0 \<le> d) (sk_delays (observe now row k))"
  by (auto simp: observe_def observeConsumeDelay_def Let_def split: option.splits)

lemma processMessage_ok:
  assumes "results_sink_ok ff cap k" and "processMessage jdec ff ord now value k = Some k'"
  shows "results_sink_ok ff cap k'"
proof (cases "unmarshal_map jdec value")
  case (Decoded raw)
  let ?row = "normalize_result jdec raw"
  have "ls_inv ff (sk_store k)" "ls_total (sk_store k) \<le> max 0 (ls_max (sk_store k))"
    using assms(1) by (auto simp: results_sink_ok_def)
  then have "ls_total (ls_add ff ord ?row (sk_store k)) \<le> max 0 (ls_max (sk_store k))"
    by (rule ls_add_cap)
  then show ?thesis
    using assms Decoded ls_add_inv_evicted(1) [of ff "sk_store k" ord ?row] ls_add_max [of ff "sk_store k" ord ?row]
    by (auto simp: processMessage_def results_sink_ok_def Let_def observe_delays)
qed (use assms in \<open>auto simp: processMessage_def\<close>)

lemma processAnomaly_ok:
  assumes "anomaly_sink_ok cap k" and "processAnomaly jdec now value k = Some k'"
  shows "anomaly_sink_ok cap k'"
  using assms anomalies.put_bound [of "sk_store k"]
  by (cases "unmarshal_map jdec value")
    (auto simp: processAnomaly_def anomaly_sink_ok_def Let_def observe_delays anomalies.cap_put)

lemma grow_results_bound: "second \<le> b \<Longrightarrow> b \<le> 45 * second \<Longrightarrow> second \<le> grow_results b \<and> grow_results b \<le> 45 * second"
  by (auto simp: grow_results_def second_def)

lemma grow_anomaly_bound: "second \<le> b \<Longrightarrow> b \<le> 60 * second \<Longrightarrow> second \<le> grow_anomaly b \<and> grow_anomaly b \<le> 60 * second"
  by (auto simp: grow_anomaly_def second_def int64_range_def)

interpretation results_consumer: message_sink
  "results_process jdec ff" "results_sink_ok ff cap" grow_results "45 * second" for jdec ff cap
  using processMessage_ok grow_results_bound
  by unfold_locales (auto simp: results_process_def second_def split: prod.splits)

interpretation anomaly_consumer: message_sink
  "anomaly_process jdec" "anomaly_sink_ok cap" grow_anomaly "60 * second" for jdec cap
  using processAnomaly_ok grow_anomaly_bound
  by unfold_locales (auto simp: anomaly_process_def second_def split: prod.splits)

section \<open>What normalisation does\<close>

lemma row_has_parse_nested [simp]: "row_has (parse_nested jdec k r) j \<longleftrightarrow> row_has r j"
  by (auto simp: parse_nested_def row_has_def row_val_def split: option.splits)

lemma row_val_parse_nested: "j \<noteq> k \<Longrightarrow> row_val (parse_nested jdec k r) j = row_val r j"
  by (auto simp: parse_nested_def split: option.splits)

lemma norm_window_start_id [simp]: "norm_window_start r = r"
  by (simp add: norm_window_start_def row_val_not_has Let_def)

lemma row_has_norm_rule_id:
  "row_has (norm_rule_id r) j \<longleftrightarrow> row_has r j \<or> (j = ''ruleId'' \<and> row_str r ''id'' \<noteq> [])"
  by (auto simp: norm_rule_id_def row_str_def split: option.splits)

lemma row_val_norm_rule_id:
  "row_val (norm_rule_id r) j =
     (if j = ''ruleId'' \<and> \<not> row_has r ''ruleId'' \<and> row_str r ''id'' \<noteq> [] then GStr (row_str r ''id'') else row_val r j)"
  by (auto simp: norm_rule_id_def row_str_def split: option.splits)

lemma row_has_norm_group_key:
  "row_has (norm_group_key r) j \<longleftrightarrow> row_has r j \<or> (j = ''groupKey'' \<and> row_str r ''entityValue'' \<noteq> [])"
  by (auto simp: norm_group_key_def row_str_def split: option.splits)

lemma row_val_norm_group_key:
  "row_val (norm_group_key r) j =
     (if j = ''groupKey'' \<and> \<not> row_has r ''groupKey'' \<and> row_str r ''entityValue'' \<noteq> []
      then GStr (row_str r ''entityValue'') else row_val r j)"
  by (auto simp: norm_group_key_def row_str_def split: option.splits)

lemma row_default_field [simp]:
  "row_has (default_field k v r) j \<longleftrightarrow> j = k \<or> row_has r j"
  "row_val (default_field k v r) j = (if j = k \<and> \<not> row_has r k then v else row_val r j)"
  by (auto simp: default_field_def)

lemmas normalize_simps =
  normalize_result_def normalize_anomaly_def Let_def row_has_norm_rule_id row_val_norm_rule_id
  row_has_norm_group_key row_val_norm_group_key row_val_parse_nested

section \<open>Properties\<close>

text \<open>A decoded result reaches the store and the clients with its event type set, a
  breach flag and a finality flag (false and true unless the message says otherwise), its rule
  and group taken from the older field names when the newer ones are absent, and every field
  the normalisation is not about unchanged.\<close>

theorem normalized_result_fields:
  "row_val (normalize_result jdec raw) ''event_type'' = GStr ''agg'' \<and>
   row_val (normalize_result jdec raw) ''thresholdBreached'' =
     (if row_has raw ''thresholdBreached'' then row_val raw ''thresholdBreached'' else GBool False) \<and>
   row_val (normalize_result jdec raw) ''isFinal'' =
     (if row_has raw ''isFinal'' then row_val raw ''isFinal'' else GBool True) \<and>
   row_val (normalize_result jdec raw) ''ruleId'' =
     (if row_has raw ''ruleId'' \<or> row_str raw ''id'' = [] then row_val raw ''ruleId'' else row_val raw ''id'') \<and>
   row_val (normalize_result jdec raw) ''groupKey'' =
     (if row_has raw ''groupKey'' \<or> row_str raw ''entityValue'' = [] then row_val raw ''groupKey''
      else row_val raw ''entityValue'') \<and>
   (if k \<in> {''event_type'', ''thresholdBreached'', ''isFinal'', ''ruleId'', ''groupKey'', ''aggResult'', ''aggregationResults''}
    then True else row_val (normalize_result jdec raw) k = row_val raw k)"
  by (auto simp: normalize_simps row_str_def as_str_Some_iff split: option.splits)

text \<open>A message's row is stored under the rule its broadcast names, so a client that
  subscribes later finds in its snapshot what earlier subscribers were sent, unless the message
  carries a \<open>ruleId\<close> that is empty or not a string together with a non-empty \<open>id\<close>.\<close>

theorem stored_and_broadcast_rule_agree:
  assumes "processMessage jdec ff ord now value k = Some k'"
    and "unmarshal_map jdec value = Decoded raw"
    and "row_has raw ''ruleId'' \<Longrightarrow> row_str raw ''ruleId'' = [] \<Longrightarrow> row_str raw ''id'' \<in> {[], ''unknown''}"
  shows "\<exists>row. row_val row ''event_type'' = GStr ''agg'' \<and>
     sk_sent k' = sk_sent k @ [(row_rule row, row)] \<and> sk_store k' = ls_add ff ord row (sk_store k)"
proof -
  let ?row = "normalize_result jdec raw"
  have vals: "row_str ?row ''ruleId'' =
      (if row_has raw ''ruleId'' \<or> row_str raw ''id'' = [] then row_str raw ''ruleId'' else row_str raw ''id'')"
    "row_str ?row ''id'' = row_str raw ''id''"
    by (auto simp: normalize_simps row_str_def as_str_Some_iff split: option.splits)
  have "broadcast_rule ?row = row_rule ?row"
    using assms(3) by (auto simp: broadcast_rule_def row_rule_def vals Let_def row_str_not_has)
  moreover have "row_val ?row ''event_type'' = GStr ''agg''"
    by (simp add: normalize_simps)
  ultimately show ?thesis
    using assms(1,2) by (auto simp: processMessage_def Let_def)
qed

definition demo_dec :: "string \<Rightarrow> gval option" where
  \<comment> \<open>a decoder that knows three documents\<close>
  "demo_dec s =
     (if s = ''msg'' then Some (GMap [(''id'', GStr ''R''), (''groupKey'', GStr ''g'')])
      else if s = ''msg2'' then Some (GMap [(''id'', GStr ''R''), (''ruleId'', GStr [])])
      else if s = ''null'' then Some GNil else None)"

theorem stored_and_broadcast_rule_agree_witness:
  "\<exists>k' row. processMessage demo_dec (\<lambda>_. []) sorted_order 0 ''msg''
      \<lparr>sk_store = new_live_store 10 1, sk_sent = [], sk_delays = []\<rparr> = Some k' \<and>
     sk_sent k' = [(row_rule row, row)]"
proof -
  let ?k = "\<lparr>sk_store = new_live_store 10 1, sk_sent = [], sk_delays = []\<rparr>"
  have d: "unmarshal_map demo_dec ''msg'' = Decoded [(''id'', GStr ''R''), (''groupKey'', GStr ''g'')]"
    by (simp add: unmarshal_map_def demo_dec_def)
  then obtain k' where k': "processMessage demo_dec (\<lambda>_. []) sorted_order 0 ''msg'' ?k = Some k'"
    by (simp add: processMessage_def Let_def)
  have "\<not> row_has [(''id'', GStr ''R''), (''groupKey'', GStr ''g'')] ''ruleId''"
    by (simp add: row_has_def)
  with stored_and_broadcast_rule_agree [OF k' d] k' show ?thesis by auto
qed

text \<open>In the excluded case the two differ: a message with an empty \<open>ruleId\<close> and an \<open>id\<close>
  is pushed to the subscribers of that \<open>id\<close> but stored under \<open>unknown\<close>, so a snapshot for the
  \<open>id\<close> does not contain it.\<close>

theorem empty_rule_id_splits_store_and_broadcast:
  "\<exists>k' row. processMessage demo_dec ff ord now ''msg2''
      \<lparr>sk_store = new_live_store 10 1, sk_sent = [], sk_delays = []\<rparr> = Some k' \<and>
     sk_sent k' = [(''R'', row)] \<and> row_rule row = ''unknown'' \<and>
     sk_store k' = ls_add ff ord row (new_live_store 10 1)"
proof -
  let ?raw = "[(''id'', GStr ''R''), (''ruleId'', GStr [])]"
  let ?row = "normalize_result demo_dec ?raw"
  have d: "unmarshal_map demo_dec ''msg2'' = Decoded ?raw"
    by (simp add: unmarshal_map_def demo_dec_def)
  have "broadcast_rule ?row = ''R''" "row_rule ?row = ''unknown''"
    by code_simp+
  with d show ?thesis by (auto simp: processMessage_def Let_def)
qed

text \<open>A consumer never dies on a message it cannot decode, but a message that is the JSON
  document \<open>null\<close> decodes to a nil map and kills the process: the consumer crashes exactly on
  the first such message.\<close>

theorem consumer_crashes_exactly_on_null:
  assumes "cn_phase c = Polling"
  shows "cn_phase (consumer_step grow_results (results_process jdec ff) (Received (value, now, ord) off high) c) = Crashed
     \<longleftrightarrow> jdec value = Some GNil"
    (is "?crash \<longleftrightarrow> _")
proof -
  have "?crash \<longleftrightarrow> unmarshal_map jdec value = NilMap"
    using assms
    by (auto simp: consumer_step.simps results_process_def processMessage_def Let_def
        split: unmarshalled.splits option.splits)
  then show ?thesis
    by (auto simp: unmarshal_map_def split: option.splits gval.splits)
qed

theorem consumer_crashes_exactly_on_null_witness:
  "cn_phase (consumer_step grow_results (results_process demo_dec (\<lambda>_. []))
      (Received (''null'', 0, sorted_order) 0 None)
      ((newConsumer \<lparr>sk_store = new_live_store 10 1, sk_sent = [], sk_delays = []\<rparr>)\<lparr>cn_phase := Polling, cn_open := 1\<rparr>))
    = Crashed"
  by (subst consumer_crashes_exactly_on_null) (simp_all add: demo_dec_def)

text \<open>C30. Whatever Kafka does, in any order of failed and successful attempts, messages and the
  cancellation: the results consumer holds at most one client, has closed it when it returns (so that
  it leaves its group cleanly), backs off at most 45 seconds between attempts, and keeps the live
  store consistent and within its cap. A message that panics ends the process, client and all; of
  that state only the store and the back-off are claimed.\<close>

theorem results_consumer_loop_safe:
  assumes "results_sink_ok ff cap k"
  shows "let c = consumer_run grow_results (results_process jdec ff) evs (newConsumer k) in
     results_sink_ok ff cap (cn_sink c) \<and> cn_backoff c \<le> 45 * second \<and>
     (if cn_phase c = Exited then cn_open c = 0 else if cn_phase c = Crashed then True else cn_open c \<le> 1)"
  using results_consumer.run_from_new [OF assms, of jdec evs] by (auto simp: Let_def)

theorem results_consumer_loop_safe_witness:
  "let c = consumer_run grow_results (results_process demo_dec (\<lambda>_. []))
       [CreateFailed, Subscribed, Received (''msg'', 0, sorted_order) 7 (Some 9), Cancelled]
       (newConsumer \<lparr>sk_store = new_live_store 10 1, sk_sent = [], sk_delays = []\<rparr>) in
     results_sink_ok (\<lambda>_. []) 10 (cn_sink c)"
proof -
  have "results_sink_ok (\<lambda>_. []) 10 \<lparr>sk_store = new_live_store 10 1, sk_sent = [], sk_delays = []\<rparr>"
    by (simp add: results_sink_ok_def)
  from results_consumer_loop_safe [OF this] show ?thesis by (auto simp: Let_def)
qed

text \<open>The anomaly consumer's loop promises the same, with at most 60 seconds between
  attempts and a ring buffer that never exceeds its capacity.\<close>

theorem anomaly_consumer_loop_safe:
  assumes "new_anomaly_store cap = Some s"
  shows "let c = consumer_run grow_anomaly (anomaly_process jdec) evs
                   (newConsumer \<lparr>sk_store = s, sk_sent = [], sk_delays = []\<rparr>) in
     length (an_events (sk_store (cn_sink c))) \<le> nat cap \<and> cn_backoff c \<le> 60 * second \<and>
     (if cn_phase c = Exited then cn_open c = 0 else if cn_phase c = Crashed then True else cn_open c \<le> 1)"
proof -
  have "anomaly_sink_ok (nat cap) \<lparr>sk_store = s, sk_sent = [], sk_delays = []\<rparr>"
    using assms by (auto simp: anomaly_sink_ok_def new_anomaly_store_def split: if_splits)
  from anomaly_consumer.run_from_new [OF this, of jdec evs] show ?thesis
    by (auto simp: Let_def anomaly_sink_ok_def)
qed

theorem anomaly_consumer_loop_safe_witness:
  "let c = consumer_run grow_anomaly (anomaly_process demo_dec)
       [Subscribed, Received (''msg'', 0) 0 None, Received (''msg'', 0) 1 None, PollFailed]
       (newConsumer \<lparr>sk_store = \<lparr>an_events = [], an_max = 1\<rparr>, sk_sent = [], sk_delays = []\<rparr>) in
     length (an_events (sk_store (cn_sink c))) \<le> 1"
proof -
  have "new_anomaly_store 1 = Some \<lparr>an_events = [], an_max = 1\<rparr>"
    by (simp add: new_anomaly_store_def)
  from anomaly_consumer_loop_safe [OF this] show ?thesis by (auto simp: Let_def)
qed

end
