(* ===== verification/LiveFeed.thy ===== *)
theory LiveFeed
  imports WSHandlers_Props LiveStore_Props Consumers
begin

text \<open>
  The live store, the connection manager, the results consumer and a WebSocket handler together.
  The consumer stores a row and broadcasts it; the handler of a new connection registers it, takes
  the snapshot of the store and queues it; the connection's writer empties its outbox; whatever
  belongs to other connections goes on meanwhile. The steps are those of the manager (\<open>ws_exec\<close>):
  in particular a broadcast takes its targets under the lock and queues its message for each of
  them afterwards, one at a time.
\<close>

section \<open>The steps\<close>

text \<open>\<open>fd_taken\<close> records what the connection's writer has taken from its outbox, in order.\<close>

record feed =
  fd_store :: live_store
  fd_mgr :: ws_mgr
  fd_taken :: "gval list"

datatype feed_act = Store | Snapshot | Call act

text \<open>The row that arrives, the connection with the rules it asks for, and the orders in which maps
  are ranged over.\<close>

record feed_env =
  fe_float :: "f64 \<Rightarrow> string"
  fe_ord :: "row list range_order"
  fe_conns :: conn_order
  fe_row :: row
  fe_conn :: conn
  fe_rules :: "string list"

text \<open>The end of \<open>processMessage\<close>, and what the handler does on a subscription.\<close>

definition consumer_acts :: "feed_env \<Rightarrow> feed_act list" where
  "consumer_acts v = [Store, Call (DoBroadcast (fe_conns v) (broadcast_rule (fe_row v)) (fe_row v))]"

definition handler_acts :: "feed_env \<Rightarrow> feed_act list" where
  "handler_acts v = [Call (DoConnect (fe_conn v) (fe_rules v)), Snapshot]"

text \<open>The message with which a writer enters the socket.\<close>

fun handed :: "conn \<Rightarrow> act list \<Rightarrow> gval list" where
  "handed c (DoSend c' e d # k) = (if c' = c then [d] else [])"
| "handed c _ = []"

fun feed_exec :: "feed_env \<Rightarrow> feed_act \<Rightarrow> feed \<Rightarrow> (feed \<times> feed_act list \<times> feed_act list list) list" where
  "feed_exec v Store s = [(s\<lparr>fd_store := ls_add (fe_float v) (fe_ord v) (fe_row v) (fd_store s)\<rparr>, [], [])]"
| "feed_exec v Snapshot s =
     [(s, [Call (DoWrite (fe_conn v) (frame (live_snapshot (fd_store s) (fe_rules v))))], [])]"
| "feed_exec v (Call a) s =
     map (\<lambda>(m', k', new). (s\<lparr>fd_mgr := m', fd_taken := fd_taken s @ handed (fe_conn v) k'\<rparr>,
       map Call k', map (map Call) new)) (ws_exec a (fd_mgr s))"

text \<open>The actions that are not about a connection: what handlers and writers of others do.\<close>

fun elsewhere :: "conn \<Rightarrow> act \<Rightarrow> bool" where
  "elsewhere c (DoConnect c' ids) \<longleftrightarrow> c' \<noteq> c"
| "elsewhere c (DoStarted c' e) \<longleftrightarrow> c' \<noteq> c"
| "elsewhere c (DoDisconnect c') \<longleftrightarrow> c' \<noteq> c"
| "elsewhere c (DoStop e dec) \<longleftrightarrow> of_conn e \<noteq> c"
| "elsewhere c (DoWrite c' d) \<longleftrightarrow> c' \<noteq> c"
| "elsewhere c (DoEnqueue e d counted) \<longleftrightarrow> of_conn e \<noteq> c"
| "elsewhere c (DoPump c' e) \<longleftrightarrow> of_conn e \<noteq> c"
| "elsewhere c (DoDone e) \<longleftrightarrow> of_conn e \<noteq> c"
| "elsewhere c (DoSend c' e d) \<longleftrightarrow> c' \<noteq> c"
| "elsewhere c (DoCloseConn c') \<longleftrightarrow> c' \<noteq> c"
| "elsewhere c _ \<longleftrightarrow> False"

text \<open>A system: the feed and its goroutines, the consumer first, the handler second, then those they
  start. Every goroutine may be next, and so may any action of other connections.\<close>

type_synonym feed_sys = "feed \<times> feed_act list list"

inductive feed_step :: "feed_env \<Rightarrow> feed_sys \<Rightarrow> feed_sys \<Rightarrow> bool" for v where
  feed_run: "i < length ts \<Longrightarrow> ts ! i = a # k \<Longrightarrow> (s', k', new) \<in> set (feed_exec v a s) \<Longrightarrow>
     feed_step v (s, ts) (s', ts[i := k' @ k] @ new)"
| feed_elsewhere: "elsewhere (fe_conn v) a \<Longrightarrow> (m', k', new) \<in> set (ws_exec a (fd_mgr s)) \<Longrightarrow>
     feed_step v (s, ts) (s\<lparr>fd_mgr := m'\<rparr>, ts)"

inductive_cases feed_stepE: "feed_step v (s, ts) z"

inductive feed_reach :: "feed_env \<Rightarrow> feed \<Rightarrow> feed_sys \<Rightarrow> bool" for v s0 where
  feed_start: "feed_reach v s0 (s0, [consumer_acts v, handler_acts v])"
| feed_next: "feed_reach v s0 z \<Longrightarrow> feed_step v z z' \<Longrightarrow> feed_reach v s0 z'"

section \<open>The connection's entry\<close>

text \<open>The connection is registered with the entry \<open>e\<close> for the rules, the entry is open, and \<open>q\<close> is
  what has been queued: taken by the writer or still in the outbox.\<close>

definition feeds :: "feed_env \<Rightarrow> feed \<Rightarrow> eid \<Rightarrow> gval list \<Rightarrow> bool" where
  "feeds v s e q \<longleftrightarrow> conns_ok (fd_mgr s) \<and> w_conns (fd_mgr s) (fe_conn v) = Some e \<and>
     (\<exists>en. w_heap (fd_mgr s) e = Some en \<and> e_rules en = fe_rules v \<and> \<not> e_closed en \<and> fd_taken s @ e_outbox en = q)"

lemma feedsE:
  assumes "feeds v s e q"
  obtains en where "conns_ok (fd_mgr s)" "w_conns (fd_mgr s) (fe_conn v) = Some e" "w_heap (fd_mgr s) e = Some en"
    "e_rules en = fe_rules v" "\<not> e_closed en" "fd_taken s @ e_outbox en = q" "of_conn e = fe_conn v"
  using assms unfolding feeds_def conns_ok_def by blast

lemma feedsI:
  "conns_ok (fd_mgr s) \<Longrightarrow> w_conns (fd_mgr s) (fe_conn v) = Some e \<Longrightarrow> w_heap (fd_mgr s) e = Some en \<Longrightarrow>
    e_rules en = fe_rules v \<Longrightarrow> \<not> e_closed en \<Longrightarrow> fd_taken s @ e_outbox en = q \<Longrightarrow> feeds v s e q"
  unfolding feeds_def by blast

lemma targets_distinct: "conns_ok m \<Longrightarrow> distinct (ws_targets ord rid m)"
proof -
  assume ok: "conns_ok m"
  have "inj_on (\<lambda>c. the (w_conns m c)) (dom (w_conns m))"
    using ok unfolding conns_ok_def by (intro inj_onI) (metis domD option.sel)
  with ok show ?thesis by (auto simp: ws_targets_def conns_ok_def distinct_map intro!: distinct_filter)
qed

lemma target_registered:
  assumes "conns_ok m" and "w_conns m c = Some e" and "w_heap m e = Some en" and "rid \<in> set (e_rules en)"
  shows "e \<in> set (ws_targets ord rid m)"
proof -
  have "c \<in> set (range_keys ord (w_conns m))" using assms(1,2) by (auto simp: conns_ok_def)
  with assms(2-4) show ?thesis by (force simp: ws_targets_def)
qed

section \<open>What the steps do to the queue\<close>

lemma feeds_elsewhere:
  assumes "feeds v s e q" and "elsewhere (fe_conn v) a" and "(m', k', new) \<in> set (ws_exec a (fd_mgr s))"
  shows "feeds v (s\<lparr>fd_mgr := m'\<rparr>) e q"
proof -
  from assms(1) obtain en where en: "conns_ok (fd_mgr s)" "w_conns (fd_mgr s) (fe_conn v) = Some e"
    "w_heap (fd_mgr s) e = Some en" "e_rules en = fe_rules v" "\<not> e_closed en" "fd_taken s @ e_outbox en = q"
    "of_conn e = fe_conn v" by (rule feedsE)
  have ok: "conns_ok m'" by (rule ws_exec_conns_ok [OF en(1) assms(3)])
  have inj: "c' = fe_conn v" if "w_conns (fd_mgr s) c' = Some e" for c' using that en(1,7) by (auto simp: conns_ok_def)
  have "w_conns m' (fe_conn v) = Some e \<and> w_heap m' e = Some en"
    using assms(2,3) en(2,3,7) conns_ok_fresh [OF en(1)]
    by (cases a) (auto simp: ws_register_def do_enqueue_heap Let_def dest: inj
      split: option.splits list.splits if_splits)
  with ok en show ?thesis by (intro feedsI [where en = en]) simp_all
qed

lemma feeds_enqueue:
  assumes "feeds v s e q" and "(m', k', new) \<in> set (ws_exec (DoEnqueue e' d b) (fd_mgr s))" and "length q < outboxSize"
  shows "feeds v (s\<lparr>fd_mgr := m'\<rparr>) e (if e' = e then q @ [d] else q)" and "k' = []" and "new = []"
proof -
  from assms(1) obtain en where en: "conns_ok (fd_mgr s)" "w_conns (fd_mgr s) (fe_conn v) = Some e"
    "w_heap (fd_mgr s) e = Some en" "e_rules en = fe_rules v" "\<not> e_closed en" "fd_taken s @ e_outbox en = q"
    "of_conn e = fe_conn v" by (rule feedsE)
  have ok: "conns_ok m'" by (rule ws_exec_conns_ok [OF en(1) assms(2)])
  have room: "length (e_outbox en) < outboxSize" using en(6) assms(3) by auto
  from assms(2) obtain p where m': "m' = fst (do_enqueue e' d b p (fd_mgr s))" "k' = []" "new = []" by auto
  show "feeds v (s\<lparr>fd_mgr := m'\<rparr>) e (if e' = e then q @ [d] else q)"
  proof (cases "e' = e")
    case True
    then show ?thesis using en room ok
      by (intro feedsI [where en = "fst (e_enqueue p d en)"]) (simp_all add: m' do_enqueue_heap e_enqueue_def)
  next
    case False
    then show ?thesis using en ok by (intro feedsI [where en = en]) (simp_all add: m' do_enqueue_heap)
  qed
qed (use assms(2) in auto)

lemma feeds_register:
  assumes "conns_ok (fd_mgr s)" and "w_conns (fd_mgr s) (fe_conn v) = None" and "fd_taken s = []"
    and "(m', k', new) \<in> set (ws_exec (DoConnect (fe_conn v) (fe_rules v)) (fd_mgr s))"
  obtains e where "feeds v (s\<lparr>fd_mgr := m'\<rparr>) e []" "k' = [DoStarted (fe_conn v) e]" "new = []"
    "w_heap (fd_mgr s) e = None" "of_conn e = fe_conn v"
proof -
  have ok: "conns_ok m'" by (rule ws_exec_conns_ok [OF assms(1,4)])
  let ?e = "Eid (fe_conn v) (w_serial (fd_mgr s))"
  have "k' = [DoStarted (fe_conn v) ?e]" "new = []" "w_conns m' (fe_conn v) = Some ?e" "w_heap m' ?e = Some (newWsEntry (fe_rules v))"
    using assms(2,4) by (auto simp: ws_register_def Let_def)
  with ok show ?thesis using assms(3) conns_ok_fresh [OF assms(1)]
    by (intro that [of ?e] feedsI [where en = "newWsEntry (fe_rules v)"]) simp_all
qed

text \<open>The writer of the entry: its actions, none of which stops the entry before it is unregistered.\<close>

fun own :: "conn \<Rightarrow> eid \<Rightarrow> act \<Rightarrow> bool" where
  "own c e (DoPump c' e') \<longleftrightarrow> c' = c \<and> e' = e"
| "own c e (DoSend c' e' d) \<longleftrightarrow> c' = c \<and> e' = e"
| "own c e (DoDone e') \<longleftrightarrow> e' = e"
| "own c e (DoDisconnect c') \<longleftrightarrow> c' = c"
| "own c e (DoCloseConn c') \<longleftrightarrow> c' = c"
| "own c e _ \<longleftrightarrow> False"

lemma feeds_own:
  assumes "feeds v s e q" and "own (fe_conn v) e a" and "(m', k', new) \<in> set (ws_exec a (fd_mgr s))"
  shows "(feeds v (s\<lparr>fd_mgr := m', fd_taken := fd_taken s @ handed (fe_conn v) k'\<rparr>) e q \<and> list_all (own (fe_conn v) e) k' \<and> new = [])
    \<or> w_conns m' (fe_conn v) = None"
proof -
  from assms(1) obtain en where en: "conns_ok (fd_mgr s)" "w_conns (fd_mgr s) (fe_conn v) = Some e"
    "w_heap (fd_mgr s) e = Some en" "e_rules en = fe_rules v" "\<not> e_closed en" "fd_taken s @ e_outbox en = q"
    "of_conn e = fe_conn v" by (rule feedsE)
  have ok: "conns_ok m'" by (rule ws_exec_conns_ok [OF en(1) assms(3)])
  note I = feedsI [where s = "s\<lparr>fd_mgr := m', fd_taken := fd_taken s @ handed (fe_conn v) k'\<rparr>" and v = v and e = e and q = q]
  show ?thesis
  proof (cases a)
    case (DoPump c' e')
    then obtain d ds where "e_outbox en = d # ds" "m' = upd_entry e (e_outbox_update tl) (fd_mgr s)" "k' = [DoSend (fe_conn v) e d]" "new = []"
      using assms(2,3) en(3,5) by (cases "e_outbox en") auto
    with en ok show ?thesis by (intro disjI1 conjI I [of "en\<lparr>e_outbox := ds\<rparr>"]) simp_all
  next
    case (DoSend c' e' d)
    then have "m' = fd_mgr s" "new = []" "k' = [DoPump (fe_conn v) e] \<or> k' = [DoDisconnect (fe_conn v), DoCloseConn (fe_conn v)]"
      using assms(2,3) by auto
    with en show ?thesis by (intro disjI1 conjI I [of en]) auto
  next
    case (DoDone e')
    then have "m' = upd_entry e (e_done_update (\<lambda>_. True)) (fd_mgr s)" "k' = []" "new = []" using assms(2,3) by auto
    with en ok show ?thesis by (intro disjI1 conjI I [of "en\<lparr>e_done := True\<rparr>"]) simp_all
  next
    case (DoDisconnect c')
    then show ?thesis using assms(2,3) by simp
  next
    case (DoCloseConn c')
    then have "m' = fd_mgr s" "k' = []" "new = []" using assms(2,3) by auto
    with en show ?thesis by (intro disjI1 conjI I [of en]) simp_all
  qed (use assms(2) in simp_all)
qed

text \<open>Once unregistered the connection stays so: nobody but its handler registers it.\<close>

fun registers :: "conn \<Rightarrow> feed_act \<Rightarrow> bool" where
  "registers c (Call (DoConnect c' ids)) \<longleftrightarrow> c' = c"
| "registers c _ \<longleftrightarrow> False"

lemma exec_keeps_unregistered:
  assumes "w_conns m c = None" and "\<not> registers c (Call a)" and "(m', k', new) \<in> set (ws_exec a m)"
  shows "w_conns m' c = None" and "list_all (\<lambda>b. \<not> registers c (Call b)) k'"
    and "list_all (list_all (\<lambda>b. \<not> registers c (Call b))) new"
  using assms by (cases a; auto simp: ws_register_def Let_def list_all_iff split: option.splits list.splits if_splits)+

section \<open>No update is lost\<close>

text \<open>A message that brings the client the row: its delta, or a snapshot that has it.\<close>

definition carries :: "string \<Rightarrow> row \<Rightarrow> gval \<Rightarrow> bool" where
  "carries rid row msg \<longleftrightarrow> msg = delta_msg rid row \<or>
     (\<exists>kvs rows. msg = bootstrap_msg (GMap kvs) \<and> map_of kvs rid = Some (GList rows) \<and> GMap row \<in> set rows)"

lemma snapshot_carries:
  assumes "finite (dom (ls_data ls))" and "rid \<in> set ids" and "row \<in> set (rows_at (ls_data ls) rid)"
  shows "carries rid row (live_snapshot ls ids)"
proof -
  let ?m = "ls_getAll ls ids"
  let ?kvs = "map (\<lambda>k. (k, GList (map GMap (rows_at ?m k)))) (sorted_list_of_set (dom ?m))"
  have m: "rows_at ?m rid = rows_at (ls_data ls) rid" using assms(2) by (simp add: ls_getAll_eq rows_at_def)
  have fin: "finite (dom ?m)" using assms(1) by (simp add: ls_getAll_eq)
  have "rid \<in> dom ?m" using assms(2,3) by (cases "ls_data ls rid") (auto simp: ls_getAll_eq rows_at_def)
  with fin have "map_of ?kvs rid = Some (GList (map GMap (rows_at ?m rid)))" by (simp add: map_of_map_restrict)
  moreover have "GMap row \<in> set (map GMap (rows_at ?m rid))" using assms(3) m by simp
  ultimately show ?thesis by (auto simp: carries_def live_snapshot_def Let_def)
qed

lemma upsert_scan_has: "row \<in> set (upsert_scan ff row rows)"
  by (induction rows) simp_all

lemma upsert_scan_sub: "set (upsert_scan ff row rows) \<subseteq> insert row (set rows)"
  by (induction rows) auto

lemma add_below_cap:
  assumes "ls_inv ff ls" and "ls_total ls < ls_max ls"
  shows "rows_at (ls_data (ls_add ff ord row ls)) rid =
    (if rid = row_rule row then upsert_scan ff row (rows_at (ls_data ls) rid) else rows_at (ls_data ls) rid)"
  using assms ls_upsert_total [of ff row ls] by (simp add: ls_add_cases)

text \<open>Every row can be written as JSON.\<close>

definition rows_printable :: "live_store \<Rightarrow> bool" where
  "rows_printable ls \<longleftrightarrow> (\<forall>rid. list_all (\<lambda>r. marshalable (GMap r)) (rows_at (ls_data ls) rid))"

lemma snapshot_printable:
  assumes "rows_printable ls"
  shows "marshalable (live_snapshot ls ids)"
proof -
  have "list_all (\<lambda>r. marshalable (GMap r)) (rows_at (ls_getAll ls ids) k)" for k
    using assms by (cases "k \<in> set ids") (simp_all add: rows_printable_def ls_getAll_eq rows_at_def)
  then show ?thesis
    by (simp add: live_snapshot_def bootstrap_msg_def Let_def list_all_iff)
qed

lemma add_printable:
  assumes "ls_inv ff ls" and "ls_total ls < ls_max ls" and "rows_printable ls" and "marshalable (GMap row)"
  shows "rows_printable (ls_add ff ord row ls)"
  using assms(3,4) upsert_scan_sub [of ff row "rows_at (ls_data ls) (row_rule row)"]
  by (fastforce simp: rows_printable_def add_below_cap [OF assms(1,2)] list_all_iff simp del: marshalable.simps)

section \<open>Where the two goroutines are\<close>

datatype cphase = CStart | CStored | CSending "eid list"

datatype hphase = HStarting | HSnap | HWrite live_store | HEnq live_store | HDone live_store

abbreviation the_delta :: "feed_env \<Rightarrow> gval" where
  "the_delta v \<equiv> delta_msg (broadcast_rule (fe_row v)) (fe_row v)"

abbreviation the_snap :: "feed_env \<Rightarrow> live_store \<Rightarrow> gval" where
  "the_snap v st \<equiv> frame (live_snapshot st (fe_rules v))"

definition store_after :: "feed_env \<Rightarrow> feed \<Rightarrow> live_store" where
  "store_after v s0 = ls_add (fe_float v) (fe_ord v) (fe_row v) (fd_store s0)"

fun c_code :: "feed_env \<Rightarrow> cphase \<Rightarrow> feed_act list" where
  "c_code v CStart = consumer_acts v"
| "c_code v CStored = tl (consumer_acts v)"
| "c_code v (CSending es) = map (\<lambda>e. Call (DoEnqueue e (the_delta v) True)) es"

fun c_store :: "feed_env \<Rightarrow> feed \<Rightarrow> cphase \<Rightarrow> live_store" where
  "c_store v s0 CStart = fd_store s0"
| "c_store v s0 _ = store_after v s0"

fun to_come :: "eid \<Rightarrow> cphase \<Rightarrow> nat" where
  "to_come e (CSending es) = count_list es e"
| "to_come e _ = 1"

fun h_code :: "feed_env \<Rightarrow> eid \<Rightarrow> hphase \<Rightarrow> feed_act list" where
  "h_code v e HStarting = [Call (DoStarted (fe_conn v) e), Snapshot]"
| "h_code v e HSnap = [Snapshot]"
| "h_code v e (HWrite st) = [Call (DoWrite (fe_conn v) (the_snap v st))]"
| "h_code v e (HEnq st) = [Call (DoEnqueue e (the_snap v st) False)]"
| "h_code v e (HDone st) = []"

fun h_store :: "hphase \<Rightarrow> live_store option" where
  "h_store (HWrite st) = Some st"
| "h_store (HEnq st) = Some st"
| "h_store (HDone st) = Some st"
| "h_store _ = None"

fun h_left :: "hphase \<Rightarrow> nat" where
  "h_left (HDone st) = 0"
| "h_left _ = 1"

text \<open>The connection is fed: what is queued are the delta and snapshots, with room for the rest; the
  row is on its way, queued, or in the snapshot that was or will be taken.\<close>

definition fed :: "feed_env \<Rightarrow> feed \<Rightarrow> cphase \<Rightarrow> hphase \<Rightarrow> eid \<Rightarrow> gval list \<Rightarrow> feed \<Rightarrow> bool" where
  "fed v s0 p h e q s \<longleftrightarrow> feeds v s e q \<and> fd_store s = c_store v s0 p \<and>
     length q + to_come e p + h_left h \<le> 2 \<and>
     set q \<subseteq> {the_delta v, the_snap v (fd_store s0), the_snap v (store_after v s0)} \<and>
     (\<forall>st. h_store h = Some st \<longrightarrow> st \<in> {fd_store s0, store_after v s0}) \<and>
     (\<forall>st. h = HDone st \<longrightarrow> the_snap v st \<in> set q) \<and>
     (0 < to_come e p \<or> the_delta v \<in> set q \<or> h_store h = None \<or> h_store h = Some (store_after v s0))"

lemma fed_cong:
  "fed v s0 p h e q s \<Longrightarrow> feeds v s' e q \<Longrightarrow> fd_store s' = fd_store s \<Longrightarrow> fed v s0 p h e q s'"
  by (simp add: fed_def)

lemma fed_room: "fed v s0 p h e q s \<Longrightarrow> length q < outboxSize"
  by (simp add: fed_def outboxSize_def)

lemma fed_elsewhere:
  assumes "fed v s0 p h e q s" and "elsewhere (fe_conn v) a" and "(m', k', new) \<in> set (ws_exec a (fd_mgr s))"
  shows "fed v s0 p h e q (s\<lparr>fd_mgr := m'\<rparr>)"
  using fed_cong [OF assms(1) feeds_elsewhere [OF _ assms(2,3)]] assms(1) by (simp add: fed_def)

lemma fed_writer:
  assumes "fed v s0 p h e q s" and "own (fe_conn v) e a" and "(s', k', new) \<in> set (feed_exec v (Call a) s)"
  shows "(\<exists>kk. fed v s0 p h e q s' \<and> k' = map Call kk \<and> list_all (own (fe_conn v) e) kk \<and> new = []) \<or>
    w_conns (fd_mgr s') (fe_conn v) = None"
proof -
  from assms(3) obtain m' kk nn where x: "(m', kk, nn) \<in> set (ws_exec a (fd_mgr s))"
    and s': "s' = s\<lparr>fd_mgr := m', fd_taken := fd_taken s @ handed (fe_conn v) kk\<rparr>" "k' = map Call kk" "new = map (map Call) nn"
    by auto
  have "feeds v s e q" using assms(1) by (simp add: fed_def)
  from feeds_own [OF this assms(2) x] fed_cong [OF assms(1), of s'] show ?thesis by (auto simp: s')
qed

lemma count_list_distinct: "distinct xs \<Longrightarrow> x \<in> set xs \<Longrightarrow> count_list xs x = 1"
  by (induction xs) (auto simp: count_list_0_iff)

lemma handed_enqueues [simp]: "handed c (map (\<lambda>e. DoEnqueue e d b) es) = []"
  by (cases es) simp_all

lemma fed_consumer:
  assumes f: "fed v s0 p h e q s" and code: "c_code v p = a # k" and x: "(s', k', new) \<in> set (feed_exec v a s)"
    and row: "broadcast_rule (fe_row v) \<in> set (fe_rules v)" "marshalable (GMap (fe_row v))"
  shows "\<exists>p' q'. k' @ k = c_code v p' \<and> new = [] \<and> fed v s0 p' h e q' s'"
proof (cases p)
  case CStart
  with code x have "s' = s\<lparr>fd_store := ls_add (fe_float v) (fe_ord v) (fe_row v) (fd_store s)\<rparr>" "k' @ k = c_code v CStored" "new = []"
    by (auto simp: consumer_acts_def)
  moreover have "fd_store s = fd_store s0" using f CStart by (simp add: fed_def)
  ultimately show ?thesis using f CStart
    by (intro exI [of _ CStored] exI [of _ q]) (auto simp: fed_def feeds_def store_after_def)
next
  case CStored
  from f obtain en where en: "conns_ok (fd_mgr s)" "w_conns (fd_mgr s) (fe_conn v) = Some e"
    "w_heap (fd_mgr s) e = Some en" "e_rules en = fe_rules v" by (auto simp: fed_def elim!: feedsE)
  let ?es = "ws_targets (fe_conns v) (broadcast_rule (fe_row v)) (fd_mgr s)"
  have "e \<in> set ?es" by (rule target_registered [OF en(1-3)]) (simp add: en(4) row(1))
  then have n: "count_list ?es e = 1" using targets_distinct [OF en(1)] by (simp add: count_list_distinct)
  have "marshalable (the_delta v)" using row(2) by (simp add: delta_msg_def)
  then have "s' = s" "k' @ k = c_code v (CSending ?es)" "new = []"
    using code x CStored by (auto simp: consumer_acts_def comp_def)
  with f CStored n show ?thesis
    by (intro exI [of _ "CSending ?es"] exI [of _ q]) (simp add: fed_def)
next
  case (CSending es)
  with code obtain e' es' where es: "es = e' # es'" and a: "a = Call (DoEnqueue e' (the_delta v) True)"
    and k: "k = c_code v (CSending es')" by (cases es) auto
  from x a obtain m' kk nn where y: "(m', kk, nn) \<in> set (ws_exec (DoEnqueue e' (the_delta v) True) (fd_mgr s))"
    and s': "s' = s\<lparr>fd_mgr := m', fd_taken := fd_taken s @ handed (fe_conn v) kk\<rparr>" "k' = map Call kk" "new = map (map Call) nn"
    by (auto simp del: ws_exec.simps)
  have "feeds v s e q" using f by (simp add: fed_def)
  note E = feeds_enqueue [OF this y fed_room [OF f]]
  from s' E(2,3) have s'': "s' = s\<lparr>fd_mgr := m'\<rparr>" "k' = []" "new = []" by simp_all
  let ?q = "if e' = e then q @ [the_delta v] else q"
  have "fed v s0 (CSending es') h e ?q s'"
    using f E(1) unfolding fed_def CSending es s''(1) by auto
  with k s'' show ?thesis by (intro exI [of _ "CSending es'"] exI [of _ ?q]) simp
qed

lemma fed_handler:
  assumes f: "fed v s0 p h e q s" and code: "h_code v e h = a # k" and x: "(s', k', new) \<in> set (feed_exec v a s)"
  shows "\<exists>h' q'. k' @ k = h_code v e h' \<and> h' \<noteq> HStarting \<and> fed v s0 p h' e q' s' \<and>
    new = (if h = HStarting then [map Call [DoPump (fe_conn v) e, DoDone e]] else [])"
proof (cases h)
  case HStarting
  with code x have "s' = s\<lparr>fd_mgr := (fd_mgr s)\<lparr>w_active := w_active (fd_mgr s) + 1\<rparr>\<rparr>" "k' @ k = h_code v e HSnap"
    "new = [map Call [DoPump (fe_conn v) e, DoDone e]]" by auto
  with f HStarting show ?thesis
    by (intro exI [of _ HSnap] exI [of _ q]) (auto simp: fed_def feeds_def conns_ok_def)
next
  case HSnap
  with code x have "s' = s" "k' @ k = h_code v e (HWrite (fd_store s))" "new = []" by auto
  with f HSnap show ?thesis
    by (intro exI [of _ "HWrite (fd_store s)"] exI [of _ q]) (cases p, auto simp: fed_def)
next
  case (HWrite st)
  have "w_conns (fd_mgr s) (fe_conn v) = Some e" using f by (simp add: fed_def feeds_def)
  with code x HWrite have "s' = s" "k' @ k = h_code v e (HEnq st)" "new = []" by auto
  with f HWrite show ?thesis
    by (intro exI [of _ "HEnq st"] exI [of _ q]) (auto simp: fed_def)
next
  case (HEnq st)
  with code have a: "a = Call (DoEnqueue e (the_snap v st) False)" "k = []" by auto
  from x a obtain m' kk nn where y: "(m', kk, nn) \<in> set (ws_exec (DoEnqueue e (the_snap v st) False) (fd_mgr s))"
    and s': "s' = s\<lparr>fd_mgr := m', fd_taken := fd_taken s @ handed (fe_conn v) kk\<rparr>" "k' = map Call kk" "new = map (map Call) nn"
    by (auto simp del: ws_exec.simps)
  have "feeds v s e q" using f by (simp add: fed_def)
  note E = feeds_enqueue [OF this y fed_room [OF f]]
  from s' E(2,3) have s'': "s' = s\<lparr>fd_mgr := m'\<rparr>" "k' = []" "new = []" by simp_all
  have "fed v s0 p (HDone st) e (q @ [the_snap v st]) s'"
    using f E(1) unfolding fed_def HEnq s''(1) by auto
  with a(2) s'' HEnq show ?thesis by (intro exI [of _ "HDone st"] exI [of _ "q @ [the_snap v st]"]) simp
qed (use code in simp)

section \<open>The system's invariant\<close>

definition waiting :: "feed_env \<Rightarrow> feed \<Rightarrow> cphase \<Rightarrow> feed \<Rightarrow> bool" where
  "waiting v s0 p s \<longleftrightarrow> conns_ok (fd_mgr s) \<and> w_conns (fd_mgr s) (fe_conn v) = None \<and> fd_taken s = [] \<and>
     fd_store s = c_store v s0 p \<and> (\<forall>es. p = CSending es \<longrightarrow> (\<forall>e \<in> set es. of_conn e \<noteq> fe_conn v))"

definition writers_ok :: "feed_env \<Rightarrow> eid \<Rightarrow> hphase \<Rightarrow> feed_act list list \<Rightarrow> bool" where
  "writers_ok v e h ws \<longleftrightarrow>
     (if h = HStarting then ws = [] else \<exists>kk. ws = [map Call kk] \<and> list_all (own (fe_conn v) e) kk)"

definition gone :: "feed_env \<Rightarrow> feed_sys \<Rightarrow> bool" where
  "gone v z \<longleftrightarrow> w_conns (fd_mgr (fst z)) (fe_conn v) = None \<and>
     list_all (list_all (\<lambda>b. \<not> registers (fe_conn v) b)) (snd z)"

inductive feed_ok :: "feed_env \<Rightarrow> feed \<Rightarrow> feed_sys \<Rightarrow> bool" for v s0 where
  ok_waiting: "waiting v s0 p s \<Longrightarrow> feed_ok v s0 (s, [c_code v p, handler_acts v])"
| ok_fed: "fed v s0 p h e q s \<Longrightarrow> writers_ok v e h ws \<Longrightarrow> feed_ok v s0 (s, c_code v p # h_code v e h # ws)"
| ok_gone: "gone v z \<Longrightarrow> feed_ok v s0 z"

lemma c_code_registers: "list_all (\<lambda>b. \<not> registers (fe_conn v) b) (c_code v p)"
  by (cases p) (simp_all add: consumer_acts_def list_all_iff)

lemma h_code_registers: "list_all (\<lambda>b. \<not> registers (fe_conn v) b) (h_code v e h)"
  by (cases h) simp_all

lemma own_registers: "list_all (own c e) kk \<Longrightarrow> list_all (\<lambda>b. \<not> registers c b) (map Call kk)"
  by (induction kk) (auto elim!: own.elims)

lemma writers_registers: "writers_ok v e h ws \<Longrightarrow> list_all (list_all (\<lambda>b. \<not> registers (fe_conn v) b)) ws"
  by (auto simp: writers_ok_def own_registers simp del: list.pred_map split: if_splits)

lemma list_all_update: "list_all P xs \<Longrightarrow> P y \<Longrightarrow> list_all P (xs[i := y])"
  by (auto simp: list_all_iff dest!: set_update_subset_insert [THEN subsetD])

lemma gone_run:
  assumes "gone v (s, ts)" and "i < length ts" "ts ! i = a # k" and x: "(s', k', new) \<in> set (feed_exec v a s)"
  shows "gone v (s', ts[i := k' @ k] @ new)"
proof -
  let ?c = "fe_conn v"
  have "list_all (\<lambda>b. \<not> registers ?c b) (a # k)" using assms(1,2,3) by (metis gone_def list_all_length snd_conv)
  then have a: "\<not> registers ?c a" "list_all (\<lambda>b. \<not> registers ?c b) k" by simp_all
  have n: "w_conns (fd_mgr s) ?c = None" using assms(1) by (simp add: gone_def)
  have "w_conns (fd_mgr s') ?c = None \<and> list_all (\<lambda>b. \<not> registers ?c b) k' \<and> list_all (list_all (\<lambda>b. \<not> registers ?c b)) new"
  proof (cases a)
    case (Call b)
    with x obtain m' kk nn where y: "(m', kk, nn) \<in> set (ws_exec b (fd_mgr s))" "fd_mgr s' = m'" "k' = map Call kk" "new = map (map Call) nn"
      by auto
    from exec_keeps_unregistered [OF n a(1) [unfolded Call] y(1)] show ?thesis
      by (simp add: y list.pred_map comp_def)
  qed (use x n in auto)
  with assms(1) a(2) show ?thesis by (auto simp: gone_def intro!: list_all_update)
qed

lemma gone_elsewhere:
  assumes "gone v (s, ts)" and "elsewhere (fe_conn v) a" and "(m', k', new) \<in> set (ws_exec a (fd_mgr s))"
  shows "gone v (s\<lparr>fd_mgr := m'\<rparr>, ts)"
  using assms exec_keeps_unregistered(1) [of "fd_mgr s" "fe_conn v" a m' k' new] by (cases a) (auto simp: gone_def)

lemma waiting_elsewhere:
  assumes "waiting v s0 p s" and "elsewhere (fe_conn v) a" and "(m', k', new) \<in> set (ws_exec a (fd_mgr s))"
  shows "waiting v s0 p (s\<lparr>fd_mgr := m'\<rparr>)"
  using assms ws_exec_conns_ok [OF _ assms(3)] exec_keeps_unregistered(1) [of "fd_mgr s" "fe_conn v" a m' k' new]
  by (cases a) (auto simp: waiting_def)

lemma waiting_consumer:
  assumes w: "waiting v s0 p s" and code: "c_code v p = a # k" and x: "(s', k', new) \<in> set (feed_exec v a s)"
  shows "\<exists>p'. k' @ k = c_code v p' \<and> new = [] \<and> waiting v s0 p' s'"
proof (cases p)
  case CStart
  with code x have "s' = s\<lparr>fd_store := ls_add (fe_float v) (fe_ord v) (fe_row v) (fd_store s)\<rparr>" "k' @ k = c_code v CStored" "new = []"
    by (auto simp: consumer_acts_def)
  with w CStart show ?thesis by (intro exI [of _ CStored]) (simp add: waiting_def store_after_def)
next
  case CStored
  let ?es = "ws_targets (fe_conns v) (broadcast_rule (fe_row v)) (fd_mgr s)"
  have "\<forall>e \<in> set ?es. of_conn e \<noteq> fe_conn v"
    using w by (auto simp: ws_targets_def waiting_def conns_ok_def domIff)
  moreover have "s' = s" "new = []" "k' @ k = c_code v (CSending ?es) \<or> k' @ k = c_code v (CSending [])"
    using code x CStored by (auto simp: consumer_acts_def comp_def split: if_splits)
  moreover have "waiting v s0 (CSending es) s" if "\<forall>e \<in> set es. of_conn e \<noteq> fe_conn v" for es
    using w CStored that by (simp add: waiting_def)
  ultimately show ?thesis by (metis empty_iff list.set(1))
next
  case (CSending es)
  with code obtain e' es' where es: "es = e' # es'" and a: "a = Call (DoEnqueue e' (the_delta v) True)"
    and k: "k = c_code v (CSending es')" by (cases es) auto
  have "elsewhere (fe_conn v) (DoEnqueue e' (the_delta v) True)" using w by (simp add: waiting_def CSending es)
  moreover from x a obtain m' kk nn where y: "(m', kk, nn) \<in> set (ws_exec (DoEnqueue e' (the_delta v) True) (fd_mgr s))"
    and "s' = s\<lparr>fd_mgr := m', fd_taken := fd_taken s @ handed (fe_conn v) kk\<rparr>" "k' = map Call kk" "new = map (map Call) nn"
    by (auto simp del: ws_exec.simps)
  moreover from y have "kk = []" "nn = []" by auto
  ultimately show ?thesis using waiting_elsewhere [OF w _ y] k
    by (intro exI [of _ "CSending es'"]) (simp add: waiting_def CSending es)
qed

lemma waiting_handler:
  assumes w: "waiting v s0 p s" and x: "(s', k', new) \<in> set (feed_exec v (Call (DoConnect (fe_conn v) (fe_rules v))) s)"
  shows "\<exists>e. k' @ [Snapshot] = h_code v e HStarting \<and> new = [] \<and> fed v s0 p HStarting e [] s'"
proof -
  from x obtain m' kk nn where y: "(m', kk, nn) \<in> set (ws_exec (DoConnect (fe_conn v) (fe_rules v)) (fd_mgr s))"
    and s': "s' = s\<lparr>fd_mgr := m', fd_taken := fd_taken s @ handed (fe_conn v) kk\<rparr>" "k' = map Call kk" "new = map (map Call) nn"
    by (auto simp del: ws_exec.simps)
  from w have "conns_ok (fd_mgr s)" "w_conns (fd_mgr s) (fe_conn v) = None" "fd_taken s = []" by (simp_all add: waiting_def)
  from feeds_register [OF this y] obtain e where e: "feeds v (s\<lparr>fd_mgr := m'\<rparr>) e []" "kk = [DoStarted (fe_conn v) e]" "nn = []"
    "of_conn e = fe_conn v" by metis
  have "to_come e p \<le> 1" using w e(4) by (cases p) (auto simp: waiting_def count_list_0_iff)
  with w e show ?thesis
    by (intro exI [of _ e]) (simp add: fed_def s' waiting_def feeds_def)
qed

lemma feed_ok_step:
  assumes "feed_ok v s0 z" and "feed_step v z z'"
    and row: "broadcast_rule (fe_row v) \<in> set (fe_rules v)" "marshalable (GMap (fe_row v))"
  shows "feed_ok v s0 z'"
  using assms(2)
proof (cases rule: feed_step.cases)
  case (feed_elsewhere a m' k' new s ts)
  note el = feed_elsewhere(3,4)
  from assms(1) [unfolded feed_elsewhere(1)] have "feed_ok v s0 (s\<lparr>fd_mgr := m'\<rparr>, ts)"
  proof (cases rule: feed_ok.cases)
    case (ok_waiting p)
    then show ?thesis using waiting_elsewhere [OF _ el] by (simp add: feed_ok.ok_waiting)
  next
    case (ok_fed p h e q ws)
    show ?thesis using feed_ok.ok_fed [OF fed_elsewhere [OF ok_fed(2) el] ok_fed(3)] by (simp add: ok_fed(1))
  next
    case ok_gone
    then show ?thesis using gone_elsewhere [OF _ el] by (simp add: feed_ok.ok_gone)
  qed
  then show ?thesis by (simp only: feed_elsewhere(2))
next
  case (feed_run i ts a k s' k' new s)
  note run = feed_run(3,4) and x = feed_run(5)
  from assms(1) [unfolded feed_run(1)] have "feed_ok v s0 (s', ts[i := k' @ k] @ new)"
  proof (cases rule: feed_ok.cases)
    case (ok_waiting p)
    show ?thesis
    proof (cases i)
      case 0
      with ok_waiting run have "c_code v p = a # k" by simp
      from waiting_consumer [OF ok_waiting(2) this x] 0 ok_waiting(1) show ?thesis
        by (auto intro: feed_ok.ok_waiting)
    next
      case (Suc j)
      with ok_waiting(1) run have i: "i = 1" and a: "a = Call (DoConnect (fe_conn v) (fe_rules v))" "k = [Snapshot]"
        by (auto simp: handler_acts_def nth_Cons split: nat.splits)
      from waiting_handler [OF ok_waiting(2) x [unfolded a(1)]] obtain e where
        "k' @ [Snapshot] = h_code v e HStarting" "new = []" "fed v s0 p HStarting e [] s'" by blast
      then show ?thesis using feed_ok.ok_fed [of v s0 p HStarting e "[]" s' "[]"]
        by (simp add: i a(2) ok_waiting(1) writers_ok_def)
    qed
  next
    case (ok_fed p h e q ws)
    consider "i = 0" | "i = 1" | j where "i = Suc (Suc j)" "j < length ws" "ws ! j = a # k"
      using run ok_fed(1) by (auto simp: nth_Cons split: nat.splits)
    then show ?thesis
    proof cases
      case 1
      with ok_fed run have "c_code v p = a # k" by simp
      from fed_consumer [OF ok_fed(2) this x row] 1 ok_fed(1,3) show ?thesis
        by (auto intro: feed_ok.ok_fed)
    next
      case 2
      with ok_fed run have "h_code v e h = a # k" by simp
      from fed_handler [OF ok_fed(2) this x] obtain h' q' where H: "k' @ k = h_code v e h'" "h' \<noteq> HStarting" "fed v s0 p h' e q' s'"
        "new = (if h = HStarting then [map Call [DoPump (fe_conn v) e, DoDone e]] else [])" by blast
      have "writers_ok v e h' (ws @ new)"
      proof (cases "h = HStarting")
        case True
        then show ?thesis using ok_fed(3) H(2)
          by (auto simp: writers_ok_def H(4) intro!: exI [of _ "[DoPump (fe_conn v) e, DoDone e]"])
      qed (use ok_fed(3) H(2) in \<open>simp add: writers_ok_def H(4)\<close>)
      from feed_ok.ok_fed [OF H(3) this] 2 ok_fed(1) H(1) show ?thesis by simp
    next
      case 3
      have h: "h \<noteq> HStarting" using 3(2) ok_fed(3) by (auto simp: writers_ok_def)
      with ok_fed(3) obtain kk where ws: "ws = [map Call kk]" "list_all (own (fe_conn v) e) kk"
        by (auto simp: writers_ok_def)
      with 3(2) have kk: "ws = [map Call kk]" "list_all (own (fe_conn v) e) kk" "j = 0" by simp_all
      with 3 obtain b kb where b: "a = Call b" "kk = b # kb" "k = map Call kb" by (cases kk) auto
      with kk have own: "own (fe_conn v) e b" "list_all (own (fe_conn v) e) kb" by simp_all
      from fed_writer [OF ok_fed(2) own(1) x [unfolded b(1)]] show ?thesis
      proof
        assume "\<exists>kk. fed v s0 p h e q s' \<and> k' = map Call kk \<and> list_all (own (fe_conn v) e) kk \<and> new = []"
        then obtain kk' where F: "fed v s0 p h e q s'" "k' = map Call kk'" "list_all (own (fe_conn v) e) kk'" "new = []" by blast
        have "writers_ok v e h [map Call (kk' @ kb)]" using h F(3) own(2)
          unfolding writers_ok_def if_not_P [OF h] by (intro exI [of _ "kk' @ kb"]) simp
        from feed_ok.ok_fed [OF F(1) this] show ?thesis by (simp add: 3(1) kk(1,3) ok_fed(1) F(2,4) b(3))
      next
        assume n: "w_conns (fd_mgr s') (fe_conn v) = None"
        from x b(1) obtain m' kk' nn where y: "(m', kk', nn) \<in> set (ws_exec b (fd_mgr s))" "k' = map Call kk'" "new = map (map Call) nn"
          by auto
        have "list_all (\<lambda>b. \<not> registers (fe_conn v) b) k'" "new = []"
          using own(1) y by (cases b; auto simp: list_all_iff split: option.splits list.splits)+
        then have "gone v (s', ts[i := k' @ k] @ new)" using n own_registers [OF own(2)] c_code_registers h_code_registers
          by (simp add: gone_def 3(1) kk(1,3) ok_fed(1) b(3) list.pred_map)
        then show ?thesis by (rule feed_ok.ok_gone)
      qed
    qed
  next
    case ok_gone
    then show ?thesis using gone_run [OF _ run x] by (simp add: feed_ok.ok_gone)
  qed
  then show ?thesis by (simp only: feed_run(2))
qed

lemma feed_reach_ok:
  assumes "feed_reach v s0 z" and "waiting v s0 CStart s0"
    and "broadcast_rule (fe_row v) \<in> set (fe_rules v)" "marshalable (GMap (fe_row v))"
  shows "feed_ok v s0 z"
  using assms(1)
proof induction
  case feed_start
  then show ?case using feed_ok.ok_waiting [OF assms(2)] by simp
qed (use feed_ok_step assms(3,4) in blast)

text \<open>Neither the consumer nor the handler ever waits for anything.\<close>

lemma feed_never_blocked:
  "c_code v p = a # k \<Longrightarrow> feed_exec v a s \<noteq> []" "h_code v e h = a # k \<Longrightarrow> feed_exec v a s \<noteq> []"
  by (cases p; auto simp: consumer_acts_def) (cases h; auto)

section \<open>The property\<close>

text \<open>C9. A client that subscribes while a row of one of its rules arrives does not miss the row,
  however the consumer, the handler, the client's writer and whatever other connections do
  interleave, the broadcast queueing its message for one target after the other. Once the consumer
  and the handler are through, what was queued for the client, if it is still registered, are one
  snapshot and at most one delta, and one of them carries the row. That holds because the handler
  registers before it takes the snapshot and the consumer stores before it broadcasts. It is about
  rows that are stored under the rule they are broadcast for (all but those with an empty
  \<open>ruleId\<close> and an \<open>id\<close>), that can be written as JSON, and a store below its cap.\<close>

theorem no_update_lost:
  assumes new: "conns_ok (fd_mgr s0)" "w_conns (fd_mgr s0) (fe_conn v) = None" "fd_taken s0 = []"
    and store: "ls_inv (fe_float v) (fd_store s0)" "ls_total (fd_store s0) < ls_max (fd_store s0)"
    and rule: "broadcast_rule (fe_row v) = row_rule (fe_row v)" "row_rule (fe_row v) \<in> set (fe_rules v)"
    and json: "rows_printable (fd_store s0)" "marshalable (GMap (fe_row v))"
    and run: "feed_reach v s0 (s, [] # [] # ws)" and reg: "w_conns (fd_mgr s) (fe_conn v) = Some e"
  shows "\<exists>en. w_heap (fd_mgr s) e = Some en \<and> \<not> e_closed en \<and>
    (let q = fd_taken s @ e_outbox en; delta = delta_msg (row_rule (fe_row v)) (fe_row v);
         before = live_snapshot (fd_store s0) (fe_rules v); after = live_snapshot (fd_store s) (fe_rules v)
     in (\<exists>msg \<in> set q. carries (row_rule (fe_row v)) (fe_row v) msg) \<and> (before \<in> set q \<or> after \<in> set q) \<and>
        set q \<subseteq> {delta, before, after} \<and> length q \<le> 2)"
proof -
  let ?st1 = "store_after v s0"
  have "waiting v s0 CStart s0" using new by (simp add: waiting_def)
  from feed_reach_ok [OF run this] rule json(2) have "feed_ok v s0 (s, [] # [] # ws)" by simp
  then obtain p h q where f: "fed v s0 p h e q s" and code: "c_code v p = []" "h_code v e h = []"
  proof (cases rule: feed_ok.cases)
    case (ok_fed p h e' q)
    then have "e' = e" using reg by (simp add: fed_def feeds_def)
    with ok_fed that show ?thesis by metis
  qed (use reg in \<open>simp_all add: handler_acts_def gone_def\<close>)
  from code obtain st where p: "p = CSending []" and h: "h = HDone st"
    by (cases p; cases h) (simp_all add: consumer_acts_def)
  have fr: "the_snap v ?st1 = live_snapshot ?st1 (fe_rules v)" "the_snap v (fd_store s0) = live_snapshot (fd_store s0) (fe_rules v)"
    using json by (simp_all add: frame_def snapshot_printable store_after_def add_printable [OF store])
  have "ls_inv (fe_float v) ?st1" unfolding store_after_def by (rule ls_add_inv_evicted(1) [OF store(1)])
  moreover have "fe_row v \<in> set (rows_at (ls_data ?st1) (row_rule (fe_row v)))"
    by (simp add: store_after_def add_below_cap [OF store] upsert_scan_has)
  ultimately have post: "carries (row_rule (fe_row v)) (fe_row v) (live_snapshot ?st1 (fe_rules v))"
    using snapshot_carries [OF _ rule(2)] ls_invD(1) by blast
  have delta: "carries (row_rule (fe_row v)) (fe_row v) (delta_msg (row_rule (fe_row v)) (fe_row v))" by (simp add: carries_def)
  from f have F: "fd_store s = ?st1" "length q \<le> 2" "the_snap v st \<in> set q" "st \<in> {fd_store s0, ?st1}"
    "set q \<subseteq> {the_delta v, the_snap v (fd_store s0), the_snap v ?st1}" "the_delta v \<in> set q \<or> st = ?st1"
    by (simp_all add: fed_def p h)
  have c: "\<exists>msg \<in> set q. carries (row_rule (fe_row v)) (fe_row v) msg"
    using F(3,6) delta post fr(1) rule(1) by metis
  have b: "live_snapshot (fd_store s0) (fe_rules v) \<in> set q \<or> live_snapshot ?st1 (fe_rules v) \<in> set q"
    using F(3,4) fr by auto
  from f obtain en where en: "w_heap (fd_mgr s) e = Some en" "\<not> e_closed en" "fd_taken s @ e_outbox en = q"
    by (auto simp: fed_def elim!: feedsE)
  show ?thesis using c b F(2,5) unfolding fr rule(1)
    by (intro exI [of _ en]) (simp add: en F(1) Let_def)
qed

text \<open>Schedules: which goroutine is next, and the outcome of its action.\<close>

fun feed_follow :: "feed_env \<Rightarrow> (nat \<times> nat) list \<Rightarrow> feed_sys \<Rightarrow> feed_sys option" where
  "feed_follow v [] z = Some z"
| "feed_follow v ((i, j) # cs) (s, ts) =
     (if i < length ts
      then (case ts ! i of
              [] \<Rightarrow> None
            | a # k \<Rightarrow>
                (if j < length (feed_exec v a s)
                 then (case feed_exec v a s ! j of (s', k', new) \<Rightarrow> feed_follow v cs (s', ts[i := k' @ k] @ new))
                 else None))
      else None)"

lemma feed_follow_reach: "feed_follow v cs z = Some z' \<Longrightarrow> feed_reach v s0 z \<Longrightarrow> feed_reach v s0 z'"
proof (induction v cs z rule: feed_follow.induct)
  case (2 v i j cs s ts)
  then obtain a k s' k' new where a: "i < length ts" "ts ! i = a # k" "j < length (feed_exec v a s)"
    "feed_exec v a s ! j = (s', k', new)" "feed_follow v cs (s', ts[i := k' @ k] @ new) = Some z'"
    by (auto split: if_splits list.splits prod.splits)
  then have "(s', k', new) \<in> set (feed_exec v a s)" by (metis nth_mem)
  from feed_next [OF 2(3) feed_step.feed_run [OF a(1,2) this]] 2(1) a show ?case by (metis (no_types))
qed simp

definition demo_feed :: feed_env where
  "demo_feed = \<lparr>fe_float = (\<lambda>_. []), fe_ord = sorted_order, fe_conns = sorted_order,
     fe_row = demo_row ''R'' ''g'' ''w'', fe_conn = 7, fe_rules = [''R'']\<rparr>"

abbreviation demo_start :: feed where
  "demo_start \<equiv> \<lparr>fd_store = new_live_store 10 1, fd_mgr = newWSManager, fd_taken = []\<rparr>"

theorem no_update_lost_witness:
  "\<exists>s ws en. feed_follow demo_feed [(1, 0), (1, 0), (1, 0), (0, 0), (1, 0), (0, 0), (1, 0), (2, 0), (0, 0)]
       (demo_start, [consumer_acts demo_feed, handler_acts demo_feed]) = Some (s, [] # [] # ws) \<and>
     w_heap (fd_mgr s) (Eid 7 0) = Some en \<and>
     (\<exists>msg \<in> set (fd_taken s @ e_outbox en). carries ''R'' (demo_row ''R'' ''g'' ''w'') msg)"
proof -
  have d: "fe_row demo_feed = demo_row ''R'' ''g'' ''w''" "fe_conn demo_feed = 7" "fe_rules demo_feed = [''R'']"
    "fe_conns demo_feed = sorted_order" by (simp_all add: demo_feed_def)
  have row: "row_rule (fe_row demo_feed) = ''R''" "broadcast_rule (fe_row demo_feed) = ''R''"
    "marshalable (GMap (fe_row demo_feed))" unfolding d by code_simp+
  have m: "marshalable (delta_msg ''R'' (fe_row demo_feed))" using row(3) by (simp add: delta_msg_def)
  obtain s ws where f: "feed_follow demo_feed [(1, 0), (1, 0), (1, 0), (0, 0), (1, 0), (0, 0), (1, 0), (2, 0), (0, 0)]
       (demo_start, [consumer_acts demo_feed, handler_acts demo_feed]) = Some (s, [] # [] # ws)"
    and r: "w_conns (fd_mgr s) (fe_conn demo_feed) = Some (Eid 7 0)"
    by (simp add: consumer_acts_def handler_acts_def ws_register_def Let_def ws_targets_def row [unfolded d(1)] m [unfolded d(1)] d sorted_order.rep_eq
        do_enqueue_def e_enqueue_def newWsEntry_def outboxSize_def upd_entry_def)
  have "conns_ok (fd_mgr demo_start)" "w_conns (fd_mgr demo_start) (fe_conn demo_feed) = None" "fd_taken demo_start = []"
    "ls_inv (fe_float demo_feed) (fd_store demo_start)" "ls_total (fd_store demo_start) < ls_max (fd_store demo_start)"
    "broadcast_rule (fe_row demo_feed) = row_rule (fe_row demo_feed)" "row_rule (fe_row demo_feed) \<in> set (fe_rules demo_feed)"
    "rows_printable (fd_store demo_start)"
    by (simp_all add: conns_ok_def ls_inv_new row [unfolded d(1)] d rows_printable_def)
  from no_update_lost [OF this row(3) feed_follow_reach [OF f feed_start] r]
  obtain en where en: "w_heap (fd_mgr s) (Eid 7 0) = Some en"
    and c: "\<exists>msg \<in> set (fd_taken s @ e_outbox en). carries ''R'' (demo_row ''R'' ''g'' ''w'') msg"
    unfolding Let_def row(1) unfolding d(1) by (elim exE conjE)
  show ?thesis by (intro exI conjI) (rule f, rule en, rule c)
qed

text \<open>The order of the two messages is not fixed: a row stored after the snapshot was taken, and
  broadcast before it is queued, is ahead of a snapshot that does not have it. A client that starts
  over from a snapshot forgets the row.\<close>

lemma delta_overtakes_snapshot:
  "\<exists>s ws en snap. feed_follow demo_feed [(1, 0), (1, 0), (1, 0), (0, 0), (0, 0), (0, 0), (1, 0), (1, 0)]
       (demo_start, [consumer_acts demo_feed, handler_acts demo_feed]) = Some (s, [] # [] # ws) \<and>
     w_heap (fd_mgr s) (Eid 7 0) = Some en \<and>
     e_outbox en = [delta_msg ''R'' (demo_row ''R'' ''g'' ''w''), frame (live_snapshot (new_live_store 10 1) [''R''])]"
proof -
  have d: "fe_row demo_feed = demo_row ''R'' ''g'' ''w''" "fe_conn demo_feed = 7" "fe_rules demo_feed = [''R'']"
    "fe_conns demo_feed = sorted_order" by (simp_all add: demo_feed_def)
  have row: "broadcast_rule (fe_row demo_feed) = ''R''" "marshalable (GMap (fe_row demo_feed))" unfolding d by code_simp+
  have m: "marshalable (delta_msg ''R'' (fe_row demo_feed))" using row(2) by (simp add: delta_msg_def)
  show ?thesis
    by (simp add: consumer_acts_def handler_acts_def ws_register_def Let_def ws_targets_def row [unfolded d(1)] m [unfolded d(1)] d sorted_order.rep_eq
        do_enqueue_def e_enqueue_def newWsEntry_def outboxSize_def upd_entry_def)
qed

end
