(* ===== verification/RuleModel.thy ===== *)
theory RuleModel
  imports GoValue "HOL-Library.Monad_Syntax"
begin

text \<open>
  \<open>internal/models/rule.go\<close>: the rule structures and their JSON form. A JSON document is a
  \<^typ>\<open>gval\<close> in which \<open>GInt n\<close> is an integer literal and \<open>GFloat f\<close> any other number literal;
  its text is not modelled. \<open>json.Marshal\<close> of a structure is a function to documents (field
  names from the tags, \<open>omitempty\<close> obeyed), \<open>json.Unmarshal\<close> into a structure a partial
  function from documents (unknown keys ignored, \<open>null\<close> leaving the zero value, a later
  duplicate winning, a value of the wrong type failing). Decoding into an \<open>interface{}\<close> turns
  every number into a \<open>float64\<close>. A nil slice and an empty one are both the empty list, which
  is encoded as an empty array (\<open>json.Marshal\<close> writes null for nil; the decoder takes both for the
  empty list), and strings keep bytes that are not UTF-8, for which \<open>json.Marshal\<close> writes U+FFFD.
\<close>

section \<open>Structures\<close>

record rule_metadata =
  rm_id :: string
  rm_name :: string
  rm_status :: string
  rm_severity :: string
  rm_penalty_ttl :: int

datatype filter_node =
  FilterNode (fn_type: string) (fn_logic: "string option") (fn_conditions: "filter_node list")
    (fn_field: "string option") (fn_operator: "string option") (fn_value: gval)
    (fn_format: "string option")

record grouping_config =
  gc_keys :: "string list"
  gc_entity :: string
  gc_anomaly_field :: string

record sink_config =
  sc_agg :: bool
  sc_anomaly :: bool
  sc_anomaly_store :: bool

record windowing_config =
  wc_type :: string
  wc_time_type :: string
  wc_ts_field :: string
  wc_ts_format :: string
  wc_kafka_ts :: bool
  wc_size_ms :: int
  wc_slide_ms :: int
  wc_lateness_ms :: int
  wc_offset_ms :: int

record aggregation_spec =
  ag_alias :: string
  ag_field :: string
  ag_function :: string
  ag_cardinality :: string

record velocity_rule =
  vr_meta :: rule_metadata
  vr_topic :: string
  vr_filters :: "filter_node option"
  vr_grouping :: grouping_config
  vr_windowing :: windowing_config
  vr_aggs :: "aggregation_spec list"
  vr_having :: string
  vr_sinks :: "sink_config option"

record rule_record =
  rec_id :: string
  rec_name :: string
  rec_status :: string
  rec_payload :: gval
  rec_published :: bool
  rec_version :: int

section \<open>Numbers through \<open>float64\<close>\<close>

text \<open>
  The \<open>float64\<close> nearest to an integer, ties to even: the mantissa has 53 bits, and a mantissa
  that rounds up to \<open>2 ^ 53\<close> carries into the exponent.
\<close>

fun bit_length :: "nat \<Rightarrow> nat" where
  "bit_length n = (if n = 0 then 0 else Suc (bit_length (n div 2)))"

declare bit_length.simps [simp del]

definition round_shift :: "nat \<Rightarrow> nat \<Rightarrow> nat" where
  \<comment> \<open>\<open>a / 2 ^ k\<close> to the nearest, for \<open>k > 0\<close>\<close>
  "round_shift a k =
     (let q = a div 2 ^ k; r = a mod 2 ^ k; half = 2 ^ (k - 1)
      in if half < r \<or> (r = half \<and> odd q) then Suc q else q)"

definition f64_of_int :: "int \<Rightarrow> f64" where
  "f64_of_int n =
     (if n = 0 then 0
      else let a = nat \<bar>n\<bar>; k = bit_length a;
               m = (if k \<le> 53 then a * 2 ^ (53 - k) else round_shift a (k - 53))
           in word_of_int ((if n < 0 then 2 ^ 63 else 0) + int ((k + 1022) * 2 ^ 52 + (m - 2 ^ 52))))"

text \<open>Whether a \<open>float64\<close> is written as an integer literal, and which one.\<close>

definition f64_integral :: "f64 \<Rightarrow> bool" where
  "f64_integral f \<longleftrightarrow>
     (if f64_exp f = 2047 then False
      else if 1075 \<le> f64_exp f then True
      else (let m = (if f64_exp f = 0 then f64_frac f else 2 ^ 52 + f64_frac f);
                e = (if f64_exp f = 0 then 1 else f64_exp f)
            in m mod 2 ^ (1075 - e) = 0))"

definition num_text :: "f64 \<Rightarrow> gval" where
  "num_text f =
     (case f64_trunc f of
        Some n \<Rightarrow> if f64_integral f \<and> \<bar>n\<bar> < 10 ^ 21 then GInt n else GFloat f
      | None \<Rightarrow> GFloat f)"

fun json_text :: "gval \<Rightarrow> gval" where
  \<comment> \<open>\<open>json.Marshal\<close> of a dynamic value\<close>
  "json_text (GFloat f) = num_text f"
| "json_text (GList xs) = GList (map json_text xs)"
| "json_text (GMap kvs) = GMap (map (\<lambda>(k, v). (k, json_text v)) kvs)"
| "json_text v = v"

fun to_iface :: "gval \<Rightarrow> gval" where
  \<comment> \<open>\<open>json.Unmarshal\<close> into an \<open>interface{}\<close>\<close>
  "to_iface (GInt n) = GFloat (f64_of_int n)"
| "to_iface (GList xs) = GList (map to_iface xs)"
| "to_iface (GMap kvs) = GMap (map (\<lambda>(k, v). (k, to_iface v)) kvs)"
| "to_iface v = v"

text \<open>The dynamic values a JSON round trip gives back; only a negative zero does not.\<close>

fun json_stable :: "gval \<Rightarrow> bool" where
  "json_stable (GInt n) \<longleftrightarrow> False"
| "json_stable (GFloat f) \<longleftrightarrow> to_iface (num_text f) = GFloat f"
| "json_stable (GList xs) \<longleftrightarrow> list_all json_stable xs"
| "json_stable (GMap kvs) \<longleftrightarrow> list_all (\<lambda>kv. json_stable (snd kv)) kvs"
| "json_stable v \<longleftrightarrow> True"

lemma json_stable_round: "json_stable v \<Longrightarrow> to_iface (json_text v) = v"
proof (induction v)
  case (GList xs)
  then show ?case by (induction xs) auto
next
  case (GMap kvs)
  then have "\<And>k v. (k, v) \<in> set kvs \<Longrightarrow> to_iface (json_text v) = v"
    by (fastforce simp: list_all_iff)
  then have "map (\<lambda>(k, v). (k, to_iface v)) (map (\<lambda>(k, v). (k, json_text v)) kvs) = kvs"
    by (induction kvs) auto
  then show ?case by simp
qed auto

section \<open>Encoding\<close>

definition omit_empty :: "string \<Rightarrow> string \<Rightarrow> row" where
  "omit_empty k s = (if s = [] then [] else [(k, GStr s)])"

definition omit_nil :: "string \<Rightarrow> string option \<Rightarrow> row" where
  "omit_nil k so = (case so of None \<Rightarrow> [] | Some s \<Rightarrow> [(k, GStr s)])"

definition metadata_json :: "rule_metadata \<Rightarrow> gval" where
  "metadata_json r =
     GMap ((''rule_id'', GStr (rm_id r)) # omit_empty ''rule_name'' (rm_name r)
       @ [(''status'', GStr (rm_status r)), (''severity_level'', GStr (rm_severity r)),
          (''penalty_ttl_seconds'', GInt (rm_penalty_ttl r))])"

fun filter_json :: "filter_node \<Rightarrow> gval" where
  "filter_json (FilterNode ty logic conds field oper val fmt) =
     GMap ((''type'', GStr ty) # omit_nil ''logic'' logic
       @ (if conds = [] then [] else [(''conditions'', GList (map filter_json conds))])
       @ omit_nil ''field'' field @ omit_nil ''operator'' oper
       @ (if val = GNil then [] else [(''value'', json_text val)])
       @ omit_nil ''format'' fmt)"

definition grouping_json :: "grouping_config \<Rightarrow> gval" where
  "grouping_json g =
     GMap ((''keys'', GList (map GStr (gc_keys g))) # omit_empty ''entity_name'' (gc_entity g)
       @ omit_empty ''anomaly_entity_field'' (gc_anomaly_field g))"

definition sinks_json :: "sink_config \<Rightarrow> gval" where
  "sinks_json s =
     GMap [(''agg_sink_enabled'', GBool (sc_agg s)), (''anomaly_sink_enabled'', GBool (sc_anomaly s)),
           (''anomaly_store_sink_enabled'', GBool (sc_anomaly_store s))]"

definition windowing_json :: "windowing_config \<Rightarrow> gval" where
  "windowing_json w =
     GMap [(''type'', GStr (wc_type w)), (''time_type'', GStr (wc_time_type w)),
           (''timestamp_field'', GStr (wc_ts_field w)), (''timestamp_format'', GStr (wc_ts_format w)),
           (''use_kafka_timestamp'', GBool (wc_kafka_ts w)), (''size_ms'', GInt (wc_size_ms w)),
           (''slide_ms'', GInt (wc_slide_ms w)), (''allowed_lateness_ms'', GInt (wc_lateness_ms w)),
           (''alignment_offset_ms'', GInt (wc_offset_ms w))]"

definition agg_json :: "aggregation_spec \<Rightarrow> gval" where
  "agg_json a =
     GMap [(''alias'', GStr (ag_alias a)), (''field'', GStr (ag_field a)),
           (''function'', GStr (ag_function a)), (''cardinality_hint'', GStr (ag_cardinality a))]"

definition rule_json :: "velocity_rule \<Rightarrow> gval" where
  "rule_json r =
     GMap ([(''rule_metadata'', metadata_json (vr_meta r)),
            (''execution_routing'', GMap [(''target_source_topic'', GStr (vr_topic r))]),
            (''filters'', case vr_filters r of None \<Rightarrow> GNil | Some f \<Rightarrow> filter_json f),
            (''grouping'', grouping_json (vr_grouping r)),
            (''windowing'', windowing_json (vr_windowing r)),
            (''aggregations'', GList (map agg_json (vr_aggs r))),
            (''having_thresholds'', GMap [(''expression'', GStr (vr_having r))])]
       @ (case vr_sinks r of None \<Rightarrow> [] | Some s \<Rightarrow> [(''sinks'', sinks_json s)]))"

section \<open>Decoding\<close>

text \<open>
  Keys match field names without regard to (ASCII) case. Reading a document into a field that
  holds \<open>v\<close>: every matching key in turn is applied by \<open>put\<close>. Fields are independent of each
  other, so a structure is read field by field; whichever mismatch comes first, the result is
  an error.
\<close>

fun read_field :: "string \<Rightarrow> (gval \<Rightarrow> 'a \<Rightarrow> 'a option) \<Rightarrow> row \<Rightarrow> 'a \<Rightarrow> 'a option" where
  "read_field name put [] v = Some v"
| "read_field name put ((k, d) # kvs) v =
     (if equal_fold_ascii k name
      then (case put d v of None \<Rightarrow> None | Some v' \<Rightarrow> read_field name put kvs v')
      else read_field name put kvs v)"

fun put_string :: "gval \<Rightarrow> string \<Rightarrow> string option" where
  "put_string GNil s = Some s"
| "put_string (GStr t) s = Some t"
| "put_string _ s = None"

fun put_string_ptr :: "gval \<Rightarrow> string option \<Rightarrow> string option option" where
  "put_string_ptr GNil s = Some None"
| "put_string_ptr (GStr t) s = Some (Some t)"
| "put_string_ptr _ s = None"

fun put_int64 :: "gval \<Rightarrow> int \<Rightarrow> int option" where
  "put_int64 GNil n = Some n"
| "put_int64 (GInt m) n = (if int64_range m then Some m else None)"
| "put_int64 _ n = None"

fun put_bool :: "gval \<Rightarrow> bool \<Rightarrow> bool option" where
  "put_bool GNil b = Some b"
| "put_bool (GBool c) b = Some c"
| "put_bool _ b = None"

text \<open>A structure or slice: \<open>null\<close> is no change (nil for a slice).\<close>

fun put_struct :: "(row \<Rightarrow> 'a \<Rightarrow> 'a option) \<Rightarrow> gval \<Rightarrow> 'a \<Rightarrow> 'a option" where
  "put_struct rd (GMap kvs) v = rd kvs v"
| "put_struct rd GNil v = Some v"
| "put_struct rd _ v = None"

fun put_list :: "(gval \<Rightarrow> 'a option) \<Rightarrow> gval \<Rightarrow> 'a list \<Rightarrow> 'a list option" where
  "put_list rd (GList ds) v = those (map rd ds)"
| "put_list rd GNil v = Some []"
| "put_list rd _ v = None"

definition read_metadata :: "row \<Rightarrow> rule_metadata \<Rightarrow> rule_metadata option" where
  "read_metadata kvs r = do {
     i \<leftarrow> read_field ''rule_id'' put_string kvs (rm_id r);
     n \<leftarrow> read_field ''rule_name'' put_string kvs (rm_name r);
     s \<leftarrow> read_field ''status'' put_string kvs (rm_status r);
     l \<leftarrow> read_field ''severity_level'' put_string kvs (rm_severity r);
     p \<leftarrow> read_field ''penalty_ttl_seconds'' put_int64 kvs (rm_penalty_ttl r);
     Some \<lparr>rm_id = i, rm_name = n, rm_status = s, rm_severity = l, rm_penalty_ttl = p\<rparr> }"

definition read_grouping :: "row \<Rightarrow> grouping_config \<Rightarrow> grouping_config option" where
  "read_grouping kvs g = do {
     ks \<leftarrow> read_field ''keys'' (put_list (\<lambda>d. put_string d [])) kvs (gc_keys g);
     e \<leftarrow> read_field ''entity_name'' put_string kvs (gc_entity g);
     a \<leftarrow> read_field ''anomaly_entity_field'' put_string kvs (gc_anomaly_field g);
     Some \<lparr>gc_keys = ks, gc_entity = e, gc_anomaly_field = a\<rparr> }"

definition read_sinks :: "row \<Rightarrow> sink_config \<Rightarrow> sink_config option" where
  "read_sinks kvs s = do {
     a \<leftarrow> read_field ''agg_sink_enabled'' put_bool kvs (sc_agg s);
     b \<leftarrow> read_field ''anomaly_sink_enabled'' put_bool kvs (sc_anomaly s);
     c \<leftarrow> read_field ''anomaly_store_sink_enabled'' put_bool kvs (sc_anomaly_store s);
     Some \<lparr>sc_agg = a, sc_anomaly = b, sc_anomaly_store = c\<rparr> }"

definition read_windowing :: "row \<Rightarrow> windowing_config \<Rightarrow> windowing_config option" where
  "read_windowing kvs w = do {
     ty \<leftarrow> read_field ''type'' put_string kvs (wc_type w);
     tt \<leftarrow> read_field ''time_type'' put_string kvs (wc_time_type w);
     tf \<leftarrow> read_field ''timestamp_field'' put_string kvs (wc_ts_field w);
     tm \<leftarrow> read_field ''timestamp_format'' put_string kvs (wc_ts_format w);
     uk \<leftarrow> read_field ''use_kafka_timestamp'' put_bool kvs (wc_kafka_ts w);
     sz \<leftarrow> read_field ''size_ms'' put_int64 kvs (wc_size_ms w);
     sl \<leftarrow> read_field ''slide_ms'' put_int64 kvs (wc_slide_ms w);
     la \<leftarrow> read_field ''allowed_lateness_ms'' put_int64 kvs (wc_lateness_ms w);
     ao \<leftarrow> read_field ''alignment_offset_ms'' put_int64 kvs (wc_offset_ms w);
     Some \<lparr>wc_type = ty, wc_time_type = tt, wc_ts_field = tf, wc_ts_format = tm, wc_kafka_ts = uk,
           wc_size_ms = sz, wc_slide_ms = sl, wc_lateness_ms = la, wc_offset_ms = ao\<rparr> }"

definition read_agg :: "row \<Rightarrow> aggregation_spec \<Rightarrow> aggregation_spec option" where
  "read_agg kvs a = do {
     al \<leftarrow> read_field ''alias'' put_string kvs (ag_alias a);
     fi \<leftarrow> read_field ''field'' put_string kvs (ag_field a);
     fu \<leftarrow> read_field ''function'' put_string kvs (ag_function a);
     ca \<leftarrow> read_field ''cardinality_hint'' put_string kvs (ag_cardinality a);
     Some \<lparr>ag_alias = al, ag_field = fi, ag_function = fu, ag_cardinality = ca\<rparr> }"

definition zero_metadata :: rule_metadata where
  "zero_metadata = \<lparr>rm_id = [], rm_name = [], rm_status = [], rm_severity = [], rm_penalty_ttl = 0\<rparr>"

definition zero_filter :: filter_node where
  "zero_filter = FilterNode [] None [] None None GNil None"

definition zero_sinks :: sink_config where
  "zero_sinks = \<lparr>sc_agg = False, sc_anomaly = False, sc_anomaly_store = False\<rparr>"

definition zero_windowing :: windowing_config where
  "zero_windowing = \<lparr>wc_type = [], wc_time_type = [], wc_ts_field = [], wc_ts_format = [], wc_kafka_ts = False,
     wc_size_ms = 0, wc_slide_ms = 0, wc_lateness_ms = 0, wc_offset_ms = 0\<rparr>"

definition zero_agg :: aggregation_spec where
  "zero_agg = \<lparr>ag_alias = [], ag_field = [], ag_function = [], ag_cardinality = []\<rparr>"

definition zero_rule :: velocity_rule where
  "zero_rule = \<lparr>vr_meta = zero_metadata, vr_topic = [], vr_filters = None,
     vr_grouping = \<lparr>gc_keys = [], gc_entity = [], gc_anomaly_field = []\<rparr>,
     vr_windowing = zero_windowing, vr_aggs = [], vr_having = [], vr_sinks = None\<rparr>"

lemma read_field_cong [fundef_cong]:
  "name = name' \<Longrightarrow> kvs = kvs' \<Longrightarrow> v = v' \<Longrightarrow>
   (\<And>k d u. (k, d) \<in> set kvs' \<Longrightarrow> put d u = put' d u) \<Longrightarrow>
   read_field name put kvs v = read_field name' put' kvs' v'"
proof -
  have "(\<And>k d u. (k, d) \<in> set kvs \<Longrightarrow> put d u = put' d u) \<Longrightarrow>
     read_field name put kvs v = read_field name put' kvs v" for kvs v
  proof (induction name put kvs v rule: read_field.induct)
    case (2 name put k d kvs v)
    have "put d v = put' d v" using "2.prems" by auto
    moreover have "read_field name put kvs u = read_field name put' kvs u" if "put d v = Some u" "equal_fold_ascii k name" for u
      using "2.IH"(1) [OF that(2,1)] "2.prems" by auto
    moreover have "read_field name put kvs v = read_field name put' kvs v" if "\<not> equal_fold_ascii k name"
      using "2.IH"(2) [OF that] "2.prems" by auto
    ultimately show ?case by (auto split: option.splits)
  qed simp
  then show "name = name' \<Longrightarrow> kvs = kvs' \<Longrightarrow> v = v' \<Longrightarrow>
   (\<And>k d u. (k, d) \<in> set kvs' \<Longrightarrow> put d u = put' d u) \<Longrightarrow>
   read_field name put kvs v = read_field name' put' kvs' v'" by simp
qed

lemma put_list_cong [fundef_cong]:
  "d = d' \<Longrightarrow> v = v' \<Longrightarrow> (\<And>ds x. d' = GList ds \<Longrightarrow> x \<in> set ds \<Longrightarrow> rd x = rd' x) \<Longrightarrow>
   put_list rd d v = put_list rd' d' v'"
  by (cases d') (auto intro: arg_cong [where f = those])

lemma size_row_mem: "(k, d) \<in> set kvs \<Longrightarrow> size d < size (GMap kvs)"
  by (induction kvs) auto

lemma size_list_mem: "d \<in> set ds \<Longrightarrow> size d < size (GList ds)"
  by (induction ds) auto

text \<open>Elements of \<open>conditions\<close> are structures: a \<open>null\<close> element is a zero node.\<close>

function read_filter :: "row \<Rightarrow> filter_node \<Rightarrow> filter_node option" where
  "read_filter kvs f = do {
     ty \<leftarrow> read_field ''type'' put_string kvs (fn_type f);
     lo \<leftarrow> read_field ''logic'' put_string_ptr kvs (fn_logic f);
     cs \<leftarrow> read_field ''conditions'' (put_list (\<lambda>d. case d of
              GMap kvs' \<Rightarrow> read_filter kvs' zero_filter | GNil \<Rightarrow> Some zero_filter | _ \<Rightarrow> None)) kvs (fn_conditions f);
     fi \<leftarrow> read_field ''field'' put_string_ptr kvs (fn_field f);
     op \<leftarrow> read_field ''operator'' put_string_ptr kvs (fn_operator f);
     va \<leftarrow> read_field ''value'' (\<lambda>d v. Some (to_iface d)) kvs (fn_value f);
     fm \<leftarrow> read_field ''format'' put_string_ptr kvs (fn_format f);
     Some (FilterNode ty lo cs fi op va fm) }"
  by pat_completeness auto
termination
  by (relation "measure (\<lambda>(kvs, f). size (GMap kvs))")
    (auto dest!: size_row_mem size_list_mem simp del: gval.size)

declare read_filter.simps [simp del]

fun put_filter_ptr :: "gval \<Rightarrow> filter_node option \<Rightarrow> filter_node option option" where
  "put_filter_ptr GNil f = Some None"
| "put_filter_ptr (GMap kvs) f = map_option Some (read_filter kvs (case f of None \<Rightarrow> zero_filter | Some n \<Rightarrow> n))"
| "put_filter_ptr _ f = None"

fun put_sinks_ptr :: "gval \<Rightarrow> sink_config option \<Rightarrow> sink_config option option" where
  "put_sinks_ptr GNil s = Some None"
| "put_sinks_ptr (GMap kvs) s = map_option Some (read_sinks kvs (case s of None \<Rightarrow> zero_sinks | Some c \<Rightarrow> c))"
| "put_sinks_ptr _ s = None"

definition read_rule :: "row \<Rightarrow> velocity_rule \<Rightarrow> velocity_rule option" where
  "read_rule kvs r = do {
     me \<leftarrow> read_field ''rule_metadata'' (put_struct read_metadata) kvs (vr_meta r);
     tp \<leftarrow> read_field ''execution_routing'' (put_struct (read_field ''target_source_topic'' put_string)) kvs (vr_topic r);
     fs \<leftarrow> read_field ''filters'' put_filter_ptr kvs (vr_filters r);
     gr \<leftarrow> read_field ''grouping'' (put_struct read_grouping) kvs (vr_grouping r);
     wi \<leftarrow> read_field ''windowing'' (put_struct read_windowing) kvs (vr_windowing r);
     ag \<leftarrow> read_field ''aggregations'' (put_list (\<lambda>d. put_struct read_agg d zero_agg)) kvs (vr_aggs r);
     ha \<leftarrow> read_field ''having_thresholds'' (put_struct (read_field ''expression'' put_string)) kvs (vr_having r);
     si \<leftarrow> read_field ''sinks'' put_sinks_ptr kvs (vr_sinks r);
     Some \<lparr>vr_meta = me, vr_topic = tp, vr_filters = fs, vr_grouping = gr, vr_windowing = wi,
           vr_aggs = ag, vr_having = ha, vr_sinks = si\<rparr> }"

definition rule_of_json :: "gval \<Rightarrow> velocity_rule option" where
  "rule_of_json d = put_struct read_rule d zero_rule"

section \<open>Round trip\<close>

text \<open>The rules a JSON round trip preserves: integers of the structures' width, filter values
  that are JSON values.\<close>

fun filter_ok :: "filter_node \<Rightarrow> bool" where
  "filter_ok (FilterNode ty lo cs fi op va fm) \<longleftrightarrow> json_stable va \<and> list_all filter_ok cs"

definition windowing_ok :: "windowing_config \<Rightarrow> bool" where
  "windowing_ok w \<longleftrightarrow> int64_range (wc_size_ms w) \<and> int64_range (wc_slide_ms w) \<and>
     int64_range (wc_lateness_ms w) \<and> int64_range (wc_offset_ms w)"

definition rule_ok :: "velocity_rule \<Rightarrow> bool" where
  "rule_ok r \<longleftrightarrow> int64_range (rm_penalty_ttl (vr_meta r)) \<and> windowing_ok (vr_windowing r) \<and>
     (case vr_filters r of None \<Rightarrow> True | Some f \<Rightarrow> filter_ok f)"

definition lower_key :: "string \<Rightarrow> bool" where
  "lower_key k \<longleftrightarrow> list_all (\<lambda>c. \<not> is_upper c) k"

lemma lower_key_fold: "lower_key k \<Longrightarrow> map ascii_lower k = k"
  by (induction k) (auto simp: lower_key_def ascii_lower_def)

lemma fold_lower [simp]: "lower_key k \<Longrightarrow> lower_key n \<Longrightarrow> equal_fold_ascii k n \<longleftrightarrow> k = n"
  by (simp add: equal_fold_ascii_def lower_key_fold)

lemma rule_tags_lower [simp]:
  "lower_key ''rule_metadata''" "lower_key ''execution_routing''" "lower_key ''filters''"
  "lower_key ''grouping''" "lower_key ''windowing''" "lower_key ''aggregations''"
  "lower_key ''having_thresholds''" "lower_key ''sinks''" "lower_key ''target_source_topic''"
  "lower_key ''expression''"
  by code_simp+

lemma metadata_tags_lower [simp]:
  "lower_key ''rule_id''" "lower_key ''rule_name''" "lower_key ''status''"
  "lower_key ''severity_level''" "lower_key ''penalty_ttl_seconds''" "lower_key ''keys''"
  "lower_key ''entity_name''" "lower_key ''anomaly_entity_field''" "lower_key ''agg_sink_enabled''"
  "lower_key ''anomaly_sink_enabled''" "lower_key ''anomaly_store_sink_enabled''"
  by code_simp+

lemma window_tags_lower [simp]:
  "lower_key ''type''" "lower_key ''time_type''" "lower_key ''timestamp_field''"
  "lower_key ''timestamp_format''" "lower_key ''use_kafka_timestamp''" "lower_key ''size_ms''"
  "lower_key ''slide_ms''" "lower_key ''allowed_lateness_ms''" "lower_key ''alignment_offset_ms''"
  "lower_key ''alias''" "lower_key ''field''" "lower_key ''function''" "lower_key ''cardinality_hint''"
  "lower_key ''logic''" "lower_key ''conditions''" "lower_key ''operator''" "lower_key ''value''"
  "lower_key ''format''"
  by code_simp+

lemma read_field_append:
  "read_field n put (xs @ ys) v = Option.bind (read_field n put xs v) (read_field n put ys)"
  by (induction n put xs v rule: read_field.induct) (auto split: option.splits)

lemma read_omit_empty [simp]:
  "lower_key k \<Longrightarrow> lower_key n \<Longrightarrow> read_field n put (omit_empty k s) v =
     (if s = [] \<or> k \<noteq> n then Some v else put (GStr s) v)"
  by (auto simp: omit_empty_def split: option.splits)

lemma read_omit_nil [simp]:
  "lower_key k \<Longrightarrow> lower_key n \<Longrightarrow> k \<noteq> n \<Longrightarrow> read_field n put (omit_nil k so) v = Some v"
  "lower_key n \<Longrightarrow> read_field n put_string_ptr (omit_nil n so) None = Some so"
  by (auto simp: omit_nil_def split: option.splits)

lemma read_optional [simp]:
  "lower_key k \<Longrightarrow> lower_key n \<Longrightarrow>
     read_field n put (if b then [] else [(k, d)]) v = (if b \<or> k \<noteq> n then Some v else put d v)"
  by (auto split: option.splits)

lemma those_map_Some: "(\<And>x. x \<in> set xs \<Longrightarrow> f x = Some (g x)) \<Longrightarrow> those (map f xs) = Some (map g xs)"
  by (induction xs) auto

lemma read_metadata_json:
  "int64_range (rm_penalty_ttl r) \<Longrightarrow> put_struct read_metadata (metadata_json r) zero_metadata = Some r"
  by (simp add: metadata_json_def read_metadata_def read_field_append zero_metadata_def)

lemma read_grouping_json:
  "put_struct read_grouping (grouping_json g) \<lparr>gc_keys = [], gc_entity = [], gc_anomaly_field = []\<rparr> = Some g"
  by (simp add: grouping_json_def read_grouping_def read_field_append those_map_Some [where g = "\<lambda>x. x"]
      comp_def those_map_Some [where g = id])

lemma read_sinks_json: "put_sinks_ptr (sinks_json s) None = Some (Some s)"
  by (simp add: sinks_json_def read_sinks_def)

lemma read_agg_json: "put_struct read_agg (agg_json a) zero_agg = Some a"
  by (simp add: agg_json_def read_agg_def)

lemma read_windowing_json:
  "windowing_ok w \<Longrightarrow> put_struct read_windowing (windowing_json w) zero_windowing = Some w"
  by (simp add: windowing_json_def read_windowing_def windowing_ok_def)

lemma json_text_GNil [simp]: "json_text v = GNil \<longleftrightarrow> v = GNil"
  by (cases v) (auto simp: num_text_def split: option.splits)

text \<open>An element of \<open>conditions\<close> as \<open>read_filter\<close> reads it.\<close>

definition read_node :: "gval \<Rightarrow> filter_node option" where
  "read_node d = (case d of GMap kvs' \<Rightarrow> read_filter kvs' zero_filter | GNil \<Rightarrow> Some zero_filter | _ \<Rightarrow> None)"

lemma read_node_GMap:
  "read_node (GMap kvs) = do {
     ty \<leftarrow> read_field ''type'' put_string kvs (fn_type zero_filter);
     lo \<leftarrow> read_field ''logic'' put_string_ptr kvs (fn_logic zero_filter);
     cs \<leftarrow> read_field ''conditions'' (put_list read_node) kvs (fn_conditions zero_filter);
     fi \<leftarrow> read_field ''field'' put_string_ptr kvs (fn_field zero_filter);
     op \<leftarrow> read_field ''operator'' put_string_ptr kvs (fn_operator zero_filter);
     va \<leftarrow> read_field ''value'' (\<lambda>d v. Some (to_iface d)) kvs (fn_value zero_filter);
     fm \<leftarrow> read_field ''format'' put_string_ptr kvs (fn_format zero_filter);
     Some (FilterNode ty lo cs fi op va fm) }"
  by (subst read_node_def, simp, subst read_filter.simps) (simp only: read_node_def [abs_def])

lemma read_filter_json: "filter_ok f \<Longrightarrow> read_node (filter_json f) = Some f"
proof (induction f)
  case (FilterNode ty lo cs fi op va fm)
  have "those (map (\<lambda>f. read_node (filter_json f)) cs) = Some (map id cs)"
    using FilterNode by (intro those_map_Some) (auto simp: list_all_iff)
  then have cs: "put_list read_node (GList (map filter_json cs)) [] = Some cs"
    by (simp add: comp_def)
  have va: "to_iface (json_text va) = va"
    using FilterNode.prems by (simp add: json_stable_round)
  show ?case
    unfolding filter_json.simps read_node_GMap
    by (simp add: read_field_append zero_filter_def cs va del: put_list.simps)
qed

lemma put_filter_ptr_json: "filter_ok f \<Longrightarrow> put_filter_ptr (filter_json f) None = Some (Some f)"
  using read_filter_json [of f] by (cases f) (simp add: read_node_def)

lemma rule_json_round: "rule_ok r \<Longrightarrow> rule_of_json (rule_json r) = Some r"
proof -
  assume ok: "rule_ok r"
  have aggs: "those (map ((\<lambda>d. put_struct read_agg d zero_agg) \<circ> agg_json) (vr_aggs r)) = Some (vr_aggs r)"
    using those_map_Some [of "vr_aggs r" "\<lambda>a. put_struct read_agg (agg_json a) zero_agg" id]
    by (simp add: read_agg_json comp_def)
  have filt: "put_filter_ptr (case vr_filters r of None \<Rightarrow> GNil | Some f \<Rightarrow> filter_json f) None = Some (vr_filters r)"
    using ok by (auto simp: rule_ok_def put_filter_ptr_json split: option.splits)
  have meta: "put_struct read_metadata (metadata_json (vr_meta r)) zero_metadata = Some (vr_meta r)"
    and wind: "put_struct read_windowing (windowing_json (vr_windowing r)) zero_windowing = Some (vr_windowing r)"
    using ok by (auto simp: rule_ok_def read_metadata_json read_windowing_json)
  have sinks: "put_sinks_ptr (sinks_json s) None = Some (Some s)" for s by (rule read_sinks_json)
  show ?thesis
    by (cases "vr_sinks r")
      (simp_all add: rule_of_json_def rule_json_def read_rule_def zero_rule_def read_field_append
        aggs filt meta wind sinks read_grouping_json)
qed

section \<open>Rule dictionaries\<close>

text \<open>
  The handlers that change a status decode the stored payload into a
  \<open>map[string]interface{}\<close>, overwrite the status in the nested metadata map if there is one,
  and encode the result. The metadata map is shared, so the write is seen through the outer map.
\<close>

definition dict_of_json :: "gval \<Rightarrow> row option" where
  "dict_of_json d = (case to_iface d of GMap kvs \<Rightarrow> Some kvs | GNil \<Rightarrow> Some [] | _ \<Rightarrow> None)"

definition dict_set_status :: "string \<Rightarrow> row \<Rightarrow> row" where
  "dict_set_status st dict =
     (case as_map (row_val dict ''rule_metadata'') of
        None \<Rightarrow> dict
      | Some rm \<Rightarrow> row_set ''rule_metadata'' (GMap (row_set ''status'' (GStr st) rm)) dict)"

definition dict_json :: "row \<Rightarrow> gval" where
  "dict_json dict = json_text (GMap dict)"

text \<open>What a reader of the payload sees as the rule's id and status.\<close>

definition doc_meta :: "gval \<Rightarrow> string \<Rightarrow> string option" where
  "doc_meta d k =
     (case as_map d of None \<Rightarrow> None
      | Some kvs \<Rightarrow> (case as_map (row_val kvs ''rule_metadata'') of None \<Rightarrow> None
          | Some rm \<Rightarrow> as_str (row_val rm k)))"

lemma map_of_map_snd: "map_of (map (\<lambda>(k, v). (k, f v)) kvs) k = map_option f (map_of kvs k)"
  by (induction kvs) auto

lemma as_str_to_iface [simp]: "as_str (to_iface v) = as_str v"
  by (cases v) auto

lemma as_str_json_text [simp]: "as_str (json_text v) = as_str v"
  by (cases v) (auto simp: num_text_def split: option.splits)

lemma row_val_map_iface [simp]: "row_val (map (\<lambda>(k, v). (k, to_iface v)) kvs) k = to_iface (row_val kvs k)"
  by (auto simp: row_val_def map_of_map_snd split: option.splits)

lemma row_val_map_text [simp]: "row_val (map (\<lambda>(k, v). (k, json_text v)) kvs) k = json_text (row_val kvs k)"
  by (auto simp: row_val_def map_of_map_snd split: option.splits)

lemma as_map_to_iface: "as_map (to_iface v) = map_option (map (\<lambda>(k, v). (k, to_iface v))) (as_map v)"
  by (cases v) auto

lemma as_map_json_text: "as_map (json_text v) = map_option (map (\<lambda>(k, v). (k, json_text v))) (as_map v)"
  by (cases v) (auto simp: num_text_def split: option.splits)

lemma doc_meta_rule_json [simp]:
  "doc_meta (rule_json r) ''rule_id'' = Some (rm_id (vr_meta r))"
  "doc_meta (rule_json r) ''status'' = Some (rm_status (vr_meta r))"
  by (simp_all add: doc_meta_def rule_json_def metadata_json_def row_val_def omit_empty_def)

lemma dict_of_json_meta:
  assumes "doc_meta d ''rule_id'' = Some rid"
  obtains dict where "dict_of_json d = Some dict" and "doc_meta (GMap dict) ''rule_id'' = Some rid"
proof -
  obtain kvs where d: "d = GMap kvs"
    using assms by (cases d) (auto simp: doc_meta_def)
  show ?thesis
    by (rule that [of "map (\<lambda>(k, v). (k, to_iface v)) kvs"])
      (use assms in \<open>auto simp: d dict_of_json_def doc_meta_def as_map_to_iface split: option.splits\<close>)
qed

lemma dict_set_status_meta:
  assumes "doc_meta (GMap dict) ''rule_id'' = Some rid"
  shows "doc_meta (GMap (dict_set_status st dict)) ''rule_id'' = Some rid"
    and "doc_meta (GMap (dict_set_status st dict)) ''status'' = Some st"
  using assms by (auto simp: dict_set_status_def doc_meta_def split: option.splits)

lemma doc_meta_dict_json [simp]: "doc_meta (dict_json dict) k = doc_meta (GMap dict) k"
  by (auto simp: dict_json_def doc_meta_def as_map_json_text split: option.splits)

section \<open>Properties\<close>

text \<open>C39. Encoding a rule and decoding it gives the rule back, field by field, filter tree
  included: the stored payload of a rule is the rule.\<close>

theorem rule_json_roundtrip:
  assumes "rule_ok r"
  shows "rule_of_json (rule_json r) = Some r"
  using rule_json_round [OF assms] .

definition demo_rule :: velocity_rule where
  "demo_rule = \<lparr>
     vr_meta = \<lparr>rm_id = ''R1'', rm_name = ''Velocity'', rm_status = ''DRAFT'', rm_severity = ''HIGH'', rm_penalty_ttl = 60\<rparr>,
     vr_topic = ''TXN'',
     vr_filters = Some (FilterNode ''GROUP'' (Some ''AND'')
       [FilterNode ''CONDITION'' None [] (Some ''amount'') (Some ''GT'') (GStr ''100'') None] None None GNil None),
     vr_grouping = \<lparr>gc_keys = [''uid''], gc_entity = ''uid'', gc_anomaly_field = []\<rparr>,
     vr_windowing = \<lparr>wc_type = ''TUMBLING'', wc_time_type = ''EVENT'', wc_ts_field = ''ts'', wc_ts_format = [],
       wc_kafka_ts = False, wc_size_ms = 300000, wc_slide_ms = 300000, wc_lateness_ms = 0, wc_offset_ms = 0\<rparr>,
     vr_aggs = [\<lparr>ag_alias = ''c'', ag_field = ''uid'', ag_function = ''COUNT'', ag_cardinality = ''LOW''\<rparr>],
     vr_having = ''c > 5'', vr_sinks = None\<rparr>"

lemma demo_rule_ok: "rule_ok demo_rule"
  by (simp add: rule_ok_def demo_rule_def windowing_ok_def int64_range_def)

theorem rule_json_roundtrip_witness:
  "rule_of_json (rule_json demo_rule) = Some demo_rule"
  by (rule rule_json_roundtrip [OF demo_rule_ok])

end
