(* ===== verification/Naming.thy ===== *)
theory Naming
  imports RuleModel
begin

text \<open>
  \<open>internal/store/naming.go\<close>: the generated rule name and description. \<open>lower\<close> is
  \<open>strings.ToLower\<close>, whose Unicode tables are library data.
\<close>

section \<open>Model\<close>

definition lastPathSegment :: "string \<Rightarrow> string" where
  "lastPathSegment field = (if field = [] then [] else last (split_on CHR ''.'' field))"

definition humanMs :: "int \<Rightarrow> string" where
  "humanMs ms =
     (if ms \<le> 0 then ''0ms''
      else if ms < 1000 then show_int ms @ ''ms''
      else let sec = go_div ms 1000 in
      if sec < 60 then show_int sec @ ''s''
      else let mins = go_div sec 60 in
      if mins < 60 then
        (let remSec = go_mod sec 60
         in if remSec = 0 then show_int mins @ ''m'' else show_int mins @ ''m'' @ show_int remSec @ ''s'')
      else let hr = go_div mins 60; remMin = go_mod mins 60
        in if remMin = 0 then show_int hr @ ''h'' else show_int hr @ ''h'' @ show_int remMin @ ''m'')"

definition formatWindowPart :: "windowing_config \<Rightarrow> string" where
  "formatWindowPart w =
     (let sz = humanMs (wc_size_ms w)
      in if wc_type w = ''SLIDING'' then ''SLD_'' @ sz @ ''_'' @ humanMs (wc_slide_ms w)
         else ''TBL_'' @ sz)"

definition agg_name_part :: "aggregation_spec \<Rightarrow> string" where
  "agg_name_part a =
     (let fieldShort = lastPathSegment (ag_field a)
      in if ag_function a = ''COUNT_DISTINCT'' then ''COUNT_DISTINCT_'' @ fieldShort
         else ag_function a @ ''_'' @ fieldShort)"

definition generateRuleName :: "velocity_rule \<Rightarrow> string" where
  "generateRuleName r =
     (let aggSummary0 = join ''+'' (map agg_name_part (vr_aggs r));
          aggSummary = (if aggSummary0 = [] then ''RULE'' else aggSummary0);
          entity0 = lastPathSegment (gc_entity (vr_grouping r));
          entity = (if entity0 = [] then
                      (let e = (case gc_keys (vr_grouping r) of [] \<Rightarrow> [] | k # _ \<Rightarrow> lastPathSegment k)
                       in if e = [] \<or> e = ''__GLOBAL__'' then ''GLOBAL'' else e)
                    else entity0);
          shortID = take 8 (rm_id (vr_meta r))
      in aggSummary @ ''__'' @ entity @ ''__'' @ formatWindowPart (vr_windowing r) @ ''__'' @ shortID)"

definition agg_description :: "(string \<Rightarrow> string) \<Rightarrow> aggregation_spec \<Rightarrow> string" where
  "agg_description lower a =
     (let field = lastPathSegment (ag_field a); f = ag_function a
      in if f = ''COUNT'' then ''count of '' @ field
         else if f = ''COUNT_DISTINCT'' then ''count of distinct '' @ field
         else if f = ''SUM'' then ''sum of '' @ field
         else if f = ''AVG'' then ''average of '' @ field
         else if f = ''MIN'' then ''min of '' @ field
         else if f = ''MAX'' then ''max of '' @ field
         else lower f @ '' of '' @ field)"

definition generateRuleDescription :: "(string \<Rightarrow> string) \<Rightarrow> velocity_rule \<Rightarrow> string" where
  "generateRuleDescription lower r =
     (let aggDescs = map (agg_description lower) (vr_aggs r);
          w = vr_windowing r;
          windowDesc =
            (if wc_type w = ''SLIDING''
             then humanMs (wc_size_ms w) @ '' sliding window (slide: '' @ humanMs (wc_slide_ms w) @ '')''
             else humanMs (wc_size_ms w) @ '' tumbling window'');
          entity0 = lastPathSegment (gc_entity (vr_grouping r));
          entity = (if entity0 = [] then ''(global)'' else entity0)
      in ''Computes '' @ join '', '' aggDescs @ '' over a '' @ windowDesc @ '', monitoring '' @ entity @ ''.'')"

section \<open>Lemmas\<close>

lemma lastPathSegment_no_dot: "CHR ''.'' \<notin> set (lastPathSegment s)"
  using split_on_parts [OF last_in_set [OF split_on_not_Nil]] by (auto simp: lastPathSegment_def)

text \<open>The precision of \<open>humanMs\<close>: milliseconds below a second, seconds below an hour, minutes
  above.\<close>

definition human_floor :: "int \<Rightarrow> int" where
  "human_floor ms =
     (if ms \<le> 0 then 0 else if ms < 1000 then ms
      else if ms < 3600000 then ms div 1000 * 1000 else ms div 60000 * 60000)"

lemma human_floor_idem: "human_floor (human_floor ms) = human_floor ms"
  unfolding human_floor_def by auto

section \<open>Properties\<close>

text \<open>The window length in a rule's name and description is its size rounded down to the
  unit it is shown in: a size below an hour shows to the second, a larger one to the minute.\<close>

theorem humanMs_rounds_down:
  "humanMs ms = humanMs (human_floor ms)"
proof -
  consider "ms \<le> 0" | "0 < ms" "ms < 1000" | "1000 \<le> ms" "ms < 3600000" | "3600000 \<le> ms" by linarith
  then show ?thesis
  proof cases
    case 3
    then have "ms div 1000 * 1000 div 1000 = ms div 1000" "1 \<le> ms div 1000" by linarith+
    then have "ms div 1000 * 1000 div 1000 = ms div 1000" "1000 \<le> ms div 1000 * 1000" by linarith+
    with 3 show ?thesis by (simp add: humanMs_def human_floor_def Let_def)
  next
    case 4
    define k where "k = ms div 60000"
    have k: "60 \<le> k" "ms div 1000 div 60 = k" "60 \<le> ms div 1000"
      using 4 by (auto simp: k_def div_mult2_eq [symmetric] zdiv_zmult2_eq [symmetric])
    have k': "k * 60000 div 1000 = k * 60" "k * 60000 div 1000 div 60 = k" by linarith+
    from 4 k k' show ?thesis
      by (simp add: humanMs_def human_floor_def Let_def k_def [symmetric])
  qed (simp_all add: human_floor_def humanMs_def)
qed

text \<open>The generated name is not unique, although it is documented as such: it keeps only
  the first eight bytes of the rule's id, so two rules that agree up to there and in their
  aggregations, entity and window get the same name.\<close>

theorem rule_name_not_unique:
  "generateRuleName (demo_rule\<lparr>vr_meta := (vr_meta demo_rule)\<lparr>rm_id := ''fraud-velocity-1''\<rparr>\<rparr>)
     = generateRuleName (demo_rule\<lparr>vr_meta := (vr_meta demo_rule)\<lparr>rm_id := ''fraud-velocity-2''\<rparr>\<rparr>)"
  by (simp add: generateRuleName_def Let_def)

end
