(* ===== verification/RuleStore.thy ===== *)
theory RuleStore
  imports Naming
begin

text \<open>
  \<open>internal/services/rule_store.go\<close>: the MySQL side of the rules. The five tables are
  association lists keyed by row id (the schema is \<open>migrations/mysql/0002\<close> and \<open>0003\<close>, with
  its UNIQUE key on \<open>(rule_id, version)\<close>); each statement the code executes is a function on
  them, and may instead fail: \<open>flt\<close> says which calls do and how. A transaction that is not
  committed leaves the database as it was, and a commit that fails is taken not to have happened
  (after a lost acknowledgement it may have). \<open>rule_id\<close> is compared byte by byte: to the tables'
  collation, which ignores case, \<open>r1\<close> and \<open>R1\<close> are one rule. JSON columns hold documents.
  \<open>window_configs\<close> may not be provisioned, which the code tolerates.
\<close>

section \<open>Tables\<close>

record rules_row =
  rr_rule_id :: string
  rr_version :: int
  rr_active :: bool
  rr_name :: string
  rr_description :: string
  rr_status :: string
  rr_severity :: string
  rr_topic :: string
  rr_entity :: string
  rr_anomaly_field :: string
  rr_keys :: gval
  rr_filters :: "gval option"

record sink_row =
  sr_sinks :: sink_config
  sr_penalty_ttl :: int

record agg_row =
  ar_rule_row :: nat
  ar_alias :: string
  ar_function :: string
  ar_field :: string
  ar_high :: bool
  ar_order :: int

record rule_db =
  db_rules :: "(nat \<times> rules_row) list"
  db_windows :: "(nat \<times> windowing_config) list"
  db_sinks :: "(nat \<times> sink_row) list"
  db_aggs :: "agg_row list"
  db_breaches :: "(nat \<times> string) list"
  db_next :: nat
  db_has_windows :: bool

definition empty_rule_db :: "bool \<Rightarrow> rule_db" where
  "empty_rule_db windows = \<lparr>db_rules = [], db_windows = [], db_sinks = [], db_aggs = [], db_breaches = [],
     db_next = 1, db_has_windows = windows\<rparr>"

datatype db_error = MissingSchema | DuplicateKey | DbFailure

datatype db_call =
    GetDB | BeginTx | Deactivate | InsertRule | LastInsertId | InsertWindow | InsertSink
  | InsertAgg nat | InsertBreach | Commit | UpdateStatus
  | QueryRules | QueryWindows | QuerySinks | QueryAggs | QueryBreaches

type_synonym faults = "db_call \<Rightarrow> db_error option"

abbreviation no_faults :: faults where
  "no_faults \<equiv> \<lambda>_. None"

text \<open>\<open>call flt c f\<close>: the call \<open>c\<close> fails as \<open>flt\<close> says, or does \<open>f\<close>.\<close>

definition db_exec :: "faults \<Rightarrow> db_call \<Rightarrow> (db_error + 'a) \<Rightarrow> db_error + 'a" where
  "db_exec flt c res = (case flt c of Some e \<Rightarrow> Inl e | None \<Rightarrow> res)"

definition and_then :: "'e + 'a \<Rightarrow> ('a \<Rightarrow> 'e + 'b) \<Rightarrow> 'e + 'b" where
  "and_then r f = (case r of Inl e \<Rightarrow> Inl e | Inr x \<Rightarrow> f x)"

section \<open>Statements\<close>

definition sql_deactivate :: "string \<Rightarrow> rule_db \<Rightarrow> rule_db" where
  "sql_deactivate rid db =
     db\<lparr>db_rules := map (\<lambda>(i, r). (i, if rr_rule_id r = rid \<and> rr_active r then r\<lparr>rr_active := False\<rparr> else r)) (db_rules db)\<rparr>"

definition sql_insert_rule :: "rules_row \<Rightarrow> rule_db \<Rightarrow> db_error + (rule_db \<times> nat)" where
  "sql_insert_rule row db =
     (if list_ex (\<lambda>(i, r). rr_rule_id r = rr_rule_id row \<and> rr_version r = rr_version row) (db_rules db)
      then Inl DuplicateKey
      else Inr (db\<lparr>db_rules := db_rules db @ [(db_next db, row)], db_next := db_next db + 1\<rparr>, db_next db))"

definition sql_insert_window :: "nat \<Rightarrow> windowing_config \<Rightarrow> rule_db \<Rightarrow> db_error + rule_db" where
  "sql_insert_window i w db =
     (if db_has_windows db then Inr (db\<lparr>db_windows := db_windows db @ [(i, w)]\<rparr>) else Inl MissingSchema)"

definition sql_update_status :: "string \<Rightarrow> string \<Rightarrow> bool \<Rightarrow> rule_db \<Rightarrow> rule_db" where
  "sql_update_status rid st deactivate db =
     db\<lparr>db_rules := map (\<lambda>(i, r). (i, if rr_rule_id r = rid \<and> rr_active r
          then (if deactivate then r\<lparr>rr_status := st, rr_active := False\<rparr> else r\<lparr>rr_status := st\<rparr>)
          else r)) (db_rules db)\<rparr>"

section \<open>SaveNewRuleVersion\<close>

definition rules_row_of :: "(string \<Rightarrow> string) \<Rightarrow> velocity_rule \<Rightarrow> int \<Rightarrow> rules_row" where
  "rules_row_of lower rule version =
     \<lparr>rr_rule_id = rm_id (vr_meta rule), rr_version = version, rr_active = True,
      rr_name = rm_name (vr_meta rule), rr_description = generateRuleDescription lower rule,
      rr_status = rm_status (vr_meta rule), rr_severity = rm_severity (vr_meta rule),
      rr_topic = vr_topic rule, rr_entity = gc_entity (vr_grouping rule),
      rr_anomaly_field = gc_anomaly_field (vr_grouping rule),
      rr_keys = GList (map GStr (gc_keys (vr_grouping rule))),
      rr_filters = map_option filter_json (vr_filters rule)\<rparr>"

definition sink_row_of :: "velocity_rule \<Rightarrow> sink_row" where
  "sink_row_of rule =
     \<lparr>sr_sinks = (case vr_sinks rule of None \<Rightarrow> zero_sinks | Some s \<Rightarrow> s),
      sr_penalty_ttl = rm_penalty_ttl (vr_meta rule)\<rparr>"

definition agg_row_of :: "nat \<Rightarrow> nat \<Rightarrow> aggregation_spec \<Rightarrow> agg_row" where
  "agg_row_of rowid i agg =
     \<lparr>ar_rule_row = rowid, ar_alias = ag_alias agg, ar_function = ag_function agg, ar_field = ag_field agg,
      ar_high = (ag_cardinality agg = ''HIGH''), ar_order = int i + 1\<rparr>"

fun insert_aggs :: "faults \<Rightarrow> nat \<Rightarrow> nat \<Rightarrow> aggregation_spec list \<Rightarrow> rule_db \<Rightarrow> db_error + rule_db" where
  "insert_aggs flt rowid i [] db = Inr db"
| "insert_aggs flt rowid i (agg # aggs) db =
     and_then (db_exec flt (InsertAgg i) (Inr (db\<lparr>db_aggs := db_aggs db @ [agg_row_of rowid i agg]\<rparr>)))
       (insert_aggs flt rowid (Suc i) aggs)"

definition save_in_tx ::
  "(string \<Rightarrow> string) \<Rightarrow> faults \<Rightarrow> velocity_rule \<Rightarrow> int \<Rightarrow> rule_db \<Rightarrow> db_error + rule_db" where
  "save_in_tx lower flt rule version db =
     and_then (db_exec flt Deactivate (Inr (sql_deactivate (rm_id (vr_meta rule)) db))) (\<lambda>db1.
     and_then (db_exec flt InsertRule (sql_insert_rule (rules_row_of lower rule version) db1)) (\<lambda>(db2, rowid).
     and_then (db_exec flt LastInsertId (Inr ())) (\<lambda>_.
     and_then (case db_exec flt InsertWindow (sql_insert_window rowid (vr_windowing rule) db2) of
                 Inl MissingSchema \<Rightarrow> Inr db2 | r \<Rightarrow> r) (\<lambda>db3.
     and_then (db_exec flt InsertSink (Inr (db3\<lparr>db_sinks := db_sinks db3 @ [(rowid, sink_row_of rule)]\<rparr>))) (\<lambda>db4.
     and_then (insert_aggs flt rowid 0 (vr_aggs rule) db4) (\<lambda>db5.
     if vr_having rule = [] then Inr db5
     else db_exec flt InsertBreach (Inr (db5\<lparr>db_breaches := db_breaches db5 @ [(rowid, vr_having rule)]\<rparr>))))))))"

definition saveNewRuleVersion ::
  "(string \<Rightarrow> string) \<Rightarrow> faults \<Rightarrow> velocity_rule \<Rightarrow> int \<Rightarrow> rule_db \<Rightarrow> (db_error + unit) \<times> rule_db" where
  "saveNewRuleVersion lower flt rule version db =
     (case and_then (db_exec flt GetDB (Inr ())) (\<lambda>_.
           and_then (db_exec flt BeginTx (Inr ())) (\<lambda>_.
           and_then (save_in_tx lower flt rule version db) (\<lambda>db'.
           db_exec flt Commit (Inr db')))) of
        Inl e \<Rightarrow> (Inl e, db)
      | Inr db' \<Rightarrow> (Inr (), db'))"

section \<open>UpdateRuleStatusInPlace\<close>

definition updateRuleStatusInPlace ::
  "faults \<Rightarrow> string \<Rightarrow> string \<Rightarrow> bool \<Rightarrow> rule_db \<Rightarrow> (db_error + unit) \<times> rule_db" where
  "updateRuleStatusInPlace flt rid st deactivate db =
     (case and_then (db_exec flt GetDB (Inr ())) (\<lambda>_.
           db_exec flt UpdateStatus (Inr (sql_update_status rid st deactivate db))) of
        Inl e \<Rightarrow> (Inl e, db)
      | Inr db' \<Rightarrow> (Inr (), db'))"

section \<open>LoadActiveRules\<close>

text \<open>
  Each side query fills a map from row id; a later row for the same id overwrites. The
  aggregations come ordered by their position. \<open>queried\<close> restricts a table to the IN list.
\<close>

definition queried :: "nat list \<Rightarrow> (nat \<times> 'a) list \<Rightarrow> nat \<Rightarrow> 'a option" where
  "queried ids tbl i = map_of (rev (filter (\<lambda>(j, _). j \<in> set ids) tbl)) i"

definition agg_of_row :: "agg_row \<Rightarrow> aggregation_spec" where
  "agg_of_row a = \<lparr>ag_alias = ar_alias a, ag_field = ar_field a, ag_function = ar_function a,
     ag_cardinality = (if ar_high a then ''HIGH'' else ''LOW'')\<rparr>"

definition queried_aggs :: "nat list \<Rightarrow> agg_row list \<Rightarrow> nat \<Rightarrow> aggregation_spec list" where
  "queried_aggs ids tbl i =
     map agg_of_row (sort_key ar_order (filter (\<lambda>a. ar_rule_row a \<in> set ids \<and> ar_rule_row a = i) tbl))"

definition keys_of_json :: "gval \<Rightarrow> string list option" where
  "keys_of_json d = put_list (\<lambda>e. put_string e []) d []"

definition load_rule ::
  "(nat \<Rightarrow> windowing_config option) \<Rightarrow> (nat \<Rightarrow> sink_row option) \<Rightarrow> (nat \<Rightarrow> aggregation_spec list)
     \<Rightarrow> (nat \<Rightarrow> string option) \<Rightarrow> nat \<Rightarrow> rules_row \<Rightarrow> rule_record option" where
  "load_rule windows sinks aggs breaches i r =
     do {
       keys \<leftarrow> keys_of_json (rr_keys r);
       filters \<leftarrow> (case rr_filters r of None \<Rightarrow> Some None
                    | Some d \<Rightarrow> map_option Some (put_struct read_filter d zero_filter));
       let s = (case sinks i of None \<Rightarrow> \<lparr>sr_sinks = zero_sinks, sr_penalty_ttl = 0\<rparr> | Some s \<Rightarrow> s);
       let rule = \<lparr>vr_meta = \<lparr>rm_id = rr_rule_id r, rm_name = rr_name r, rm_status = rr_status r,
                              rm_severity = rr_severity r, rm_penalty_ttl = sr_penalty_ttl s\<rparr>,
                   vr_topic = rr_topic r, vr_filters = filters,
                   vr_grouping = \<lparr>gc_keys = keys, gc_entity = rr_entity r, gc_anomaly_field = rr_anomaly_field r\<rparr>,
                   vr_windowing = (case windows i of None \<Rightarrow> zero_windowing | Some w \<Rightarrow> w),
                   vr_aggs = aggs i,
                   vr_having = (case breaches i of None \<Rightarrow> [] | Some e \<Rightarrow> e),
                   vr_sinks = Some (sr_sinks s)\<rparr>;
       Some \<lparr>rec_id = rr_rule_id r, rec_name = rr_name r, rec_status = rr_status r,
             rec_payload = rule_json rule,
             rec_published = (rr_status r = ''ACTIVE'' \<or> rr_status r = ''PAUSED''),
             rec_version = rr_version r\<rparr> }"

fun load_loop :: "(nat \<Rightarrow> rules_row \<Rightarrow> rule_record option) \<Rightarrow> (nat \<times> rules_row) list
    \<Rightarrow> (string \<rightharpoonup> rule_record) \<Rightarrow> (string \<rightharpoonup> rule_record) option" where
  "load_loop ld [] res = Some res"
| "load_loop ld ((i, r) # rows) res =
     (case ld i r of None \<Rightarrow> None | Some rec \<Rightarrow> load_loop ld rows (res(rr_rule_id r \<mapsto> rec)))"

text \<open>The four side queries. Only the one on \<open>window_configs\<close> does without its table.\<close>

definition load_windows :: "faults \<Rightarrow> nat list \<Rightarrow> rule_db \<Rightarrow> db_error + (nat \<Rightarrow> windowing_config option)" where
  "load_windows flt ids db =
     (case db_exec flt QueryWindows (if db_has_windows db then Inr (queried ids (db_windows db)) else Inl MissingSchema) of
        Inl MissingSchema \<Rightarrow> Inr Map.empty | r \<Rightarrow> r)"

definition load_sinks :: "faults \<Rightarrow> nat list \<Rightarrow> rule_db \<Rightarrow> db_error + (nat \<Rightarrow> sink_row option)" where
  "load_sinks flt ids db = db_exec flt QuerySinks (Inr (queried ids (db_sinks db)))"

definition load_aggs :: "faults \<Rightarrow> nat list \<Rightarrow> rule_db \<Rightarrow> db_error + (nat \<Rightarrow> aggregation_spec list)" where
  "load_aggs flt ids db = db_exec flt QueryAggs (Inr (queried_aggs ids (db_aggs db)))"

definition load_breaches :: "faults \<Rightarrow> nat list \<Rightarrow> rule_db \<Rightarrow> db_error + (nat \<Rightarrow> string option)" where
  "load_breaches flt ids db = db_exec flt QueryBreaches (Inr (queried ids (db_breaches db)))"

lemmas load_defs = load_windows_def load_sinks_def load_aggs_def load_breaches_def

definition loadActiveRules :: "faults \<Rightarrow> rule_db \<Rightarrow> db_error + (string \<rightharpoonup> rule_record)" where
  "loadActiveRules flt db =
     and_then (db_exec flt GetDB (Inr ())) (\<lambda>_.
     and_then (db_exec flt QueryRules (Inr (filter (\<lambda>(i, r). rr_active r) (db_rules db)))) (\<lambda>rows.
     if rows = [] then Inr Map.empty
     else (let ids = map fst rows in
     and_then (load_windows flt ids db) (\<lambda>windows.
     and_then (load_sinks flt ids db) (\<lambda>sinks.
     and_then (load_aggs flt ids db) (\<lambda>aggs.
     and_then (load_breaches flt ids db) (\<lambda>breaches.
     case load_loop (load_rule windows sinks aggs breaches) rows Map.empty of
       None \<Rightarrow> Inl DbFailure | Some res \<Rightarrow> Inr res)))))))"

end
