(* ===== verification/RuleStore_Props.thy ===== *)
theory RuleStore_Props
  imports RuleStore
begin

text \<open>
  What the rule store promises: its statements keep the tables consistent (one active version
  per rule, versions unique, side rows owned by existing row ids), a saved version is what a
  restart loads, a status change is what a restart loads, and failures leave no trace.
\<close>

section \<open>The results of fallible calls\<close>

lemma and_then_simps [simp]: "and_then (Inl e) f = Inl e" "and_then (Inr x) f = f x"
  by (simp_all add: and_then_def)

lemma and_then_Inr: "and_then r f = Inr y \<longleftrightarrow> (\<exists>x. r = Inr x \<and> f x = Inr y)"
  by (cases r) auto

lemma db_exec_Inr: "db_exec flt c res = Inr y \<longleftrightarrow> flt c = None \<and> res = Inr y"
  by (auto simp: db_exec_def split: option.splits)

lemma db_exec_no_faults [simp]: "db_exec no_faults c res = res"
  by (simp add: db_exec_def)

section \<open>Invariant\<close>

definition active_rows :: "rule_db \<Rightarrow> (nat \<times> rules_row) list" where
  "active_rows db = filter (\<lambda>(i, r). rr_active r) (db_rules db)"

definition used_ids :: "rule_db \<Rightarrow> nat set" where
  "used_ids db = set (map fst (db_rules db)) \<union> set (map fst (db_windows db)) \<union> set (map fst (db_sinks db))
     \<union> set (map fst (db_breaches db)) \<union> set (map ar_rule_row (db_aggs db))"

definition rule_db_ok :: "rule_db \<Rightarrow> bool" where
  "rule_db_ok db \<longleftrightarrow>
     distinct (map fst (db_rules db)) \<and>
     distinct (map (\<lambda>(i, r). (rr_rule_id r, rr_version r)) (db_rules db)) \<and>
     distinct (map (\<lambda>(i, r). rr_rule_id r) (active_rows db)) \<and>
     (\<forall>i \<in> used_ids db. i < db_next db)"

lemma rule_db_ok_empty: "rule_db_ok (empty_rule_db w)"
  by (simp add: rule_db_ok_def empty_rule_db_def active_rows_def used_ids_def)

lemma deactivate_simps [simp]:
  "db_windows (sql_deactivate rid db) = db_windows db" "db_sinks (sql_deactivate rid db) = db_sinks db"
  "db_aggs (sql_deactivate rid db) = db_aggs db" "db_breaches (sql_deactivate rid db) = db_breaches db"
  "db_next (sql_deactivate rid db) = db_next db" "db_has_windows (sql_deactivate rid db) = db_has_windows db"
  "map fst (db_rules (sql_deactivate rid db)) = map fst (db_rules db)"
  "map (\<lambda>(i, r). (rr_rule_id r, rr_version r)) (db_rules (sql_deactivate rid db))
     = map (\<lambda>(i, r). (rr_rule_id r, rr_version r)) (db_rules db)"
  by (auto simp: sql_deactivate_def)

lemma active_deactivate:
  "active_rows (sql_deactivate rid db) = filter (\<lambda>(i, r). rr_rule_id r \<noteq> rid) (active_rows db)"
proof -
  have "filter (\<lambda>(i, r). rr_active r)
      (map (\<lambda>(i, r). (i, if rr_rule_id r = rid \<and> rr_active r then r\<lparr>rr_active := False\<rparr> else r)) rows)
    = filter (\<lambda>(i, r). rr_rule_id r \<noteq> rid) (filter (\<lambda>(i, r). rr_active r) rows)" for rows :: "(nat \<times> rules_row) list"
    by (induction rows) (auto split: if_splits)
  then show ?thesis by (simp add: active_rows_def sql_deactivate_def)
qed

fun agg_rows :: "nat \<Rightarrow> nat \<Rightarrow> aggregation_spec list \<Rightarrow> agg_row list" where
  "agg_rows rowid i [] = []"
| "agg_rows rowid i (a # as) = agg_row_of rowid i a # agg_rows rowid (Suc i) as"

lemma insert_aggs_Inr:
  "insert_aggs flt rowid i aggs db = Inr db' \<Longrightarrow> db' = db\<lparr>db_aggs := db_aggs db @ agg_rows rowid i aggs\<rparr>"
proof (induction flt rowid i aggs db rule: insert_aggs.induct)
  case (2 flt rowid i agg aggs db)
  then have "insert_aggs flt rowid (Suc i) aggs (db\<lparr>db_aggs := db_aggs db @ [agg_row_of rowid i agg]\<rparr>) = Inr db'"
    by (simp add: and_then_Inr db_exec_Inr)
  from "2.IH" [OF this] show ?case by simp
qed simp

text \<open>A successful save, spelt out: what the tables hold afterwards.\<close>

definition saved_db :: "(string \<Rightarrow> string) \<Rightarrow> bool \<Rightarrow> velocity_rule \<Rightarrow> int \<Rightarrow> rule_db \<Rightarrow> rule_db" where
  "saved_db lower window rule version db =
     (let n = db_next db; db1 = sql_deactivate (rm_id (vr_meta rule)) db
      in db\<lparr>db_rules := db_rules db1 @ [(n, rules_row_of lower rule version)], db_next := n + 1,
            db_windows := db_windows db @ (if window then [(n, vr_windowing rule)] else []),
            db_sinks := db_sinks db @ [(n, sink_row_of rule)],
            db_aggs := db_aggs db @ agg_rows n 0 (vr_aggs rule),
            db_breaches := db_breaches db @ (if vr_having rule = [] then [] else [(n, vr_having rule)])\<rparr>)"

definition version_taken :: "string \<Rightarrow> int \<Rightarrow> rule_db \<Rightarrow> bool" where
  "version_taken rid v db \<longleftrightarrow> (rid, v) \<in> set (map (\<lambda>(i, r). (rr_rule_id r, rr_version r)) (db_rules db))"

lemma sql_insert_rule_Inr:
  "sql_insert_rule row (sql_deactivate rid db) = Inr (db2, n) \<longleftrightarrow>
     \<not> version_taken (rr_rule_id row) (rr_version row) db \<and> n = db_next db \<and>
     db2 = (sql_deactivate rid db)\<lparr>db_rules := db_rules (sql_deactivate rid db) @ [(db_next db, row)],
                                   db_next := db_next db + 1\<rparr>"
proof -
  have "list_ex (\<lambda>(i, r). rr_rule_id r = x \<and> rr_version r = v) rows \<longleftrightarrow>
      (x, v) \<in> set (map (\<lambda>(i, r). (rr_rule_id r, rr_version r)) rows)" for x v and rows :: "(nat \<times> rules_row) list"
    by (induction rows) auto
  then show ?thesis
    by (auto simp: sql_insert_rule_def version_taken_def simp del: set_map)
qed

lemma save_in_tx_Inr:
  assumes "save_in_tx lower flt rule version db = Inr db'"
  shows "\<not> version_taken (rm_id (vr_meta rule)) version db"
    and "\<exists>w. db' = saved_db lower w rule version db \<and> (w \<longleftrightarrow> db_has_windows db \<and> flt InsertWindow = None)"
proof -
  let ?row = "rules_row_of lower rule version"
  obtain db2 n db3 db5 where st:
    "sql_insert_rule ?row (sql_deactivate (rm_id (vr_meta rule)) db) = Inr (db2, n)"
    "(case db_exec flt InsertWindow (sql_insert_window n (vr_windowing rule) db2) of
        Inl MissingSchema \<Rightarrow> Inr db2 | r \<Rightarrow> r) = Inr db3"
    "insert_aggs flt n 0 (vr_aggs rule) (db3\<lparr>db_sinks := db_sinks db3 @ [(n, sink_row_of rule)]\<rparr>) = Inr db5"
    "(if vr_having rule = [] then Inr db5
      else db_exec flt InsertBreach (Inr (db5\<lparr>db_breaches := db_breaches db5 @ [(n, vr_having rule)]\<rparr>))) = Inr db'"
    using assms unfolding save_in_tx_def by (auto simp: and_then_Inr db_exec_Inr)
  note ins = st(1) [unfolded sql_insert_rule_Inr]
  show "\<not> version_taken (rm_id (vr_meta rule)) version db"
    using ins by (simp add: rules_row_of_def)
  let ?w = "db_has_windows db \<and> flt InsertWindow = None"
  have w: "db3 = db2\<lparr>db_windows := db_windows db2 @ (if ?w then [(n, vr_windowing rule)] else [])\<rparr>"
    using st(2) ins
    by (auto simp: db_exec_def sql_insert_window_def split: option.splits db_error.splits if_splits)
  have "db' = saved_db lower ?w rule version db"
    using st(4) insert_aggs_Inr [OF st(3)] w ins
    by (auto simp: saved_db_def Let_def db_exec_Inr split: if_splits)
  then show "\<exists>w. db' = saved_db lower w rule version db \<and> (w \<longleftrightarrow> ?w)" by blast
qed

lemma saveNewRuleVersion_cases:
  obtains (failed) e where "saveNewRuleVersion lower flt rule version db = (Inl e, db)"
  | (saved) w where "saveNewRuleVersion lower flt rule version db = (Inr (), saved_db lower w rule version db)"
      "\<not> version_taken (rm_id (vr_meta rule)) version db"
      "w \<longleftrightarrow> db_has_windows db \<and> flt InsertWindow = None"
proof (cases "and_then (db_exec flt GetDB (Inr ())) (\<lambda>_.
           and_then (db_exec flt BeginTx (Inr ())) (\<lambda>_.
           and_then (save_in_tx lower flt rule version db) (\<lambda>db'.
           db_exec flt Commit (Inr db'))))")
  case (Inl e)
  then show thesis by (intro failed) (simp add: saveNewRuleVersion_def)
next
  case (Inr db')
  then have tx: "save_in_tx lower flt rule version db = Inr db'"
    by (auto simp: and_then_Inr db_exec_Inr)
  from save_in_tx_Inr [OF tx] Inr show thesis
    by (intro saved) (auto simp: saveNewRuleVersion_def)
qed

section \<open>The invariant is kept\<close>

lemma set_agg_rows: "a \<in> set (agg_rows n i aggs) \<Longrightarrow> ar_rule_row a = n"
  by (induction n i aggs rule: agg_rows.induct) (auto simp: agg_row_of_def)

lemma active_saved:
  "active_rows (saved_db lower w rule version db) =
     filter (\<lambda>(i, r). rr_rule_id r \<noteq> rm_id (vr_meta rule)) (active_rows db)
       @ [(db_next db, rules_row_of lower rule version)]"
  using active_deactivate [of "rm_id (vr_meta rule)" db]
  by (simp add: saved_db_def Let_def active_rows_def rules_row_of_def)

lemma saved_rules:
  "map fst (db_rules (saved_db lower w rule version db)) = map fst (db_rules db) @ [db_next db]"
  "map (\<lambda>(i, r). (rr_rule_id r, rr_version r)) (db_rules (saved_db lower w rule version db)) =
     map (\<lambda>(i, r). (rr_rule_id r, rr_version r)) (db_rules db) @ [(rm_id (vr_meta rule), version)]"
  using deactivate_simps(7,8) [of "rm_id (vr_meta rule)" db]
  by (simp_all add: saved_db_def Let_def rules_row_of_def)

lemma map_agg_rows: "set (map ar_rule_row (agg_rows n i aggs)) \<subseteq> {n}"
  by (auto dest: set_agg_rows)

lemma used_ids_saved: "used_ids (saved_db lower w rule version db) \<subseteq> insert (db_next db) (used_ids db)"
proof -
  let ?db' = "saved_db lower w rule version db"
  have "set (map fst (db_rules ?db')) \<subseteq> insert (db_next db) (used_ids db)"
    unfolding saved_rules by (simp add: used_ids_def) blast
  moreover have "set (map fst (db_windows ?db')) \<subseteq> insert (db_next db) (used_ids db)"
    and "set (map fst (db_sinks ?db')) \<subseteq> insert (db_next db) (used_ids db)"
    and "set (map fst (db_breaches ?db')) \<subseteq> insert (db_next db) (used_ids db)"
    by (auto simp: saved_db_def Let_def used_ids_def)
  moreover have "set (map ar_rule_row (db_aggs ?db')) \<subseteq> insert (db_next db) (used_ids db)"
    using map_agg_rows [of "db_next db" 0 "vr_aggs rule"]
    by (auto simp: saved_db_def Let_def used_ids_def)
  ultimately show ?thesis unfolding used_ids_def [of ?db'] by blast
qed

lemma saved_db_ok:
  assumes ok: "rule_db_ok db" and fresh: "\<not> version_taken (rm_id (vr_meta rule)) version db"
  shows "rule_db_ok (saved_db lower w rule version db)"
proof -
  let ?db' = "saved_db lower w rule version db" and ?rid = "rm_id (vr_meta rule)"
  let ?old = "filter (\<lambda>(i, r). rr_rule_id r \<noteq> ?rid) (active_rows db)"
  have next': "db_next ?db' = Suc (db_next db)" by (simp add: saved_db_def Let_def)
  have lt: "i < db_next db" if "i \<in> used_ids db" for i
    using ok that by (simp add: rule_db_ok_def)
  have "distinct (map (\<lambda>(i, r). rr_rule_id r) ?old)"
    using ok by (intro distinct_map_filter) (simp add: rule_db_ok_def)
  moreover have "?rid \<notin> set (map (\<lambda>(i, r). rr_rule_id r) ?old)" by auto
  ultimately have "distinct (map (\<lambda>(i, r). rr_rule_id r) (active_rows ?db'))"
    unfolding active_saved by (simp add: rules_row_of_def del: set_map)
  moreover have "db_next db \<notin> set (map fst (db_rules db))"
    using lt by (fastforce simp: used_ids_def)
  then have "distinct (map fst (db_rules ?db'))"
    using ok unfolding saved_rules by (simp add: rule_db_ok_def del: set_map)
  moreover have "distinct (map (\<lambda>(i, r). (rr_rule_id r, rr_version r)) (db_rules ?db'))"
    using ok fresh unfolding saved_rules by (simp add: rule_db_ok_def version_taken_def del: set_map)
  moreover have "\<forall>i \<in> used_ids ?db'. i < db_next ?db'"
    using used_ids_saved [of lower w rule version db] lt unfolding next' by fastforce
  ultimately show ?thesis unfolding rule_db_ok_def by blast
qed

section \<open>Status updates\<close>

definition touch_status :: "string \<Rightarrow> bool \<Rightarrow> rules_row \<Rightarrow> rules_row" where
  "touch_status st deactivate r =
     (if deactivate then r\<lparr>rr_status := st, rr_active := False\<rparr> else r\<lparr>rr_status := st\<rparr>)"

lemma update_status_simps [simp]:
  "db_windows (sql_update_status rid st de db) = db_windows db" "db_sinks (sql_update_status rid st de db) = db_sinks db"
  "db_aggs (sql_update_status rid st de db) = db_aggs db" "db_breaches (sql_update_status rid st de db) = db_breaches db"
  "db_next (sql_update_status rid st de db) = db_next db"
  "db_has_windows (sql_update_status rid st de db) = db_has_windows db"
  "map fst (db_rules (sql_update_status rid st de db)) = map fst (db_rules db)"
  "map (\<lambda>(i, r). (rr_rule_id r, rr_version r)) (db_rules (sql_update_status rid st de db))
     = map (\<lambda>(i, r). (rr_rule_id r, rr_version r)) (db_rules db)"
  by (auto simp: sql_update_status_def)

lemma active_update_delete:
  "active_rows (sql_update_status rid st True db) = filter (\<lambda>(i, r). rr_rule_id r \<noteq> rid) (active_rows db)"
proof -
  have "filter (\<lambda>(i, r). rr_active r)
      (map (\<lambda>(i, r). (i, if rr_rule_id r = rid \<and> rr_active r
          then (if True then r\<lparr>rr_status := st, rr_active := False\<rparr> else r\<lparr>rr_status := st\<rparr>) else r)) rows)
    = filter (\<lambda>(i, r). rr_rule_id r \<noteq> rid) (filter (\<lambda>(i, r). rr_active r) rows)" for rows :: "(nat \<times> rules_row) list"
    by (induction rows) (auto split: if_splits)
  then show ?thesis by (simp add: active_rows_def sql_update_status_def)
qed

lemma active_update_keep:
  "active_rows (sql_update_status rid st False db) =
     map (\<lambda>(i, r). (i, if rr_rule_id r = rid then r\<lparr>rr_status := st\<rparr> else r)) (active_rows db)"
proof -
  have "filter (\<lambda>(i, r). rr_active r)
      (map (\<lambda>(i, r). (i, if rr_rule_id r = rid \<and> rr_active r
          then (if False then r\<lparr>rr_status := st, rr_active := False\<rparr> else r\<lparr>rr_status := st\<rparr>) else r)) rows)
    = map (\<lambda>(i, r). (i, if rr_rule_id r = rid then r\<lparr>rr_status := st\<rparr> else r)) (filter (\<lambda>(i, r). rr_active r) rows)"
    for rows :: "(nat \<times> rules_row) list"
    by (induction rows) (auto split: if_splits)
  then show ?thesis by (simp add: active_rows_def sql_update_status_def)
qed

lemma update_status_ok:
  assumes ok: "rule_db_ok db"
  shows "rule_db_ok (sql_update_status rid st de db)"
proof -
  let ?db' = "sql_update_status rid st de db"
  have "distinct (map (\<lambda>(i, r). rr_rule_id r) (active_rows ?db'))"
  proof (cases de)
    case True
    with ok show ?thesis by (simp add: active_update_delete rule_db_ok_def distinct_map_filter)
  next
    case False
    have "map (\<lambda>(i, r). rr_rule_id r) (active_rows ?db') = map (\<lambda>(i, r). rr_rule_id r) (active_rows db)"
      using False by (auto simp: active_update_keep)
    with ok show ?thesis by (simp add: rule_db_ok_def)
  qed
  moreover have "used_ids ?db' = used_ids db"
    by (simp only: used_ids_def update_status_simps)
  ultimately show ?thesis
    using ok unfolding rule_db_ok_def update_status_simps by simp
qed

lemma updateRuleStatusInPlace_cases:
  obtains (failed) e where "updateRuleStatusInPlace flt rid st de db = (Inl e, db)"
  | (updated) "updateRuleStatusInPlace flt rid st de db = (Inr (), sql_update_status rid st de db)"
  unfolding updateRuleStatusInPlace_def db_exec_def
  by (cases "flt GetDB"; cases "flt UpdateStatus") auto

section \<open>What a restart loads\<close>

text \<open>
  Loading looks every active row up in the side tables by its own id, so the IN list plays no
  role: \<open>row_record\<close> is the record of one row.
\<close>

definition last_of :: "(nat \<times> 'a) list \<Rightarrow> nat \<Rightarrow> 'a option" where
  "last_of tbl i = map_of (rev tbl) i"

definition aggs_of :: "rule_db \<Rightarrow> nat \<Rightarrow> aggregation_spec list" where
  "aggs_of db i = map agg_of_row (sort_key ar_order (filter (\<lambda>a. ar_rule_row a = i) (db_aggs db)))"

definition row_record :: "rule_db \<Rightarrow> nat \<Rightarrow> rules_row \<Rightarrow> rule_record option" where
  "row_record db i r =
     load_rule (if db_has_windows db then last_of (db_windows db) else Map.empty) (last_of (db_sinks db))
       (aggs_of db) (last_of (db_breaches db)) i r"

lemma queried_mem: "i \<in> set ids \<Longrightarrow> queried ids tbl i = last_of tbl i"
proof -
  assume i: "i \<in> set ids"
  have "map_of (filter (\<lambda>(j, _). j \<in> set ids) t) i = map_of t i" for t
    using i by (induction t) auto
  from this [of "rev tbl"] show ?thesis by (simp add: queried_def last_of_def rev_filter)
qed

lemma queried_aggs_mem: "i \<in> set ids \<Longrightarrow> queried_aggs ids (db_aggs db) i = aggs_of db i"
proof -
  assume i: "i \<in> set ids"
  have "(\<lambda>a :: agg_row. ar_rule_row a \<in> set ids \<and> ar_rule_row a = i) = (\<lambda>a. ar_rule_row a = i)"
    using i by auto
  then show ?thesis by (simp only: queried_aggs_def aggs_of_def)
qed

lemma load_rule_cong:
  "w i = w' i \<Longrightarrow> s i = s' i \<Longrightarrow> a i = a' i \<Longrightarrow> b i = b' i \<Longrightarrow> load_rule w s a b i r = load_rule w' s' a' b' i r"
  by (simp add: load_rule_def)

lemma load_loop_cong:
  "(\<And>i r. (i, r) \<in> set rows \<Longrightarrow> ld i r = ld' i r) \<Longrightarrow> load_loop ld rows res = load_loop ld' rows res"
  by (induction ld rows res rule: load_loop.induct) (auto split: option.splits)

lemma loadActiveRules_eq:
  "loadActiveRules no_faults db =
     (case load_loop (row_record db) (active_rows db) Map.empty of None \<Rightarrow> Inl DbFailure | Some res \<Rightarrow> Inr res)"
proof (cases "active_rows db = []")
  case True
  then show ?thesis by (simp add: loadActiveRules_def active_rows_def [symmetric])
next
  case False
  define ids where "ids = map fst (active_rows db)"
  have "load_loop (load_rule (if db_has_windows db then queried ids (db_windows db) else Map.empty)
          (queried ids (db_sinks db)) (queried_aggs ids (db_aggs db)) (queried ids (db_breaches db))) (active_rows db) Map.empty
      = load_loop (row_record db) (active_rows db) Map.empty"
  proof (rule load_loop_cong)
    fix i r assume "(i, r) \<in> set (active_rows db)"
    then have i: "i \<in> set ids" by (force simp: ids_def)
    show "load_rule (if db_has_windows db then queried ids (db_windows db) else Map.empty)
          (queried ids (db_sinks db)) (queried_aggs ids (db_aggs db)) (queried ids (db_breaches db)) i r = row_record db i r"
      unfolding row_record_def by (rule load_rule_cong) (simp_all add: queried_mem queried_aggs_mem i)
  qed
  with False show ?thesis
    by (cases "db_has_windows db")
      (simp_all add: loadActiveRules_def load_defs active_rows_def [symmetric] ids_def [symmetric] Let_def)
qed

lemma load_loop_append:
  "load_loop ld (xs @ ys) res = (case load_loop ld xs res of None \<Rightarrow> None | Some m \<Rightarrow> load_loop ld ys m)"
  by (induction ld xs res rule: load_loop.induct) (auto split: option.splits simp del: fun_upd_apply)

lemma load_loop_remove:
  "load_loop ld rows res = Some m \<Longrightarrow>
   load_loop ld (filter (\<lambda>(i, r). rr_rule_id r \<noteq> rid) rows) (res(rid := None)) = Some (m(rid := None))"
proof (induction ld rows res rule: load_loop.induct)
  case (2 ld i r rows res)
  from "2.prems" obtain rec where rec: "ld i r = Some rec" "load_loop ld rows (res(rr_rule_id r \<mapsto> rec)) = Some m"
    by (auto split: option.splits)
  from "2.IH" [OF rec] rec(1) show ?case
    by (cases "rr_rule_id r = rid") (simp_all add: fun_upd_twist del: fun_upd_apply)
qed simp

section \<open>Save, then load\<close>

text \<open>
  The form in which a saved rule comes back: the cardinality hint is HIGH or LOW, and the
  sinks are always present.
\<close>

definition stored_form :: "velocity_rule \<Rightarrow> velocity_rule" where
  "stored_form r =
     r\<lparr>vr_aggs := map (\<lambda>a. a\<lparr>ag_cardinality := (if ag_cardinality a = ''HIGH'' then ''HIGH'' else ''LOW'')\<rparr>) (vr_aggs r),
       vr_sinks := Some (case vr_sinks r of None \<Rightarrow> zero_sinks | Some s \<Rightarrow> s)\<rparr>"

definition record_of :: "velocity_rule \<Rightarrow> int \<Rightarrow> rule_record" where
  "record_of r v =
     \<lparr>rec_id = rm_id (vr_meta r), rec_name = rm_name (vr_meta r), rec_status = rm_status (vr_meta r),
      rec_payload = rule_json (stored_form r),
      rec_published = (rm_status (vr_meta r) = ''ACTIVE'' \<or> rm_status (vr_meta r) = ''PAUSED''),
      rec_version = v\<rparr>"

lemma last_of_append [simp]:
  "last_of (tbl @ [(n, x)]) i = (if i = n then Some x else last_of tbl i)"
  by (simp add: last_of_def)

lemma last_of_Nil [simp]: "last_of [] i = None"
  by (simp add: last_of_def)

lemma last_of_unused: "i \<notin> set (map fst tbl) \<Longrightarrow> last_of tbl i = None"
  by (simp add: last_of_def map_of_eq_None_iff)

lemma agg_rows_sorted: "sorted (map ar_order (agg_rows n i aggs))"
proof -
  have "\<forall>a \<in> set (agg_rows n i aggs). int i + 1 \<le> ar_order a" for n i aggs
    by (induction n i aggs rule: agg_rows.induct) (auto simp: agg_row_of_def)
  note le = this
  show ?thesis
  proof (induction n i aggs rule: agg_rows.induct)
    case (2 n i a as)
    then show ?case using le [of n "Suc i" as] by (fastforce simp: agg_row_of_def)
  qed simp
qed

lemma agg_rows_back:
  "map agg_of_row (agg_rows n i aggs) =
     map (\<lambda>a. a\<lparr>ag_cardinality := (if ag_cardinality a = ''HIGH'' then ''HIGH'' else ''LOW'')\<rparr>) aggs"
  by (induction n i aggs rule: agg_rows.induct) (auto simp: agg_of_row_def agg_row_of_def)

lemma aggs_of_saved:
  assumes "db_next db \<notin> set (map ar_rule_row (db_aggs db))"
  shows "aggs_of (saved_db lower w rule v db) i =
     (if i = db_next db then vr_aggs (stored_form rule) else aggs_of db i)"
proof -
  have new: "filter (\<lambda>a. ar_rule_row a = i) (agg_rows (db_next db) 0 (vr_aggs rule)) =
      (if i = db_next db then agg_rows (db_next db) 0 (vr_aggs rule) else [])"
    by (auto dest: set_agg_rows simp: filter_id_conv filter_empty_conv)
  have old: "filter (\<lambda>a. ar_rule_row a = db_next db) (db_aggs db) = []"
    using assms by (force simp: filter_empty_conv)
  have "sort_key ar_order (agg_rows (db_next db) 0 (vr_aggs rule)) = agg_rows (db_next db) 0 (vr_aggs rule)"
    by (rule sort_key_id_if_sorted) (rule agg_rows_sorted)
  then show ?thesis
    using new old
    by (auto simp: aggs_of_def saved_db_def Let_def agg_rows_back stored_form_def)
qed

lemma row_record_saved_other:
  assumes ok: "rule_db_ok db" and i: "i \<in> set (map fst (db_rules db))"
  shows "row_record (saved_db lower w rule v db) i r = row_record db i r"
proof -
  have lt: "\<forall>j \<in> used_ids db. j < db_next db" using ok by (simp add: rule_db_ok_def)
  then have used: "db_next db \<notin> used_ids db" by blast
  have "i \<in> used_ids db" using i unfolding used_ids_def by blast
  with lt have i': "i \<noteq> db_next db" by blast
  from used have "aggs_of (saved_db lower w rule v db) i = aggs_of db i"
    using i' by (subst aggs_of_saved) (auto simp: used_ids_def)
  then show ?thesis
    unfolding row_record_def using i'
    by (intro load_rule_cong) (simp_all add: saved_db_def Let_def)
qed

lemma keys_of_json_strings [simp]: "keys_of_json (GList (map GStr ks)) = Some ks"
  using those_map_Some [of ks "\<lambda>k. put_string (GStr k) []" id]
  by (simp add: keys_of_json_def comp_def)

lemma filters_back:
  "filter_ok f \<Longrightarrow> put_struct read_filter (filter_json f) zero_filter = Some f"
  using read_filter_json [of f] by (cases f) (simp add: read_node_def)

text \<open>What is left of a rule where the row of its window could not be written.\<close>

definition windowed :: "bool \<Rightarrow> velocity_rule \<Rightarrow> velocity_rule" where
  "windowed w r = r\<lparr>vr_windowing := (if w then vr_windowing r else zero_windowing)\<rparr>"

lemma windowed_True [simp]: "windowed True r = r"
  by (simp add: windowed_def)

lemma windowed_simps [simp]:
  "vr_meta (windowed w r) = vr_meta r" "vr_aggs (windowed w r) = vr_aggs r" "vr_having (windowed w r) = vr_having r"
  "vr_sinks (windowed w r) = vr_sinks r" "vr_filters (windowed w r) = vr_filters r"
  by (simp_all add: windowed_def)

lemma windowed_ok: "rule_ok r \<Longrightarrow> rule_ok (windowed w r)"
  by (auto simp: rule_ok_def windowed_def windowing_ok_def zero_windowing_def int64_range_def)

lemma row_record_saved_new:
  assumes ok: "rule_db_ok db" and rule: "rule_ok rule" and w: "w \<Longrightarrow> db_has_windows db"
  shows "row_record (saved_db lower w rule v db) (db_next db) (rules_row_of lower rule v) = Some (record_of (windowed w rule) v)"
proof -
  let ?db' = "saved_db lower w rule v db" and ?n = "db_next db"
  have used: "?n \<notin> used_ids db"
    using ok by (auto simp: rule_db_ok_def)
  have aggs: "aggs_of ?db' ?n = vr_aggs (stored_form rule)"
    using used by (subst aggs_of_saved) (auto simp: used_ids_def)
  have having: "(case last_of (db_breaches ?db') ?n of None \<Rightarrow> [] | Some e \<Rightarrow> e) = vr_having rule"
    using used last_of_unused [of ?n "db_breaches db"]
    by (auto simp: saved_db_def Let_def used_ids_def)
  have wind: "(case (if db_has_windows ?db' then last_of (db_windows ?db') else Map.empty) ?n of
      None \<Rightarrow> zero_windowing | Some wc \<Rightarrow> wc) = vr_windowing (windowed w rule)"
    using w used last_of_unused [of ?n "db_windows db"] by (auto simp: saved_db_def Let_def windowed_def used_ids_def)
  have sinks: "last_of (db_sinks ?db') ?n = Some (sink_row_of rule)"
    by (simp add: saved_db_def Let_def)
  let ?again = "\<lparr>vr_meta = \<lparr>rm_id = rm_id (vr_meta rule), rm_name = rm_name (vr_meta rule), rm_status = rm_status (vr_meta rule),
       rm_severity = rm_severity (vr_meta rule), rm_penalty_ttl = rm_penalty_ttl (vr_meta rule)\<rparr>,
     vr_topic = vr_topic rule, vr_filters = vr_filters rule,
     vr_grouping = \<lparr>gc_keys = gc_keys (vr_grouping rule), gc_entity = gc_entity (vr_grouping rule),
       gc_anomaly_field = gc_anomaly_field (vr_grouping rule)\<rparr>,
     vr_windowing = vr_windowing (windowed w rule), vr_aggs = vr_aggs (stored_form rule), vr_having = vr_having rule,
     vr_sinks = Some (sr_sinks (sink_row_of rule))\<rparr>"
  have same: "?again = stored_form (windowed w rule)"
    by (intro velocity_rule.equality rule_metadata.equality grouping_config.equality)
      (simp_all add: stored_form_def sink_row_of_def windowed_def)
  have filters: "(case rr_filters (rules_row_of lower rule v) of None \<Rightarrow> Some None
      | Some d \<Rightarrow> map_option Some (put_struct read_filter d zero_filter)) = Some (vr_filters rule)"
    using rule by (auto simp: rule_ok_def filters_back rules_row_of_def split: option.splits)
  have row: "rr_keys (rules_row_of lower rule v) = GList (map GStr (gc_keys (vr_grouping rule)))"
    "sr_penalty_ttl (sink_row_of rule) = rm_penalty_ttl (vr_meta rule)"
    by (simp_all add: rules_row_of_def sink_row_of_def)
  show ?thesis
    unfolding row_record_def load_rule_def filters row keys_of_json_strings
    by (simp add: wind sinks aggs having row)
      (simp add: rules_row_of_def record_of_def same)
qed

lemma load_saved_windowed:
  assumes ok: "rule_db_ok db" and rule: "rule_ok rule" and w: "w \<Longrightarrow> db_has_windows db"
    and load: "loadActiveRules no_faults db = Inr m"
  shows "loadActiveRules no_faults (saved_db lower w rule v db) = Inr (m(rm_id (vr_meta rule) \<mapsto> record_of (windowed w rule) v))"
proof -
  let ?db' = "saved_db lower w rule v db" and ?rid = "rm_id (vr_meta rule)"
  let ?old = "filter (\<lambda>(i, r). rr_rule_id r \<noteq> ?rid) (active_rows db)"
  have m: "load_loop (row_record db) (active_rows db) Map.empty = Some m"
    using load by (auto simp: loadActiveRules_eq split: option.splits)
  have "load_loop (row_record ?db') ?old Map.empty = load_loop (row_record db) ?old Map.empty"
  proof (rule load_loop_cong)
    fix i r assume "(i, r) \<in> set ?old"
    then have "i \<in> set (map fst (db_rules db))" by (force simp: active_rows_def)
    then show "row_record ?db' i r = row_record db i r" by (rule row_record_saved_other [OF ok])
  qed
  then have "load_loop (row_record ?db') ?old Map.empty = Some (m(?rid := None))"
    using load_loop_remove [OF m, of ?rid] by simp
  then have "load_loop (row_record ?db') (active_rows ?db') Map.empty = Some (m(?rid \<mapsto> record_of (windowed w rule) v))"
    unfolding active_saved load_loop_append
    using row_record_saved_new [OF ok rule, of w lower v] w
    by (simp add: rules_row_of_def del: fun_upd_apply)
  then show ?thesis by (simp add: loadActiveRules_eq)
qed

lemma load_saved:
  assumes "rule_db_ok db" and "rule_ok rule" and "w" "db_has_windows db" and "loadActiveRules no_faults db = Inr m"
  shows "loadActiveRules no_faults (saved_db lower w rule v db) = Inr (m(rm_id (vr_meta rule) \<mapsto> record_of rule v))"
  using load_saved_windowed [of db rule w m lower v] assms by simp

text \<open>A version that was saved is what a restart loads for its rule, but for its window where that could
  not be written.\<close>

lemma saved_version_loads:
  assumes "rule_db_ok db" and "rule_ok rule" and "loadActiveRules no_faults db = Inr m"
    and "saveNewRuleVersion lower flt rule v db = (Inr (), db')"
  shows "loadActiveRules no_faults db' = Inr (m(rm_id (vr_meta rule) \<mapsto>
      record_of (windowed (db_has_windows db \<and> flt InsertWindow = None) rule) v))"
proof -
  obtain w where "db' = saved_db lower w rule v db" "w \<longleftrightarrow> db_has_windows db \<and> flt InsertWindow = None"
    using assms(4) by (cases rule: saveNewRuleVersion_cases [of lower flt rule v db]) auto
  with load_saved_windowed [OF assms(1,2) _ assms(3), of w] show ?thesis by simp
qed

lemma record_of_payload: "rule_ok rule \<Longrightarrow> rule_of_json (rec_payload (record_of rule v)) = Some (stored_form rule)"
  by (simp add: record_of_def rule_json_round rule_ok_def stored_form_def)

section \<open>Status, then load\<close>

definition with_status :: "string \<Rightarrow> velocity_rule \<Rightarrow> velocity_rule" where
  "with_status st rule = rule\<lparr>vr_meta := (vr_meta rule)\<lparr>rm_status := st\<rparr>\<rparr>"

lemma with_status_simps [simp]:
  "rm_id (vr_meta (with_status st r)) = rm_id (vr_meta r)" "rm_status (vr_meta (with_status st r)) = st"
  "vr_aggs (with_status st r) = vr_aggs r" "vr_windowing (with_status st r) = vr_windowing r"
  "vr_having (with_status st r) = vr_having r" "sink_row_of (with_status st r) = sink_row_of r"
  "rule_ok (with_status st r) = rule_ok r"
  by (simp_all add: with_status_def sink_row_of_def rule_ok_def)

lemma rules_row_of_status: "(rules_row_of lower rule v)\<lparr>rr_status := st\<rparr> = rules_row_of lower (with_status st rule) v"
  by (simp add: rules_row_of_def with_status_def generateRuleDescription_def)

lemma sql_update_keep:
  "sql_update_status rid st False db = db\<lparr>db_rules := map (\<lambda>(i, r). (i,
     if rr_rule_id r = rid \<and> rr_active r then r\<lparr>rr_status := st\<rparr> else r)) (db_rules db)\<rparr>"
  by (simp add: sql_update_status_def cong: if_cong)

text \<open>Updating the status in place gives the tables that saving with that status would have.\<close>

lemma update_saved:
  "sql_update_status (rm_id (vr_meta rule)) st False (saved_db lower w rule v db)
     = saved_db lower w (with_status st rule) v db"
proof -
  have "map (\<lambda>(i, r). (i, if rr_rule_id r = rid \<and> rr_active r then r\<lparr>rr_status := st\<rparr> else r))
      (map (\<lambda>(i, r). (i, if rr_rule_id r = rid \<and> rr_active r then r\<lparr>rr_active := False\<rparr> else r)) rows)
    = map (\<lambda>(i, r). (i, if rr_rule_id r = rid \<and> rr_active r then r\<lparr>rr_active := False\<rparr> else r)) rows"
    for rid and rows :: "(nat \<times> rules_row) list"
    by (induction rows) auto
  note idle = this
  have new: "rr_rule_id (rules_row_of lower rule v) = rm_id (vr_meta rule)" "rr_active (rules_row_of lower rule v)"
    by (simp_all add: rules_row_of_def)
  show ?thesis
    unfolding sql_update_keep
    by (simp add: saved_db_def sql_deactivate_def Let_def idle new rules_row_of_status del: map_map)
qed

lemma aggs_of_update [simp]: "aggs_of (sql_update_status rid st de db) = aggs_of db"
  by (intro ext) (simp add: aggs_of_def)

lemma row_record_update [simp]: "row_record (sql_update_status rid st de db) = row_record db"
  by (intro ext) (simp add: row_record_def)

lemma load_deleted:
  assumes "loadActiveRules no_faults db = Inr m"
  shows "loadActiveRules no_faults (sql_update_status rid st True db) = Inr (m(rid := None))"
proof -
  have m: "load_loop (row_record db) (active_rows db) Map.empty = Some m"
    using assms by (auto simp: loadActiveRules_eq split: option.splits)
  from load_loop_remove [OF m, of rid] show ?thesis
    by (simp add: loadActiveRules_eq active_update_delete)
qed

lemma insert_aggs_no_faults:
  "insert_aggs no_faults n i aggs db = Inr (db\<lparr>db_aggs := db_aggs db @ agg_rows n i aggs\<rparr>)"
  by (induction aggs arbitrary: i db) simp_all

lemma saveNewRuleVersion_no_faults:
  assumes "\<not> version_taken (rm_id (vr_meta rule)) v db"
  shows "saveNewRuleVersion lower no_faults rule v db = (Inr (), saved_db lower (db_has_windows db) rule v db)"
proof -
  have "sql_insert_rule (rules_row_of lower rule v) (sql_deactivate (rm_id (vr_meta rule)) db) =
     Inr ((sql_deactivate (rm_id (vr_meta rule)) db)\<lparr>db_rules := db_rules (sql_deactivate (rm_id (vr_meta rule)) db)
            @ [(db_next db, rules_row_of lower rule v)], db_next := db_next db + 1\<rparr>, db_next db)"
    using assms unfolding sql_insert_rule_Inr by (simp add: rules_row_of_def)
  then show ?thesis
    by (auto simp: saveNewRuleVersion_def save_in_tx_def sql_insert_window_def insert_aggs_no_faults
        saved_db_def Let_def)
qed

section \<open>Properties\<close>

text \<open>The store's operations, each with the failures it meets.\<close>

datatype store_op = Save velocity_rule int faults | Status string string bool faults

fun store_step :: "(string \<Rightarrow> string) \<Rightarrow> store_op \<Rightarrow> rule_db \<Rightarrow> rule_db" where
  "store_step lower (Save rule v flt) db = snd (saveNewRuleVersion lower flt rule v db)"
| "store_step lower (Status rid st de flt) db = snd (updateRuleStatusInPlace flt rid st de db)"

lemma store_step_ok: "rule_db_ok db \<Longrightarrow> rule_db_ok (store_step lower op db)"
proof (cases op)
  case (Save rule v flt)
  assume ok: "rule_db_ok db"
  show ?thesis
    unfolding Save
    by (cases rule: saveNewRuleVersion_cases [of lower flt rule v db]) (use ok saved_db_ok in auto)
next
  case (Status rid st de flt)
  assume ok: "rule_db_ok db"
  show ?thesis
    unfolding Status
    by (cases rule: updateRuleStatusInPlace_cases [of flt rid st de db]) (use ok update_status_ok in auto)
qed

text \<open>C22. Whatever versions are saved and statuses updated, with whatever failures of the
  database on the way, at most one version of a rule is active, no version number is used twice
  for a rule, and every side row belongs to a row id that was handed out.\<close>

theorem rule_tables_consistent:
  "rule_db_ok (fold (store_step lower) ops (empty_rule_db windows))"
proof -
  have "rule_db_ok db \<Longrightarrow> rule_db_ok (fold (store_step lower) ops db)" for db
    by (induction ops arbitrary: db) (auto intro: store_step_ok)
  then show ?thesis using rule_db_ok_empty by blast
qed

text \<open>C17. A version that was saved is what a restart loads for its rule: the whole definition
  comes back, only the cardinality hints normalised and the sinks made explicit, with its
  version number and publication flag, and no other rule is touched. That is so where the table
  \<open>window_configs\<close> exists and its row was written, which the code does not insist on.\<close>

theorem saved_version_survives_restart:
  assumes "rule_db_ok db" and "rule_ok rule" and "db_has_windows db" and "flt InsertWindow = None"
    and "loadActiveRules no_faults db = Inr m"
    and "saveNewRuleVersion lower flt rule v db = (Inr (), db')"
  shows "loadActiveRules no_faults db' = Inr (m(rm_id (vr_meta rule) \<mapsto> record_of rule v)) \<and>
     rule_of_json (rec_payload (record_of rule v)) = Some (stored_form rule)"
  using saved_version_loads [OF assms(1,2,5,6)] record_of_payload [OF assms(2)] assms(3,4) by simp

lemma load_empty [simp]: "loadActiveRules no_faults (empty_rule_db w) = Inr Map.empty"
  by (simp add: loadActiveRules_eq active_rows_def empty_rule_db_def)

lemma empty_not_taken [simp]: "\<not> version_taken rid v (empty_rule_db w)"
  by (simp add: version_taken_def empty_rule_db_def)

lemma empty_has_windows [simp]: "db_has_windows (empty_rule_db w) = w"
  by (simp add: empty_rule_db_def)

theorem saved_version_survives_restart_witness:
  "loadActiveRules no_faults (snd (saveNewRuleVersion (\<lambda>s. s) no_faults demo_rule 1 (empty_rule_db True)))
     = Inr [''R1'' \<mapsto> record_of demo_rule 1]"
proof -
  have sv: "saveNewRuleVersion (\<lambda>s. s) no_faults demo_rule 1 (empty_rule_db True) =
      (Inr (), saved_db (\<lambda>s. s) True demo_rule 1 (empty_rule_db True))"
    by (simp add: saveNewRuleVersion_no_faults)
  have "rm_id (vr_meta demo_rule) = ''R1''" by (simp add: demo_rule_def)
  with conjunct1 [OF saved_version_survives_restart [OF rule_db_ok_empty demo_rule_ok _ _ load_empty sv]] sv
  show ?thesis by simp
qed

text \<open>A status change is what a restart loads: after a version was saved and its status
  updated in place, its record has the new status, in the payload too, and counts as published
  exactly when that status is ACTIVE or PAUSED; after a deletion the rule is not loaded, and in
  both cases the other rules are as before.\<close>

theorem status_update_survives_restart:
  fixes lower
  assumes "rule_db_ok db" and "rule_ok rule" and "db_has_windows db"
    and "loadActiveRules no_faults db = Inr m" and "\<not> version_taken (rm_id (vr_meta rule)) v db"
  defines "db1 \<equiv> snd (saveNewRuleVersion lower no_faults rule v db)"
  shows "loadActiveRules no_faults (snd (updateRuleStatusInPlace no_faults (rm_id (vr_meta rule)) st False db1))
       = Inr (m(rm_id (vr_meta rule) \<mapsto> record_of (with_status st rule) v)) \<and>
     loadActiveRules no_faults (snd (updateRuleStatusInPlace no_faults (rm_id (vr_meta rule)) st True db1))
       = Inr (m(rm_id (vr_meta rule) := None))"
proof -
  have db1: "db1 = saved_db lower True rule v db"
    unfolding db1_def by (simp add: saveNewRuleVersion_no_faults [OF assms(5)] assms(3))
  have "loadActiveRules no_faults (saved_db lower True (with_status st rule) v db)
      = Inr (m(rm_id (vr_meta rule) \<mapsto> record_of (with_status st rule) v))"
    using load_saved [OF assms(1) _ _ assms(3,4), of "with_status st rule" True lower v] assms(2) by simp
  moreover have "loadActiveRules no_faults db1 = Inr (m(rm_id (vr_meta rule) \<mapsto> record_of rule v))"
    unfolding db1 using load_saved [OF assms(1,2) _ assms(3,4), of True lower v] by simp
  from load_deleted [OF this, of "rm_id (vr_meta rule)" st]
  have "loadActiveRules no_faults (sql_update_status (rm_id (vr_meta rule)) st True db1) = Inr (m(rm_id (vr_meta rule) := None))"
    by simp
  ultimately show ?thesis
    by (simp add: updateRuleStatusInPlace_def db1 update_saved)
qed

theorem status_update_survives_restart_witness:
  "loadActiveRules no_faults (snd (updateRuleStatusInPlace no_faults ''R1'' ''ACTIVE'' False
      (snd (saveNewRuleVersion (\<lambda>s. s) no_faults demo_rule 1 (empty_rule_db True)))))
     = Inr [''R1'' \<mapsto> record_of (with_status ''ACTIVE'' demo_rule) 1]"
proof -
  have "rm_id (vr_meta demo_rule) = ''R1''" by (simp add: demo_rule_def)
  with conjunct1 [OF status_update_survives_restart [OF rule_db_ok_empty demo_rule_ok _ load_empty]]
  show ?thesis by simp
qed

text \<open>The row of a deleted rule keeps its version number, so saving version 1 for its id
  again fails every time, whatever else the database does, and changes nothing: a deleted rule's
  id cannot be used for a new rule.\<close>

theorem deleted_rule_id_not_reusable:
  assumes "version_taken (rm_id (vr_meta rule)) v db"
  shows "\<exists>e. saveNewRuleVersion lower flt rule v
     (snd (updateRuleStatusInPlace flt' (rm_id (vr_meta rule)) ''DELETED'' True db))
     = (Inl e, snd (updateRuleStatusInPlace flt' (rm_id (vr_meta rule)) ''DELETED'' True db))"
proof -
  let ?db = "snd (updateRuleStatusInPlace flt' (rm_id (vr_meta rule)) ''DELETED'' True db)"
  have "version_taken (rm_id (vr_meta rule)) v ?db"
    using assms
    by (cases rule: updateRuleStatusInPlace_cases [of flt' "rm_id (vr_meta rule)" "''DELETED''" True db])
      (simp_all add: version_taken_def del: set_map)
  then show ?thesis
    by (cases rule: saveNewRuleVersion_cases [of lower flt rule v ?db]) auto
qed

theorem deleted_rule_id_not_reusable_witness:
  "\<exists>e. saveNewRuleVersion (\<lambda>s. s) no_faults demo_rule 1
     (snd (updateRuleStatusInPlace no_faults (rm_id (vr_meta demo_rule)) ''DELETED'' True
        (saved_db (\<lambda>s. s) True demo_rule 1 (empty_rule_db True))))
     = (Inl e, snd (updateRuleStatusInPlace no_faults (rm_id (vr_meta demo_rule)) ''DELETED'' True
        (saved_db (\<lambda>s. s) True demo_rule 1 (empty_rule_db True))))"
  by (rule deleted_rule_id_not_reusable) (simp add: version_taken_def saved_rules del: set_map)

end
