(* ===== verification/RulesHandler.thy ===== *)
theory RulesHandler
  imports RuleStore_Props
begin

text \<open>
  \<open>internal/handlers/rules.go\<close> and \<open>internal/services/kafka.go\<close>: the rule lifecycle over the
  in-memory rule map, the MySQL tables and the Kafka rules topic. A request is one transition
  (the handlers hold the map's lock only for its own accesses; requests for the same rule that
  overlap are not modelled). \<open>env\<close> carries what the environment does to the request: the database
  calls that fail and the fate of the Kafka message. A request body is the JSON document it
  parses to, or \<open>None\<close>.
\<close>

section \<open>State and environment\<close>

record rules_state =
  rs_mem :: "string \<rightharpoonup> rule_record"
  rs_mysql :: rule_db
  rs_kafka :: "(string \<times> gval) list"

text \<open>
  What can happen to a message: no producer, an error from \<open>Produce\<close>, a flush that times out
  (the message may then be delivered all the same, \<open>late\<close>), an error in the delivery report,
  or its delivery.
\<close>

datatype kafka_fate = NoProducer | ProduceFailed | FlushTimedOut bool | DeliveryFailed | Delivered

record env =
  ev_faults :: faults
  ev_kafka :: kafka_fate
  ev_lower :: "string \<Rightarrow> string"

datatype reply = Reply nat gval

fun reply_code :: "reply \<Rightarrow> nat" where
  "reply_code (Reply n b) = n"

definition detail :: "string \<Rightarrow> gval" where
  "detail s = GMap [(''detail'', GStr s)]"

definition success_reply :: "string \<Rightarrow> reply" where
  "success_reply msg = Reply 200 (GMap [(''status'', GStr ''success''), (''message'', GStr msg)])"

section \<open>PublishRule\<close>

definition publishRule :: "kafka_fate \<Rightarrow> row \<Rightarrow> (string \<times> gval) list \<Rightarrow> bool \<times> (string \<times> gval) list" where
  "publishRule fate dict log =
     (if fate = NoProducer then (False, log)
      else case as_map (row_val dict ''rule_metadata'') of
        None \<Rightarrow> (False, log)
      | Some rm \<Rightarrow>
          (case as_str (row_val rm ''rule_id'') of
             None \<Rightarrow> (False, log)
           | Some rid \<Rightarrow>
               (case fate of
                  Delivered \<Rightarrow> (True, log @ [(rid, dict_json dict)])
                | FlushTimedOut late \<Rightarrow> (False, if late then log @ [(rid, dict_json dict)] else log)
                | _ \<Rightarrow> (False, log))))"

section \<open>Handlers\<close>

text \<open>The checks on a new rule: the error they answer with, if any.\<close>

definition no_windowing :: "velocity_rule \<Rightarrow> bool" where
  "no_windowing rule \<longleftrightarrow> equal_fold_ascii (wc_type (vr_windowing rule)) ''NONE''"

definition create_check :: "velocity_rule \<Rightarrow> string option" where
  "create_check rule =
     (let w = vr_windowing rule
      in if no_windowing rule then None
         else if vr_aggs rule = [] then Some ''aggregations list must not be empty''
         else if wc_size_ms w \<le> 0 then Some ''windowing.size_ms must be > 0''
         else if wc_slide_ms w \<le> 0 then Some ''windowing.slide_ms must be > 0''
         else if wc_type w = ''SLIDING'' \<and> wc_size_ms w < wc_slide_ms w
           then Some ''windowing.slide_ms must not exceed windowing.size_ms for SLIDING windows''
         else None)"

definition update_check :: "velocity_rule \<Rightarrow> string option" where
  "update_check rule =
     (let w = vr_windowing rule
      in if no_windowing rule then None
         else if vr_aggs rule = [] then Some ''aggregations list must not be empty''
         else if wc_size_ms w \<le> 0 then Some ''windowing.size_ms must be > 0''
         else None)"

definition default_name :: "string \<Rightarrow> velocity_rule \<Rightarrow> velocity_rule" where
  "default_name rid rule =
     (if trim_space (rm_name (vr_meta rule)) = []
      then rule\<lparr>vr_meta := (vr_meta rule)\<lparr>rm_name := rid\<rparr>\<rparr> else rule)"

definition createRule :: "env \<Rightarrow> gval option \<Rightarrow> rules_state \<Rightarrow> reply \<times> rules_state" where
  "createRule env body st =
     (case Option.bind body rule_of_json of
        None \<Rightarrow> (Reply 400 (detail ''Invalid request body''), st)
      | Some rule0 \<Rightarrow>
          (let rid = rm_id (vr_meta rule0) in
           if rs_mem st rid \<noteq> None then (Reply 400 (detail ''Rule with this ID already exists''), st)
           else (let rule1 = default_name rid rule0 in
             case create_check rule1 of
               Some e \<Rightarrow> (Reply 400 (detail e), st)
             | None \<Rightarrow>
                 (let rule = with_status ''DRAFT'' rule1 in
                  case saveNewRuleVersion (ev_lower env) (ev_faults env) rule 1 (rs_mysql st) of
                    (Inl e, db) \<Rightarrow> (Reply 503 (detail ''Failed to persist rule''), st\<lparr>rs_mysql := db\<rparr>)
                  | (Inr _, db) \<Rightarrow>
                      (Reply 200 (rule_json rule),
                       st\<lparr>rs_mysql := db,
                          rs_mem := (rs_mem st)(rid \<mapsto> \<lparr>rec_id = rid, rec_name = rm_name (vr_meta rule),
                            rec_status = ''DRAFT'', rec_payload = rule_json rule, rec_published = False,
                            rec_version = 1\<rparr>)\<rparr>)))))"

fun list_loop :: "(string \<rightharpoonup> rule_record) \<Rightarrow> string list \<Rightarrow> gval list" where
  "list_loop m [] = []"
| "list_loop m (k # ks) =
     (case Option.bind (m k) (\<lambda>rec. rule_of_json (rec_payload rec)) of
        None \<Rightarrow> list_loop m ks
      | Some rule \<Rightarrow> rule_json rule # list_loop m ks)"

definition listRules :: "(string, rule_record) key_order \<Rightarrow> rules_state \<Rightarrow> reply" where
  "listRules ord st = Reply 200 (GList (list_loop (rs_mem st) (range_keys ord (rs_mem st))))"

definition getRule :: "string \<Rightarrow> rules_state \<Rightarrow> reply" where
  "getRule rid st =
     (case rs_mem st rid of
        None \<Rightarrow> Reply 404 (detail ''Rule not found'')
      | Some rec \<Rightarrow>
          (case rule_of_json (rec_payload rec) of
             None \<Rightarrow> Reply 500 (detail ''Failed to deserialize rule'')
           | Some rule \<Rightarrow> Reply 200 (rule_json rule)))"

text \<open>
  Publishing and changing the status: the message goes to Kafka first, and only its delivery
  lets the rest happen; a failure to persist the status is only logged.
\<close>

definition activate :: "env \<Rightarrow> string \<Rightarrow> string \<Rightarrow> bool \<Rightarrow> string \<Rightarrow> string \<Rightarrow> rules_state \<Rightarrow> reply \<times> rules_state" where
  "activate env rid status published failMsg okMsg st =
     (case rs_mem st rid of
        None \<Rightarrow> (Reply 404 (detail ''Rule not found''), st)
      | Some rec \<Rightarrow>
          (case dict_of_json (rec_payload rec) of
             None \<Rightarrow> (Reply 500 (detail ''Failed to deserialize rule''), st)
           | Some dict0 \<Rightarrow>
               (let dict = dict_set_status status dict0;
                    (ok, log) = publishRule (ev_kafka env) dict (rs_kafka st)
                in if \<not> ok then (Reply 500 (detail failMsg), st\<lparr>rs_kafka := log\<rparr>)
                   else (let db = snd (updateRuleStatusInPlace (ev_faults env) rid status False (rs_mysql st))
                     in (success_reply okMsg,
                         st\<lparr>rs_kafka := log, rs_mysql := db,
                            rs_mem := (rs_mem st)(rid \<mapsto> rec\<lparr>rec_status := status, rec_payload := dict_json dict,
                              rec_published := rec_published rec \<or> published\<rparr>)\<rparr>)))))"

definition publishRuleHandler :: "env \<Rightarrow> string \<Rightarrow> rules_state \<Rightarrow> reply \<times> rules_state" where
  "publishRuleHandler env rid st =
     activate env rid ''ACTIVE'' True ''Failed to publish rule to Kafka''
       (''Rule '' @ rid @ '' moved to PROD (ACTIVE)'') st"

definition status_request :: "gval \<Rightarrow> string option" where
  "status_request d = put_struct (read_field ''status'' put_string) d []"

definition updateRuleStatus :: "env \<Rightarrow> string \<Rightarrow> gval option \<Rightarrow> rules_state \<Rightarrow> reply \<times> rules_state" where
  "updateRuleStatus env rid body st =
     (case Option.bind body status_request of
        None \<Rightarrow> (Reply 400 (detail ''Invalid request body''), st)
      | Some status \<Rightarrow>
          if status \<noteq> ''ACTIVE'' \<and> status \<noteq> ''PAUSED''
          then (Reply 400 (detail ''Invalid status. Use ACTIVE or PAUSED.''), st)
          else activate env rid status False ''Failed to publish status update to Kafka''
                 (''Rule '' @ rid @ '' status updated to '' @ status) st)"

definition deleteRule :: "env \<Rightarrow> string \<Rightarrow> rules_state \<Rightarrow> reply \<times> rules_state" where
  "deleteRule env rid st =
     (case rs_mem st rid of
        None \<Rightarrow> (Reply 404 (detail ''Rule not found''), st)
      | Some rec \<Rightarrow>
          (case dict_of_json (rec_payload rec) of
             None \<Rightarrow> (Reply 500 (detail ''Failed to deserialize rule''), st)
           | Some dict0 \<Rightarrow>
               (let (ok, log) = (if rec_published rec
                      then publishRule (ev_kafka env) (dict_set_status ''DELETED'' dict0) (rs_kafka st)
                      else (True, rs_kafka st))
                in if \<not> ok
                   then (Reply 500 (detail ''Failed to publish DELETED tombstone to Kafka. Safety abort.''),
                         st\<lparr>rs_kafka := log\<rparr>)
                   else (let db = snd (updateRuleStatusInPlace (ev_faults env) rid ''DELETED'' True (rs_mysql st))
                     in (success_reply (''Rule '' @ rid @ '' removed from Flink and permanently deleted''),
                         st\<lparr>rs_kafka := log, rs_mysql := db, rs_mem := (rs_mem st)(rid := None)\<rparr>)))))"

definition updateRule :: "env \<Rightarrow> string \<Rightarrow> gval option \<Rightarrow> rules_state \<Rightarrow> reply \<times> rules_state" where
  "updateRule env rid body st =
     (case Option.bind body rule_of_json of
        None \<Rightarrow> (Reply 400 (detail ''Invalid request body''), st)
      | Some rule0 \<Rightarrow>
          if rm_id (vr_meta rule0) \<noteq> rid
          then (Reply 400 (detail ''rule_id in payload must match URL parameter''), st)
          else case rs_mem st rid of
            None \<Rightarrow> (Reply 404 (detail ''Rule not found''), st)
          | Some rec \<Rightarrow>
              if rec_status rec \<noteq> ''DRAFT'' \<and> rec_status rec \<noteq> ''PAUSED''
              then (Reply 409 (detail (''Rule is '' @ rec_status rec @ ''. Pause the rule before editing.'')), st)
              else (let rule1 = default_name rid rule0 in
                case update_check rule1 of
                  Some e \<Rightarrow> (Reply 400 (detail e), st)
                | None \<Rightarrow>
                    (let rule = with_status ''DRAFT'' rule1; newVersion = wrap64 (rec_version rec + 1) in
                     case saveNewRuleVersion (ev_lower env) (ev_faults env) rule newVersion (rs_mysql st) of
                       (Inl e, db) \<Rightarrow> (Reply 503 (detail ''Failed to persist rule update''), st\<lparr>rs_mysql := db\<rparr>)
                     | (Inr _, db) \<Rightarrow>
                         (Reply 200 (rule_json rule),
                          st\<lparr>rs_mysql := db,
                             rs_mem := (rs_mem st)(rid \<mapsto> rec\<lparr>rec_payload := rule_json rule, rec_status := ''DRAFT'',
                               rec_name := rm_name (vr_meta rule), rec_version := newVersion\<rparr>)\<rparr>))))"

text \<open>A start of the server: the rule map is empty, then filled from MySQL if that works.\<close>

definition loadFromMySQL :: "faults \<Rightarrow> rules_state \<Rightarrow> rules_state" where
  "loadFromMySQL flt st =
     (case loadActiveRules flt (rs_mysql st) of Inl e \<Rightarrow> st | Inr m \<Rightarrow> st\<lparr>rs_mem := m\<rparr>)"

definition restart :: "faults \<Rightarrow> rules_state \<Rightarrow> rules_state" where
  "restart flt st = loadFromMySQL flt (st\<lparr>rs_mem := Map.empty\<rparr>)"

section \<open>Requests\<close>

datatype rule_request =
    Create "gval option"
  | Update string "gval option"
  | Publish string
  | SetStatus string "gval option"
  | Delete string

fun handle :: "env \<Rightarrow> rule_request \<Rightarrow> rules_state \<Rightarrow> reply \<times> rules_state" where
  "handle env (Create body) st = createRule env body st"
| "handle env (Update rid body) st = updateRule env rid body st"
| "handle env (Publish rid) st = publishRuleHandler env rid st"
| "handle env (SetStatus rid body) st = updateRuleStatus env rid body st"
| "handle env (Delete rid) st = deleteRule env rid st"

definition new_rules_state :: "bool \<Rightarrow> rules_state" where
  "new_rules_state windows = \<lparr>rs_mem = Map.empty, rs_mysql = empty_rule_db windows, rs_kafka = []\<rparr>"

text \<open>What the stream processor holds for a rule: the status in the last message under its id.\<close>

definition flink_view :: "(string \<times> gval) list \<Rightarrow> string \<Rightarrow> string option" where
  "flink_view log rid = Option.bind (map_of (rev log) rid) (\<lambda>d. doc_meta d ''status'')"

end
