(* ===== verification/RulesHandler_Props.thy ===== *)
theory RulesHandler_Props
  imports RulesHandler
begin

text \<open>
  The rule lifecycle: what every request keeps of the rule map, that failed requests change
  nothing, how the map, the tables and the Kafka topic stay together, and where they part.
\<close>

section \<open>Kafka\<close>

lemma flink_view_snoc [simp]:
  "flink_view (log @ [(rid, d)]) k = (if k = rid then doc_meta d ''status'' else flink_view log k)"
  by (simp add: flink_view_def)

lemma flink_view_Nil [simp]: "flink_view [] k = None"
  by (simp add: flink_view_def)

text \<open>The id a dictionary is published under, and what \<open>publishRule\<close> does with it.\<close>

lemma publishRule_cases:
  assumes "doc_meta (GMap dict) ''rule_id'' = Some rid"
  shows "publishRule fate dict log =
     (case fate of
        Delivered \<Rightarrow> (True, log @ [(rid, dict_json dict)])
      | FlushTimedOut True \<Rightarrow> (False, log @ [(rid, dict_json dict)])
      | _ \<Rightarrow> (False, log))"
  using assms
  by (cases fate) (auto simp: publishRule_def doc_meta_def split: option.splits bool.splits)

section \<open>The rule map\<close>

text \<open>Every record sits under its id, and its payload names that id and the record's status.\<close>

definition record_ok :: "string \<Rightarrow> rule_record \<Rightarrow> bool" where
  "record_ok rid rec \<longleftrightarrow> rec_id rec = rid \<and> doc_meta (rec_payload rec) ''rule_id'' = Some rid \<and>
     doc_meta (rec_payload rec) ''status'' = Some (rec_status rec)"

definition mem_ok :: "(string \<rightharpoonup> rule_record) \<Rightarrow> bool" where
  "mem_ok m \<longleftrightarrow> (\<forall>rid rec. m rid = Some rec \<longrightarrow> record_ok rid rec)"

lemma mem_ok_empty [simp]: "mem_ok Map.empty"
  by (simp add: mem_ok_def)

lemma mem_ok_upd: "mem_ok m \<Longrightarrow> record_ok rid rec \<Longrightarrow> mem_ok (m(rid \<mapsto> rec))"
  by (simp add: mem_ok_def)

lemma mem_ok_del: "mem_ok m \<Longrightarrow> mem_ok (m(rid := None))"
  by (simp add: mem_ok_def)

lemma mem_okD: "mem_ok m \<Longrightarrow> m rid = Some rec \<Longrightarrow> record_ok rid rec"
  by (simp add: mem_ok_def)

lemma default_name_simps [simp]:
  "rm_id (vr_meta (default_name rid r)) = rm_id (vr_meta r)"
  "vr_windowing (default_name rid r) = vr_windowing r" "vr_aggs (default_name rid r) = vr_aggs r"
  "rule_ok (default_name rid r) = rule_ok r"
  by (simp_all add: default_name_def rule_ok_def)

text \<open>The dictionary a status change publishes and stores.\<close>

definition status_dict :: "gval \<Rightarrow> string \<Rightarrow> row" where
  "status_dict payload st = dict_set_status st (the (dict_of_json payload))"

lemma record_ok_dict:
  assumes "record_ok rid rec"
  shows "dict_of_json (rec_payload rec) \<noteq> None"
    and "doc_meta (GMap (status_dict (rec_payload rec) st)) ''rule_id'' = Some rid"
    and "doc_meta (GMap (status_dict (rec_payload rec) st)) ''status'' = Some st"
proof -
  have "doc_meta (rec_payload rec) ''rule_id'' = Some rid" using assms by (simp add: record_ok_def)
  then obtain dict where d: "dict_of_json (rec_payload rec) = Some dict" "doc_meta (GMap dict) ''rule_id'' = Some rid"
    by (rule dict_of_json_meta)
  show "dict_of_json (rec_payload rec) \<noteq> None"
    and "doc_meta (GMap (status_dict (rec_payload rec) st)) ''rule_id'' = Some rid"
    and "doc_meta (GMap (status_dict (rec_payload rec) st)) ''status'' = Some st"
    using d dict_set_status_meta [OF d(2)] by (auto simp: status_dict_def)
qed

text \<open>\<open>activate\<close> by the fate of the message.\<close>

lemma activate_cases:
  assumes "mem_ok (rs_mem st)"
  obtains (missing) "rs_mem st rid = None" "activate env rid s p f k st = (Reply 404 (detail ''Rule not found''), st)"
  | (refused) rec where "rs_mem st rid = Some rec" "ev_kafka env \<noteq> Delivered"
      "activate env rid s p f k st = (Reply 500 (detail f), st\<lparr>rs_kafka :=
         (if ev_kafka env = FlushTimedOut True then rs_kafka st @ [(rid, dict_json (status_dict (rec_payload rec) s))]
          else rs_kafka st)\<rparr>)"
  | (delivered) rec db where "rs_mem st rid = Some rec" "ev_kafka env = Delivered"
      "db = snd (updateRuleStatusInPlace (ev_faults env) rid s False (rs_mysql st))"
      "activate env rid s p f k st = (success_reply k, st\<lparr>rs_kafka := rs_kafka st @ [(rid, dict_json (status_dict (rec_payload rec) s))],
         rs_mysql := db, rs_mem := (rs_mem st)(rid \<mapsto> rec\<lparr>rec_status := s,
           rec_payload := dict_json (status_dict (rec_payload rec) s), rec_published := rec_published rec \<or> p\<rparr>)\<rparr>)"
proof (cases "rs_mem st rid")
  case None
  then show thesis by (intro missing) (simp_all add: activate_def)
next
  case (Some rec)
  note ok = mem_okD [OF assms Some]
  obtain dict where d: "dict_of_json (rec_payload rec) = Some dict"
    using record_ok_dict(1) [OF ok] by blast
  then have sd: "dict_set_status s dict = status_dict (rec_payload rec) s"
    by (simp add: status_dict_def)
  note pub = publishRule_cases [OF record_ok_dict(2) [OF ok]]
  show thesis
  proof (cases "ev_kafka env = Delivered")
    case True
    then show thesis
      using Some d sd pub by (intro delivered) (simp_all add: activate_def Let_def)
  next
    case False
    then show thesis
      using Some d sd pub
      by (intro refused) (auto simp: activate_def Let_def split: kafka_fate.splits bool.splits)
  qed
qed

lemma deleteRule_cases:
  assumes "mem_ok (rs_mem st)"
  obtains (missing) "rs_mem st rid = None" "deleteRule env rid st = (Reply 404 (detail ''Rule not found''), st)"
  | (refused) rec c where "rs_mem st rid = Some rec" "rec_published rec" "ev_kafka env \<noteq> Delivered"
      "deleteRule env rid st = (Reply 500 c, st\<lparr>rs_kafka :=
         (if ev_kafka env = FlushTimedOut True then rs_kafka st @ [(rid, dict_json (status_dict (rec_payload rec) ''DELETED''))]
          else rs_kafka st)\<rparr>)"
  | (deleted) rec c db where "rs_mem st rid = Some rec" "rec_published rec \<Longrightarrow> ev_kafka env = Delivered"
      "db = snd (updateRuleStatusInPlace (ev_faults env) rid ''DELETED'' True (rs_mysql st))"
      "deleteRule env rid st = (success_reply c, st\<lparr>rs_kafka :=
         (if rec_published rec then rs_kafka st @ [(rid, dict_json (status_dict (rec_payload rec) ''DELETED''))] else rs_kafka st),
         rs_mysql := db, rs_mem := (rs_mem st)(rid := None)\<rparr>)"
proof (cases "rs_mem st rid")
  case None
  then show thesis by (intro missing) (simp_all add: deleteRule_def)
next
  case (Some rec)
  note ok = mem_okD [OF assms Some]
  obtain dict where d: "dict_of_json (rec_payload rec) = Some dict"
    using record_ok_dict(1) [OF ok] by blast
  then have sd: "dict_set_status ''DELETED'' dict = status_dict (rec_payload rec) ''DELETED''"
    by (simp add: status_dict_def)
  note pub = publishRule_cases [OF record_ok_dict(2) [OF ok]]
  show thesis
  proof (cases "rec_published rec \<longrightarrow> ev_kafka env = Delivered")
    case True
    then show thesis
      using Some d sd pub by (intro deleted) (auto simp: deleteRule_def Let_def)
  next
    case False
    then show thesis
      using Some d sd pub
      by (intro refused) (auto simp: deleteRule_def Let_def split: kafka_fate.splits bool.splits)
  qed
qed

definition draft_record :: "velocity_rule \<Rightarrow> rule_record" where
  "draft_record rule = \<lparr>rec_id = rm_id (vr_meta rule), rec_name = rm_name (vr_meta rule), rec_status = ''DRAFT'',
     rec_payload = rule_json rule, rec_published = False, rec_version = 1\<rparr>"

lemma createRule_cases:
  obtains (rejected) n b where "createRule env body st = (Reply n b, st)" "n \<noteq> 200"
  | (created) rule0 rule db where "Option.bind body rule_of_json = Some rule0"
      "rule = with_status ''DRAFT'' (default_name (rm_id (vr_meta rule0)) rule0)"
      "rs_mem st (rm_id (vr_meta rule)) = None" "create_check rule0 = None"
      "saveNewRuleVersion (ev_lower env) (ev_faults env) rule 1 (rs_mysql st) = (Inr (), db)"
      "createRule env body st = (Reply 200 (rule_json rule),
         st\<lparr>rs_mysql := db, rs_mem := (rs_mem st)(rm_id (vr_meta rule) \<mapsto> draft_record rule)\<rparr>)"
proof (cases "Option.bind body rule_of_json")
  case None
  then show thesis by (intro rejected) (auto simp: createRule_def)
next
  case (Some rule0)
  let ?rule = "with_status ''DRAFT'' (default_name (rm_id (vr_meta rule0)) rule0)"
  have chk: "create_check (default_name (rm_id (vr_meta rule0)) rule0) = create_check rule0"
    by (simp add: create_check_def no_windowing_def Let_def)
  consider "rs_mem st (rm_id (vr_meta rule0)) \<noteq> None" | e where "create_check rule0 = Some e" "rs_mem st (rm_id (vr_meta rule0)) = None"
    | "rs_mem st (rm_id (vr_meta rule0)) = None" "create_check rule0 = None"
    by (cases "create_check rule0") auto
  then show thesis
  proof cases
    case 1
    then show thesis using Some by (intro rejected) (auto simp: createRule_def Let_def)
  next
    case 2
    then show thesis using Some chk by (intro rejected) (auto simp: createRule_def Let_def)
  next
    case 3
    show thesis
    proof (cases rule: saveNewRuleVersion_cases [of "ev_lower env" "ev_faults env" ?rule 1 "rs_mysql st"])
      case (failed e)
      then show thesis using 3 Some chk by (intro rejected) (auto simp: createRule_def Let_def)
    next
      case (saved w)
      then show thesis
        using 3 Some chk by (intro created [OF Some refl]) (auto simp: createRule_def Let_def draft_record_def)
    qed
  qed
qed

lemma updateRule_cases:
  obtains (rejected) n b where "updateRule env rid body st = (Reply n b, st)" "n \<noteq> 200"
  | (updated) rule0 rule rec db where "Option.bind body rule_of_json = Some rule0"
      "rule = with_status ''DRAFT'' (default_name rid rule0)" "rm_id (vr_meta rule) = rid"
      "rs_mem st rid = Some rec" "rec_status rec = ''DRAFT'' \<or> rec_status rec = ''PAUSED''"
      "saveNewRuleVersion (ev_lower env) (ev_faults env) rule (wrap64 (rec_version rec + 1)) (rs_mysql st) = (Inr (), db)"
      "updateRule env rid body st = (Reply 200 (rule_json rule),
         st\<lparr>rs_mysql := db, rs_mem := (rs_mem st)(rid \<mapsto> rec\<lparr>rec_payload := rule_json rule, rec_status := ''DRAFT'',
              rec_name := rm_name (vr_meta rule), rec_version := wrap64 (rec_version rec + 1)\<rparr>)\<rparr>)"
proof (cases "Option.bind body rule_of_json")
  case None
  then show thesis by (intro rejected) (auto simp: updateRule_def)
next
  case (Some rule0)
  note body = Some
  let ?rule = "with_status ''DRAFT'' (default_name rid rule0)"
  show thesis
  proof (cases "rm_id (vr_meta rule0) = rid")
    case False
    then show thesis using body by (intro rejected) (auto simp: updateRule_def)
  next
    case True
    note id = True
    show thesis
    proof (cases "rs_mem st rid")
      case None
      then show thesis using body id by (intro rejected) (auto simp: updateRule_def)
    next
      case (Some rec)
      note r = Some
      consider "rec_status rec \<noteq> ''DRAFT''" "rec_status rec \<noteq> ''PAUSED''"
        | e where "update_check (default_name rid rule0) = Some e" "rec_status rec = ''DRAFT'' \<or> rec_status rec = ''PAUSED''"
        | "update_check (default_name rid rule0) = None" "rec_status rec = ''DRAFT'' \<or> rec_status rec = ''PAUSED''"
        by (cases "update_check (default_name rid rule0)") auto
      then show thesis
      proof cases
        case 1
        then show thesis using body id r by (intro rejected) (auto simp: updateRule_def Let_def)
      next
        case 2
        then show thesis using body id r by (intro rejected) (auto simp: updateRule_def Let_def)
      next
        case 3
        show thesis
        proof (cases rule: saveNewRuleVersion_cases [of "ev_lower env" "ev_faults env" ?rule "wrap64 (rec_version rec + 1)" "rs_mysql st"])
          case (failed e)
          then show thesis using 3 body id r by (intro rejected) (auto simp: updateRule_def Let_def)
        next
          case (saved w)
          then show thesis
            using 3 body id r by (intro updated [OF body refl _ r]) (auto simp: updateRule_def Let_def)
        qed
      qed
    qed
  qed
qed

lemma updateRuleStatus_cases:
  obtains (rejected) n b where "updateRuleStatus env rid body st = (Reply n b, st)" "n \<noteq> 200"
  | (accepted) s f k where "s = ''ACTIVE'' \<or> s = ''PAUSED''" "Option.bind body status_request = Some s"
      "updateRuleStatus env rid body st = activate env rid s False f k st"
proof (cases "Option.bind body status_request")
  case None
  then show thesis by (intro rejected) (auto simp: updateRuleStatus_def)
next
  case (Some s)
  show thesis
  proof (cases "s = ''ACTIVE'' \<or> s = ''PAUSED''")
    case True
    then show thesis
      using Some
      by (intro accepted [of s "''Failed to publish status update to Kafka''" "''Rule '' @ rid @ '' status updated to '' @ s"])
        (auto simp: updateRuleStatus_def)
  next
    case False
    then show thesis using Some by (intro rejected) (auto simp: updateRuleStatus_def)
  qed
qed

section \<open>Every request keeps the rule map in order\<close>

lemma record_ok_draft: "record_ok (rm_id (vr_meta rule)) (draft_record rule)"
  if "rm_status (vr_meta rule) = ''DRAFT''"
  using that by (simp add: record_ok_def draft_record_def)

lemma handle_mem_ok:
  assumes ok: "mem_ok (rs_mem st)"
  shows "mem_ok (rs_mem (snd (handle env req st)))"
proof -
  have act: "mem_ok (rs_mem (snd (activate env rid s p f k st)))" for rid s p f k
    using ok
  proof (cases rule: activate_cases [of st rid env s p f k])
    case (delivered rec db)
    have "record_ok rid (rec\<lparr>rec_status := s, rec_payload := dict_json (status_dict (rec_payload rec) s),
        rec_published := rec_published rec \<or> p\<rparr>)"
      using mem_okD [OF ok delivered(1)] record_ok_dict [OF mem_okD [OF ok delivered(1)]]
      by (simp add: record_ok_def)
    then show ?thesis using delivered ok by (simp add: mem_ok_upd del: fun_upd_apply)
  qed (use ok in simp_all)
  show ?thesis
  proof (cases req)
    case (Create body)
    show ?thesis
    proof (cases rule: createRule_cases [of env body st])
      case (created rule0 rule db)
      have "record_ok (rm_id (vr_meta rule)) (draft_record rule)"
        by (rule record_ok_draft) (simp add: created(2))
      with created Create ok show ?thesis by (simp add: mem_ok_upd del: fun_upd_apply)
    qed (use ok Create in simp)
  next
    case (Update rid body)
    show ?thesis
    proof (cases rule: updateRule_cases [of env rid body st])
      case (updated rule0 rule rec db)
      have "record_ok rid (rec\<lparr>rec_payload := rule_json rule, rec_status := ''DRAFT'',
              rec_name := rm_name (vr_meta rule), rec_version := wrap64 (rec_version rec + 1)\<rparr>)"
        using mem_okD [OF ok updated(4)] updated(2,3) by (simp add: record_ok_def)
      with updated Update ok show ?thesis by (simp add: mem_ok_upd del: fun_upd_apply)
    qed (use ok Update in simp)
  next
    case (Publish rid)
    with act show ?thesis by (simp add: publishRuleHandler_def)
  next
    case (SetStatus rid body)
    show ?thesis
      by (cases rule: updateRuleStatus_cases [of env rid body st]) (use ok act SetStatus in simp_all)
  next
    case (Delete rid)
    show ?thesis
      using ok
    proof (cases rule: deleteRule_cases [of st rid env])
      case (deleted rec c db)
      with Delete ok show ?thesis by (simp add: mem_ok_del del: fun_upd_apply)
    qed (use ok Delete in simp_all)
  qed
qed

text \<open>A load that succeeds, whatever else the database does, only yields records of rows.\<close>

lemma load_rule_record_ok:
  "load_rule w s a b i r = Some rec \<Longrightarrow> record_ok (rr_rule_id r) rec \<and>
     (rec_published rec \<longleftrightarrow> rec_status rec = ''ACTIVE'' \<or> rec_status rec = ''PAUSED'')"
  by (auto simp: load_rule_def record_ok_def Let_def bind_eq_Some_conv)

definition loaded_ok :: "(string \<rightharpoonup> rule_record) \<Rightarrow> bool" where
  "loaded_ok m \<longleftrightarrow> (\<forall>rid rec. m rid = Some rec \<longrightarrow> record_ok rid rec \<and>
     (rec_published rec \<longleftrightarrow> rec_status rec = ''ACTIVE'' \<or> rec_status rec = ''PAUSED''))"

lemma load_loop_ok:
  "load_loop (load_rule w s a b) rows res = Some m \<Longrightarrow> loaded_ok res \<Longrightarrow> loaded_ok m"
proof (induction rows arbitrary: res)
  case (Cons ir rows)
  obtain i r where ir: "ir = (i, r)" by force
  with Cons.prems obtain rec where rec: "load_rule w s a b i r = Some rec"
      "load_loop (load_rule w s a b) rows (res(rr_rule_id r \<mapsto> rec)) = Some m"
    by (auto split: option.splits simp del: fun_upd_apply)
  have "loaded_ok (res(rr_rule_id r \<mapsto> rec))"
    using load_rule_record_ok [OF rec(1)] Cons.prems(2) by (auto simp: loaded_ok_def)
  with Cons.IH [OF rec(2)] show ?case by blast
qed simp

lemma loadActiveRules_ok:
  assumes "loadActiveRules flt db = Inr m"
  shows "loaded_ok m"
proof (cases "filter (\<lambda>(i, r). rr_active r) (db_rules db) = []")
  case True
  with assms show ?thesis
    by (auto simp: loadActiveRules_def and_then_Inr db_exec_Inr loaded_ok_def)
next
  case False
  with assms obtain w s a b rows where "load_loop (load_rule w s a b) rows Map.empty = Some m"
    by (auto simp: loadActiveRules_def and_then_Inr db_exec_Inr Let_def split: option.splits if_splits)
  then show ?thesis by (rule load_loop_ok) (simp add: loaded_ok_def)
qed

lemma loaded_mem_ok: "loaded_ok m \<Longrightarrow> mem_ok m"
  by (simp add: loaded_ok_def mem_ok_def)

lemma restart_mem_ok: "mem_ok (rs_mem (restart flt st))"
  by (auto simp: restart_def loadFromMySQL_def split: sum.splits intro: loaded_mem_ok loadActiveRules_ok)

lemma restart_frame [simp]:
  "rs_mysql (restart flt st) = rs_mysql st" "rs_kafka (restart flt st) = rs_kafka st"
  by (auto simp: restart_def loadFromMySQL_def split: sum.splits)

section \<open>Runs\<close>

datatype rules_event = Request env rule_request | Restart faults

fun rules_step :: "rules_event \<Rightarrow> rules_state \<Rightarrow> rules_state" where
  "rules_step (Request env req) st = snd (handle env req st)"
| "rules_step (Restart flt) st = restart flt st"

definition rules_run :: "rules_event list \<Rightarrow> rules_state \<Rightarrow> rules_state" where
  "rules_run evs st = fold rules_step evs st"

text \<open>What a request does to the tables is one of the store's operations, or nothing.\<close>

lemma handle_mysql:
  assumes "mem_ok (rs_mem st)"
  shows "rs_mysql (snd (handle env req st)) = rs_mysql st \<or>
     (\<exists>op. rs_mysql (snd (handle env req st)) = store_step (ev_lower env) op (rs_mysql st))"
proof -
  have act: "rs_mysql (snd (activate env rid s p f k st)) = rs_mysql st \<or>
     (\<exists>op. rs_mysql (snd (activate env rid s p f k st)) = store_step (ev_lower env) op (rs_mysql st))" for rid s p f k
    using assms
  proof (cases rule: activate_cases [of st rid env s p f k])
    case (delivered rec db)
    then have "rs_mysql (snd (activate env rid s p f k st))
        = store_step (ev_lower env) (Status rid s False (ev_faults env)) (rs_mysql st)" by simp
    then show ?thesis by blast
  qed simp_all
  show ?thesis
  proof (cases req)
    case (Create body)
    show ?thesis
    proof (cases rule: createRule_cases [of env body st])
      case (created rule0 rule db)
      then have "rs_mysql (snd (handle env req st)) = store_step (ev_lower env) (Save rule 1 (ev_faults env)) (rs_mysql st)"
        using Create by simp
      then show ?thesis by blast
    qed (use Create in simp)
  next
    case (Update rid body)
    show ?thesis
    proof (cases rule: updateRule_cases [of env rid body st])
      case (updated rule0 rule rec db)
      then have "rs_mysql (snd (handle env req st))
          = store_step (ev_lower env) (Save rule (wrap64 (rec_version rec + 1)) (ev_faults env)) (rs_mysql st)"
        using Update by simp
      then show ?thesis by blast
    qed (use Update in simp)
  next
    case (Publish rid)
    with act show ?thesis by (simp add: publishRuleHandler_def)
  next
    case (SetStatus rid body)
    show ?thesis
      by (cases rule: updateRuleStatus_cases [of env rid body st]) (use act SetStatus in simp_all)
  next
    case (Delete rid)
    show ?thesis
      using assms
    proof (cases rule: deleteRule_cases [of st rid env])
      case (deleted rec c db)
      then have "rs_mysql (snd (handle env req st))
          = store_step (ev_lower env) (Status rid ''DELETED'' True (ev_faults env)) (rs_mysql st)"
        using Delete by simp
      then show ?thesis by blast
    qed (use Delete in simp_all)
  qed
qed

lemma rules_step_ok:
  assumes "mem_ok (rs_mem st) \<and> rule_db_ok (rs_mysql st)"
  shows "mem_ok (rs_mem (rules_step ev st)) \<and> rule_db_ok (rs_mysql (rules_step ev st))"
proof (cases ev)
  case (Request env req)
  have "rule_db_ok (rs_mysql (snd (handle env req st)))"
    using handle_mysql [of st env req] assms store_step_ok by auto
  with Request assms handle_mem_ok show ?thesis by simp
next
  case (Restart flt)
  with assms show ?thesis by (simp add: restart_mem_ok)
qed

lemma store_step_taken: "version_taken rid v db \<Longrightarrow> version_taken rid v (store_step lower op db)"
proof (cases op)
  case (Save rule w flt)
  assume "version_taken rid v db"
  then show ?thesis
    unfolding Save by (cases rule: saveNewRuleVersion_cases [of lower flt rule w db])
      (simp_all add: version_taken_def saved_rules del: set_map)
next
  case (Status r st de flt)
  assume "version_taken rid v db"
  then show ?thesis
    unfolding Status by (cases rule: updateRuleStatusInPlace_cases [of flt r st de db])
      (simp_all add: version_taken_def del: set_map)
qed

lemma rules_step_taken:
  assumes "mem_ok (rs_mem st)" and "version_taken rid v (rs_mysql st)"
  shows "version_taken rid v (rs_mysql (rules_step ev st))"
proof (cases ev)
  case (Request env req)
  with handle_mysql [OF assms(1), of env req] assms(2) store_step_taken show ?thesis by auto
qed (use assms(2) in simp)

lemma rules_run_taken:
  "mem_ok (rs_mem st) \<and> rule_db_ok (rs_mysql st) \<Longrightarrow> version_taken rid v (rs_mysql st) \<Longrightarrow>
     version_taken rid v (rs_mysql (rules_run evs st))"
  unfolding rules_run_def
  by (induction evs arbitrary: st) (use rules_step_ok rules_step_taken in auto)

section \<open>What the stream processor enforces\<close>

text \<open>
  The control plane never forgets a rule that Flink holds, and never claims a status that Flink
  does not have.
\<close>

definition no_orphans :: "rules_state \<Rightarrow> bool" where
  "no_orphans st \<longleftrightarrow> (\<forall>rid s. flink_view (rs_kafka st) rid = Some s \<and> s \<noteq> ''DELETED'' \<longrightarrow>
     (\<exists>rec. rs_mem st rid = Some rec \<and> rec_published rec))"

definition status_enforced :: "rules_state \<Rightarrow> bool" where
  "status_enforced st \<longleftrightarrow> (\<forall>rid rec. rs_mem st rid = Some rec \<and> rec_status rec \<in> {''ACTIVE'', ''PAUSED''} \<longrightarrow>
     flink_view (rs_kafka st) rid = Some (rec_status rec))"

text \<open>
  The requests that keep this: no message is delivered after its flush was given up, and a
  status is only set on a rule that was published before. There is no restart in between.
\<close>

definition tame_request :: "env \<Rightarrow> rule_request \<Rightarrow> rules_state \<Rightarrow> bool" where
  "tame_request env req st \<longleftrightarrow> ev_kafka env \<noteq> FlushTimedOut True \<and>
     (case req of
        SetStatus rid body \<Rightarrow> (case rs_mem st rid of None \<Rightarrow> True | Some rec \<Rightarrow> rec_published rec)
      | _ \<Rightarrow> True)"

inductive tame_run :: "rules_state \<Rightarrow> bool" where
  tame_start: "tame_run (new_rules_state windows)"
| tame_step: "tame_run st \<Longrightarrow> tame_request env req st \<Longrightarrow> tame_run (snd (handle env req st))"

definition lifecycle_ok :: "rules_state \<Rightarrow> bool" where
  "lifecycle_ok st \<longleftrightarrow> mem_ok (rs_mem st) \<and> no_orphans st \<and> status_enforced st"

lemma activate_lifecycle:
  assumes ok: "lifecycle_ok st" and fate: "ev_kafka env \<noteq> FlushTimedOut True"
    and s: "s = ''ACTIVE'' \<or> s = ''PAUSED''"
    and pub: "p \<or> (\<forall>rec. rs_mem st rid = Some rec \<longrightarrow> rec_published rec)"
  shows "no_orphans (snd (activate env rid s p f k st)) \<and> status_enforced (snd (activate env rid s p f k st))"
proof -
  have mem: "mem_ok (rs_mem st)" and no: "no_orphans st" and en: "status_enforced st"
    using ok by (auto simp: lifecycle_ok_def)
  from mem show ?thesis
  proof (cases rule: activate_cases [of st rid env s p f k])
    case (delivered rec db)
    have "doc_meta (GMap (status_dict (rec_payload rec) s)) ''status'' = Some s"
      using record_ok_dict(3) [OF mem_okD [OF mem delivered(1)]] .
    with delivered no en pub s show ?thesis
      by (auto simp: no_orphans_def status_enforced_def)
  qed (use no en fate in simp_all)
qed

lemma deleteRule_lifecycle:
  assumes ok: "lifecycle_ok st" and fate: "ev_kafka env \<noteq> FlushTimedOut True"
  shows "no_orphans (snd (deleteRule env rid st)) \<and> status_enforced (snd (deleteRule env rid st))"
proof -
  have mem: "mem_ok (rs_mem st)" and no: "no_orphans st" and en: "status_enforced st"
    using ok by (auto simp: lifecycle_ok_def)
  from mem show ?thesis
  proof (cases rule: deleteRule_cases [of st rid env])
    case (deleted rec c db)
    have "doc_meta (GMap (status_dict (rec_payload rec) ''DELETED'')) ''status'' = Some ''DELETED''"
      using record_ok_dict(3) [OF mem_okD [OF mem deleted(1)]] .
    moreover have "flink_view (rs_kafka st) rid = Some t \<Longrightarrow> t = ''DELETED''" if "\<not> rec_published rec" for t
      using no deleted(1) that by (auto simp: no_orphans_def)
    ultimately show ?thesis
      using deleted no en by (auto simp: no_orphans_def status_enforced_def)
  qed (use no en fate in simp_all)
qed

lemma handle_lifecycle:
  assumes ok: "lifecycle_ok st" and tame: "tame_request env req st"
  shows "lifecycle_ok (snd (handle env req st))"
proof -
  have mem: "mem_ok (rs_mem (snd (handle env req st)))"
    using ok handle_mem_ok by (simp add: lifecycle_ok_def)
  have no: "no_orphans st" and en: "status_enforced st" using ok by (auto simp: lifecycle_ok_def)
  have fate: "ev_kafka env \<noteq> FlushTimedOut True" using tame by (simp add: tame_request_def)
  have "no_orphans (snd (handle env req st)) \<and> status_enforced (snd (handle env req st))"
  proof (cases req)
    case (Create body)
    show ?thesis
    proof (cases rule: createRule_cases [of env body st])
      case (created rule0 rule db)
      with Create no en show ?thesis
        by (auto simp: no_orphans_def status_enforced_def draft_record_def)
    qed (use Create no en in simp)
  next
    case (Update rid body)
    show ?thesis
    proof (cases rule: updateRule_cases [of env rid body st])
      case (updated rule0 rule rec db)
      with Update no en show ?thesis
        by (auto simp: no_orphans_def status_enforced_def)
    qed (use Update no en in simp)
  next
    case (Publish rid)
    with activate_lifecycle [OF ok fate] show ?thesis by (simp add: publishRuleHandler_def)
  next
    case (SetStatus rid body)
    have pub: "\<forall>rec. rs_mem st rid = Some rec \<longrightarrow> rec_published rec"
      using tame SetStatus by (auto simp: tame_request_def)
    show ?thesis
    proof (cases rule: updateRuleStatus_cases [of env rid body st])
      case (accepted s f k)
      from activate_lifecycle [OF ok fate accepted(1), of False rid f k] pub accepted(3) SetStatus show ?thesis
        by simp
    qed (use SetStatus no en in simp)
  next
    case (Delete rid)
    with deleteRule_lifecycle [OF ok fate] show ?thesis by simp
  qed
  with mem show ?thesis by (simp add: lifecycle_ok_def)
qed

lemma tame_run_ok: "tame_run st \<Longrightarrow> lifecycle_ok st"
proof (induction rule: tame_run.induct)
  case (tame_start windows)
  then show ?case by (simp add: lifecycle_ok_def no_orphans_def status_enforced_def new_rules_state_def)
qed (rule handle_lifecycle)

section \<open>Properties\<close>

text \<open>Whatever requests are made, whatever the database and Kafka do, and however often
  the server restarts: every record of the rule map sits under its own id, its payload names
  that id and the record's status, and the rule tables stay consistent.\<close>

theorem rule_map_consistent:
  "mem_ok (rs_mem (rules_run evs (new_rules_state windows))) \<and>
   rule_db_ok (rs_mysql (rules_run evs (new_rules_state windows)))"
proof -
  have "mem_ok (rs_mem st) \<and> rule_db_ok (rs_mysql st) \<Longrightarrow>
     mem_ok (rs_mem (rules_run evs st)) \<and> rule_db_ok (rs_mysql (rules_run evs st))" for st
    unfolding rules_run_def by (induction evs arbitrary: st) (use rules_step_ok in auto)
  then show ?thesis by (simp add: new_rules_state_def rule_db_ok_empty)
qed

text \<open>C40. A request that is not answered with 200 changes neither the rule map nor the
  tables, and sends nothing to Kafka that is delivered, a timed-out message that is delivered
  late excepted.\<close>

theorem failed_requests_change_nothing:
  assumes "mem_ok (rs_mem st)" and "reply_code (fst (handle env req st)) \<noteq> 200"
  shows "rs_mem (snd (handle env req st)) = rs_mem st \<and> rs_mysql (snd (handle env req st)) = rs_mysql st \<and>
     (if ev_kafka env = FlushTimedOut True then True else rs_kafka (snd (handle env req st)) = rs_kafka st)"
proof -
  have act: "rs_mem (snd r) = rs_mem st \<and> rs_mysql (snd r) = rs_mysql st \<and>
     (if ev_kafka env = FlushTimedOut True then True else rs_kafka (snd r) = rs_kafka st)"
    if "r = activate env rid s p f k st" and "reply_code (fst r) \<noteq> 200" for r rid s p f k
    using assms(1) that
    by (cases rule: activate_cases [of st rid env s p f k]) (auto simp: success_reply_def)
  show ?thesis
  proof (cases req)
    case (Create body)
    show ?thesis
      by (cases rule: createRule_cases [of env body st]) (use assms(2) Create in simp_all)
  next
    case (Update rid body)
    show ?thesis
      by (cases rule: updateRule_cases [of env rid body st]) (use assms(2) Update in simp_all)
  next
    case (Publish rid)
    with act assms(2) show ?thesis by (auto simp: publishRuleHandler_def)
  next
    case (SetStatus rid body)
    show ?thesis
      by (cases rule: updateRuleStatus_cases [of env rid body st]) (use act assms(2) SetStatus in auto)
  next
    case (Delete rid)
    show ?thesis
      using assms(1)
      by (cases rule: deleteRule_cases [of st rid env]) (use assms(2) Delete in \<open>auto simp: success_reply_def\<close>)
  qed
qed

definition demo_env :: env where
  "demo_env = \<lparr>ev_faults = no_faults, ev_kafka = Delivered, ev_lower = (\<lambda>s. s)\<rparr>"

theorem failed_requests_change_nothing_witness:
  "rs_mem (snd (handle demo_env (Delete ''R1'') (new_rules_state True))) ''R1'' = None"
proof -
  have "mem_ok (rs_mem (new_rules_state True))" by (simp add: new_rules_state_def)
  moreover have "reply_code (fst (handle demo_env (Delete ''R1'') (new_rules_state True))) \<noteq> 200"
    by (simp add: deleteRule_def new_rules_state_def)
  ultimately show ?thesis
    using failed_requests_change_nothing [of "new_rules_state True" demo_env "Delete ''R1''"]
    by (simp add: new_rules_state_def)
qed

text \<open>C18. As long as statuses are only set on rules that were published, no timed-out message
  is delivered late and the server does not restart: every rule Flink still holds is in the rule
  map and known to be published, so deleting it sends the tombstone; and a rule shown as ACTIVE
  or PAUSED is in that status in Flink.\<close>

theorem published_rules_tracked:
  assumes "tame_run st"
  shows "no_orphans st \<and> status_enforced st"
  using tame_run_ok [OF assms] by (simp add: lifecycle_ok_def)

lemma demo_rule_simps [simp]:
  "rm_id (vr_meta demo_rule) = ''R1''" "rm_name (vr_meta demo_rule) = ''Velocity''"
  "rm_status (vr_meta demo_rule) = ''DRAFT''"
  by (simp_all add: demo_rule_def)

lemma demo_create:
  "handle demo_env (Create (Some (rule_json demo_rule))) (new_rules_state True) =
     (Reply 200 (rule_json demo_rule),
      \<lparr>rs_mem = [''R1'' \<mapsto> draft_record demo_rule], rs_mysql = saved_db (\<lambda>s. s) True demo_rule 1 (empty_rule_db True),
       rs_kafka = []\<rparr>)"
proof -
  have g: "is_graphic CHR ''V''" "is_graphic CHR ''y''" by code_simp+
  have t: "trim_space ''Velocity'' \<noteq> []" by (simp add: trim_space_graphic g)
  have d: "with_status ''DRAFT'' (default_name ''R1'' demo_rule) = demo_rule"
    using t by (simp add: default_name_def with_status_def)
  have dn: "default_name ''R1'' demo_rule = demo_rule" using t by (simp add: default_name_def)
  have "\<not> equal_fold_ascii ''TUMBLING'' ''NONE''" by code_simp
  then have c: "create_check demo_rule = None"
    by (simp add: create_check_def no_windowing_def demo_rule_def)
  have w: "with_status ''DRAFT'' demo_rule = demo_rule" using d dn by simp
  show ?thesis
    by (simp add: createRule_def rule_json_round [OF demo_rule_ok] new_rules_state_def dn c w
        saveNewRuleVersion_no_faults demo_env_def draft_record_def Let_def)
qed

theorem published_rules_tracked_witness:
  "status_enforced (snd (handle demo_env (Publish ''R1'') (snd (handle demo_env (Create (Some (rule_json demo_rule))) (new_rules_state True)))))"
proof -
  have "tame_run (snd (handle demo_env (Publish ''R1'') (snd (handle demo_env (Create (Some (rule_json demo_rule))) (new_rules_state True)))))"
    by (intro tame_step tame_start) (simp_all add: tame_request_def demo_env_def)
  from published_rules_tracked [OF this] show ?thesis by blast
qed

text \<open>Without the first condition a rule escapes: setting a rule that was never published
  to ACTIVE starts it in Flink but leaves it marked as unpublished, so deleting it afterwards
  removes it here without a tombstone, and Flink goes on enforcing a rule that no longer exists.\<close>

theorem status_on_draft_leaves_orphan:
  assumes ok: "mem_ok (rs_mem st)" and r: "rs_mem st rid = Some rec" and draft: "\<not> rec_published rec"
    and env: "ev_kafka env = Delivered"
  defines "st1 \<equiv> snd (handle env (SetStatus rid (Some (GMap [(''status'', GStr ''ACTIVE'')]))) st)"
  shows "reply_code (fst (handle env' (Delete rid) st1)) = 200 \<and>
     rs_mem (snd (handle env' (Delete rid) st1)) rid = None \<and>
     flink_view (rs_kafka (snd (handle env' (Delete rid) st1))) rid = Some ''ACTIVE''"
proof -
  have ok1: "mem_ok (rs_mem st1)" unfolding st1_def by (rule handle_mem_ok [OF ok])
  have req: "status_request (GMap [(''status'', GStr ''ACTIVE'')]) = Some ''ACTIVE''"
    by (simp add: status_request_def)
  obtain f k where st1: "st1 = snd (activate env rid ''ACTIVE'' False f k st)"
    using req by (simp add: st1_def updateRuleStatus_def)
  have view: "flink_view (rs_kafka st1) rid = Some ''ACTIVE''"
    and r1: "\<exists>rec1. rs_mem st1 rid = Some rec1 \<and> \<not> rec_published rec1"
    using ok
    by (cases rule: activate_cases [of st rid env "''ACTIVE''" False f k];
        use r draft env record_ok_dict(3) [OF mem_okD [OF ok r]] in \<open>simp add: st1\<close>)+
  from ok1 show ?thesis
  proof (cases rule: deleteRule_cases [of st1 rid env'])
    case (deleted rec1 c db)
    with view r1 show ?thesis by (auto simp: success_reply_def)
  qed (use r1 in auto)
qed

theorem status_on_draft_leaves_orphan_witness:
  "flink_view (rs_kafka (snd (handle demo_env (Delete ''R1'')
     (snd (handle demo_env (SetStatus ''R1'' (Some (GMap [(''status'', GStr ''ACTIVE'')])))
        (snd (handle demo_env (Create (Some (rule_json demo_rule))) (new_rules_state True)))))))) ''R1'' = Some ''ACTIVE''"
proof -
  let ?st = "snd (handle demo_env (Create (Some (rule_json demo_rule))) (new_rules_state True))"
  have "mem_ok (rs_mem ?st)" by (intro handle_mem_ok) (simp add: new_rules_state_def)
  moreover have "rs_mem ?st ''R1'' = Some (draft_record demo_rule)" "\<not> rec_published (draft_record demo_rule)"
    unfolding demo_create by (simp_all add: draft_record_def)
  moreover have "ev_kafka demo_env = Delivered" by (simp add: demo_env_def)
  ultimately show ?thesis using status_on_draft_leaves_orphan by blast
qed

text \<open>Without the last condition too: a rule that was published, paused and edited is a
  DRAFT in the tables, so after a restart it counts as never published; deleting it then sends
  no tombstone, and Flink keeps whatever it held.\<close>

theorem restart_forgets_publication:
  assumes load: "loadActiveRules no_faults (rs_mysql st) = Inr m" and r: "m rid = Some rec"
    and draft: "rec_status rec = ''DRAFT''" and held: "flink_view (rs_kafka st) rid = Some s"
  shows "reply_code (fst (handle env (Delete rid) (restart no_faults st))) = 200 \<and>
     rs_mem (snd (handle env (Delete rid) (restart no_faults st))) rid = None \<and>
     flink_view (rs_kafka (snd (handle env (Delete rid) (restart no_faults st)))) rid = Some s"
proof -
  let ?st = "restart no_faults st"
  have mem: "rs_mem ?st = m" using load by (simp add: restart_def loadFromMySQL_def)
  have unpub: "\<not> rec_published rec"
    using loadActiveRules_ok [OF load] r draft by (auto simp: loaded_ok_def)
  from restart_mem_ok [of no_faults st] show ?thesis
  proof (cases rule: deleteRule_cases [of ?st rid env])
    case (deleted rec1 c db)
    with mem r unpub held show ?thesis by (auto simp: success_reply_def)
  qed (use mem r unpub in auto)
qed

theorem restart_forgets_publication_witness:
  "flink_view (rs_kafka (snd (handle demo_env (Delete ''R1'') (restart no_faults
     \<lparr>rs_mem = Map.empty, rs_mysql = saved_db (\<lambda>s. s) True demo_rule 2 (saved_db (\<lambda>s. s) True demo_rule 1 (empty_rule_db True)),
      rs_kafka = [(''R1'', rule_json (with_status ''PAUSED'' demo_rule))]\<rparr>)))) ''R1'' = Some ''PAUSED''"
proof -
  let ?db1 = "saved_db (\<lambda>s. s) True demo_rule 1 (empty_rule_db True)"
  let ?db = "saved_db (\<lambda>s. s) True demo_rule 2 ?db1"
  let ?st = "\<lparr>rs_mem = Map.empty, rs_mysql = ?db, rs_kafka = [(''R1'', rule_json (with_status ''PAUSED'' demo_rule))]\<rparr>"
  have "loadActiveRules no_faults ?db1 = Inr [''R1'' \<mapsto> record_of demo_rule 1]"
    using load_saved [OF rule_db_ok_empty demo_rule_ok _ _ load_empty, of True True "\<lambda>s. s" 1] by simp
  moreover have "rule_db_ok ?db1" "db_has_windows ?db1"
    by (rule saved_db_ok [OF rule_db_ok_empty]) (simp_all add: saved_db_def Let_def)
  ultimately have "loadActiveRules no_faults ?db = Inr [''R1'' \<mapsto> record_of demo_rule 2]"
    using load_saved [of ?db1 demo_rule True _ "\<lambda>s. s" 2] demo_rule_ok by simp
  then have ld: "loadActiveRules no_faults (rs_mysql ?st) = Inr [''R1'' \<mapsto> record_of demo_rule 2]" by simp
  show ?thesis
    using restart_forgets_publication [OF ld, of "''R1''" "record_of demo_rule 2" "''PAUSED''" demo_env]
    by (simp add: record_of_def flink_view_def)
qed

text \<open>C20. A rule id can be created successfully at most once in the life of the database: whatever
  happens after a creation that was answered with 200 (deletion, restarts and failures included),
  creating a rule with the same id again is not. The \<open>UNIQUE\<close> key of the versions refuses it, since a
  creation always inserts version 1 and a deletion keeps the versions.\<close>

theorem rule_id_created_once:
  assumes "mem_ok (rs_mem st) \<and> rule_db_ok (rs_mysql st)"
    and "Option.bind body rule_of_json = Some rule" and "reply_code (fst (handle env (Create body) st)) = 200"
    and "Option.bind body' rule_of_json = Some rule'" and "rm_id (vr_meta rule') = rm_id (vr_meta rule)"
  shows "reply_code (fst (handle env' (Create body') (rules_run evs (snd (handle env (Create body) st))))) \<noteq> 200"
proof -
  let ?st = "snd (handle env (Create body) st)" and ?rid = "rm_id (vr_meta rule)"
  have inv: "mem_ok (rs_mem ?st) \<and> rule_db_ok (rs_mysql ?st)"
    using rules_step_ok [OF assms(1), of "Request env (Create body)"] by simp
  have "version_taken ?rid 1 (rs_mysql ?st)"
  proof (cases rule: createRule_cases [of env body st])
    case (created rule0 r db)
    then have "db = saved_db (ev_lower env) w r 1 (rs_mysql st) \<Longrightarrow> ?thesis" for w
      using assms(2) by (simp add: version_taken_def saved_rules del: set_map)
    then show ?thesis
      using created by (cases rule: saveNewRuleVersion_cases [of "ev_lower env" "ev_faults env" r 1 "rs_mysql st"]) auto
  qed (use assms(3) in simp)
  then have taken: "version_taken ?rid 1 (rs_mysql (rules_run evs ?st))"
    by (rule rules_run_taken [OF inv])
  show ?thesis
  proof (cases rule: createRule_cases [of env' body' "rules_run evs ?st"])
    case (created rule0 r db)
    then show ?thesis
      using taken assms(4,5)
      by (cases rule: saveNewRuleVersion_cases [of "ev_lower env'" "ev_faults env'" r 1 "rs_mysql (rules_run evs ?st)"]) auto
  qed simp
qed

theorem rule_id_created_once_witness:
  "reply_code (fst (handle demo_env (Create (Some (rule_json demo_rule)))
     (rules_run [Request demo_env (Delete ''R1''), Restart no_faults]
        (snd (handle demo_env (Create (Some (rule_json demo_rule))) (new_rules_state True)))))) \<noteq> 200"
proof (rule rule_id_created_once)
  show "mem_ok (rs_mem (new_rules_state True)) \<and> rule_db_ok (rs_mysql (new_rules_state True))"
    by (simp add: new_rules_state_def rule_db_ok_empty)
  show "reply_code (fst (handle demo_env (Create (Some (rule_json demo_rule))) (new_rules_state True))) = 200"
    unfolding demo_create by simp
qed (simp_all add: rule_json_round [OF demo_rule_ok])

text \<open>C15. A rule the caller is told was created survives a restart: if the request is answered with
  200, the restarted server has the rule as version 1, a DRAFT, with the definition the caller was
  shown, up to what the tables keep of it: cardinality hints are HIGH or LOW, sinks are explicit,
  and where \<open>window_configs\<close> is missing (or is reported missing when its row is inserted) the window
  is lost, with no sign of it in the answer.\<close>

theorem created_rule_survives_restart:
  assumes inv: "rule_db_ok (rs_mysql st)" and load: "loadActiveRules no_faults (rs_mysql st) = Inr m"
    and body: "Option.bind body rule_of_json = Some rule0" "rule_ok rule0"
    and reply: "handle env (Create body) st = (Reply 200 shown, st')"
  shows "\<exists>rule rec. shown = rule_json rule \<and> rs_mem (restart no_faults st') (rm_id (vr_meta rule0)) = Some rec \<and>
     rec_status rec = ''DRAFT'' \<and> rec_version rec = 1 \<and>
     rule_of_json (rec_payload rec) = Some (rule\<lparr>
       vr_windowing := (if db_has_windows (rs_mysql st) \<and> ev_faults env InsertWindow = None
                        then vr_windowing rule else zero_windowing),
       vr_aggs := map (\<lambda>a. a\<lparr>ag_cardinality := (if ag_cardinality a = ''HIGH'' then ''HIGH'' else ''LOW'')\<rparr>) (vr_aggs rule),
       vr_sinks := Some (case vr_sinks rule of None \<Rightarrow> zero_sinks | Some s \<Rightarrow> s)\<rparr>)"
proof (cases rule: createRule_cases [of env body st])
  case (created r0 rule db)
  have r0: "r0 = rule0" using created(1) body(1) by simp
  have ok: "rule_ok rule" and id: "rm_id (vr_meta rule) = rm_id (vr_meta rule0)"
    and draft: "rm_status (vr_meta rule) = ''DRAFT''"
    using created(2) body(2) by (simp_all add: r0)
  have st': "rs_mysql st' = db" "shown = rule_json rule" using created(6) reply by auto
  let ?r = "windowed (db_has_windows (rs_mysql st) \<and> ev_faults env InsertWindow = None) rule"
  from saved_version_loads [OF inv ok load created(5)]
  have "rs_mem (restart no_faults st') (rm_id (vr_meta rule0)) = Some (record_of ?r 1)"
    by (simp add: restart_def loadFromMySQL_def st'(1) id)
  moreover have "rec_status (record_of ?r 1) = ''DRAFT''" "rec_version (record_of ?r 1) = 1"
    using draft by (simp_all add: record_of_def)
  moreover note record_of_payload [OF windowed_ok [OF ok], of _ 1]
  ultimately show ?thesis using st'(2) unfolding stored_form_def windowed_def by auto
qed (use reply in simp)

theorem created_rule_survives_restart_witness:
  "\<exists>rec. rs_mem (restart no_faults (snd (handle demo_env (Create (Some (rule_json demo_rule))) (new_rules_state True)))) ''R1''
     = Some rec \<and> rec_version rec = 1"
proof -
  have "rule_db_ok (rs_mysql (new_rules_state True))" "loadActiveRules no_faults (rs_mysql (new_rules_state True)) = Inr Map.empty"
    by (simp_all add: new_rules_state_def rule_db_ok_empty demo_env_def)
  note hyps = this
  have "Option.bind (Some (rule_json demo_rule)) rule_of_json = Some demo_rule"
    by (simp add: rule_json_round [OF demo_rule_ok])
  from created_rule_survives_restart [OF hyps this demo_rule_ok demo_create] show ?thesis
    unfolding demo_create by auto
qed

end
