(* ===== verification/Rbac.thy ===== *)
theory Rbac
  imports GoValue
begin

text \<open>
  \<open>internal/services/rbac.go\<close> over the IAM tables of \<open>migrations/mysql/0001_init_rbac.sql\<close>:
  permission resolution with its cache, identity lookup and just-in-time provisioning with its
  rate limiter, and the audit log. Tables are association lists keyed by id; \<open>user_roles\<close> has at
  most one row per user, \<open>users\<close> unique subjects and unique e-mail addresses. Text columns are
  compared byte by byte, while the tables' default collation \<open>utf8mb4\<close> ignores case (and accents), so
  that two subjects or e-mail addresses the model keeps apart may be one for the server. A call to
  the database may fail (\<open>True\<close> in a fault assignment); a commit that fails is taken not to have
  happened, although an acknowledgement that is lost looks the same to the program.
\<close>

section \<open>Tables\<close>

record user_row =
  us_subject :: string
  us_email :: string
  us_display :: string
  us_status :: string

record audit_row =
  au_actor :: "int option"
  au_action :: string
  au_target :: string
  au_meta :: "(string \<times> string) list"

record iam_db =
  im_users :: "(int \<times> user_row) list"
  im_roles :: "(int \<times> string) list"
  im_perms :: "(int \<times> (string \<times> string)) list"
  im_user_roles :: "(int \<times> int) list"
  im_role_perms :: "(int \<times> int) list"
  im_audit :: "audit_row list"
  im_next :: int

datatype iam_error =
    UserNotFound | UserDisabled | DuplicateUser | CannotEditSelf | LastActiveSuperAdmin
  | UnknownRole | IamUnavailable

datatype iam_call =
    IGetDB | IUserStatus | IJoin | ILookup | IBegin | IInsertUser | IDefaultRole | IAssignRole | ICommit
  | IAudit string | ITarget | ICount | ISetRole | ISetStatus

type_synonym iam_faults = "iam_call \<Rightarrow> bool"

abbreviation iam_up :: iam_faults where
  "iam_up \<equiv> \<lambda>_. False"

text \<open>The name of a user's role; a user without one has none.\<close>

definition role_of_user :: "iam_db \<Rightarrow> int \<Rightarrow> string option" where
  "role_of_user db uid = Option.bind (map_of (im_user_roles db) uid) (map_of (im_roles db))"

definition perm_key :: "string \<times> string \<Rightarrow> string" where
  "perm_key p = fst p @ '':'' @ snd p"

section \<open>Permission resolution\<close>

text \<open>The rows of the four-way join for a user: role name, resource and action.\<close>

definition permission_rows :: "iam_db \<Rightarrow> int \<Rightarrow> (string \<times> (string \<times> string)) list" where
  "permission_rows db uid =
     concat (map (\<lambda>(u, r). if u \<noteq> uid then [] else
       concat (map (\<lambda>(r', name). if r' \<noteq> r then [] else
         concat (map (\<lambda>(r'', p). if r'' \<noteq> r then [] else
           concat (map (\<lambda>(p', ra). if p' \<noteq> p then [] else [(name, ra)]) (im_perms db)))
           (im_role_perms db)))
         (im_roles db)))
       (im_user_roles db))"

type_synonym grant = "string list \<times> string list"

text \<open>The user's roles, sorted, and the set of permission keys, from the join's rows.\<close>

definition grant_of :: "iam_db \<Rightarrow> int \<Rightarrow> grant" where
  "grant_of db uid =
     (let rows = permission_rows db uid
      in (sort (remdups (map fst rows)), remdups (map (perm_key \<circ> snd) rows)))"

text \<open>The status is read from the tables as they are at one moment, the join from those of a later one.\<close>

definition fetchUserPermissions :: "iam_faults \<Rightarrow> iam_db \<Rightarrow> iam_db \<Rightarrow> int \<Rightarrow> iam_error + grant" where
  "fetchUserPermissions flt db1 db2 uid =
     (if flt IGetDB \<or> flt IUserStatus then Inl IamUnavailable
      else case map_of (im_users db1) uid of
        None \<Rightarrow> Inl UserNotFound
      | Some u \<Rightarrow>
          if us_status u \<noteq> ''ACTIVE'' then Inl UserDisabled
          else if flt IJoin then Inl IamUnavailable
          else Inr (grant_of db2 uid))"

section \<open>The permission cache\<close>

record cache_entry =
  ce_grant :: grant
  ce_fetched :: instant

type_synonym perm_cache = "int \<rightharpoonup> cache_entry"

record rbac_config =
  rb_ttl :: int
  rb_max_stale :: int
  rb_jit_limit :: int

definition seconds :: "int \<Rightarrow> duration" where
  "seconds n = wrap64 (wrap64 n * 1000000000)"

text \<open>
  One resolution in its three parts: the look in the cache at \<open>t0\<close>, the fetch, and what is
  done with its result at \<open>t1\<close> (an authoritative refusal evicts, another failure may serve the
  entry seen before while it is not too old, a success is cached).
\<close>

definition cache_look :: "rbac_config \<Rightarrow> instant \<Rightarrow> perm_cache \<Rightarrow> int \<Rightarrow> grant option" where
  "cache_look cfg t0 cache uid =
     (case cache uid of
        None \<Rightarrow> None
      | Some e \<Rightarrow> if t0 - ce_fetched e < seconds (rb_ttl cfg) then Some (ce_grant e) else None)"

definition cache_settle ::
  "rbac_config \<Rightarrow> instant \<Rightarrow> cache_entry option \<Rightarrow> iam_error + grant \<Rightarrow> perm_cache \<Rightarrow> int
     \<Rightarrow> (iam_error + grant) \<times> perm_cache" where
  "cache_settle cfg t1 seen fetched cache uid =
     (case fetched of
        Inl err \<Rightarrow>
          (if err = UserNotFound \<or> err = UserDisabled then (Inl err, cache(uid := None))
           else case seen of
             Some e \<Rightarrow> if t1 - ce_fetched e < seconds (rb_max_stale cfg) then (Inr (ce_grant e), cache)
                       else (Inl IamUnavailable, cache)
           | None \<Rightarrow> (Inl IamUnavailable, cache))
      | Inr g \<Rightarrow> (Inr g, cache(uid \<mapsto> \<lparr>ce_grant = g, ce_fetched = t1\<rparr>)))"

definition getUserPermissions ::
  "rbac_config \<Rightarrow> instant \<Rightarrow> instant \<Rightarrow> iam_error + grant \<Rightarrow> perm_cache \<Rightarrow> int
     \<Rightarrow> (iam_error + grant) \<times> perm_cache" where
  "getUserPermissions cfg t0 t1 fetched cache uid =
     (case cache_look cfg t0 cache uid of
        Some g \<Rightarrow> (Inr g, cache)
      | None \<Rightarrow> cache_settle cfg t1 (cache uid) fetched cache uid)"

definition invalidateUserPermissions :: "int \<Rightarrow> perm_cache \<Rightarrow> perm_cache" where
  "invalidateUserPermissions uid cache = cache(uid := None)"

section \<open>Identity\<close>

definition getUserByExternalSubject :: "iam_faults \<Rightarrow> iam_db \<Rightarrow> string \<Rightarrow> iam_error + (int \<times> string)" where
  "getUserByExternalSubject flt db sub =
     (if flt IGetDB \<or> flt ILookup then Inl IamUnavailable
      else case filter (\<lambda>(i, u). us_subject u = sub) (im_users db) of
        [] \<Rightarrow> Inl UserNotFound
      | (i, u) # _ \<Rightarrow> Inr (i, us_status u))"

record jit_limiter =
  jl_window :: instant
  jl_counts :: "string \<rightharpoonup> int"

text \<open>The zero \<open>time.Time\<close> is the start of year 1.\<close>

definition new_limiter :: jit_limiter where
  "new_limiter = \<lparr>jl_window = - 62135596800000000000, jl_counts = Map.empty\<rparr>"

definition jit_count :: "jit_limiter \<Rightarrow> string \<Rightarrow> int" where
  "jit_count l ip = (case jl_counts l ip of None \<Rightarrow> 0 | Some n \<Rightarrow> n)"

definition jitRateLimited :: "int \<Rightarrow> instant \<Rightarrow> string \<Rightarrow> jit_limiter \<Rightarrow> bool \<times> jit_limiter" where
  "jitRateLimited limit now ip l =
     (let l1 = (if now - jl_window l > 60000000000 then \<lparr>jl_window = now, jl_counts = Map.empty\<rparr> else l);
          n = jit_count l1 ip + 1
      in (n > limit, l1\<lparr>jl_counts := (jl_counts l1)(ip \<mapsto> n)\<rparr>))"

definition placeholder_email :: "string \<Rightarrow> string" where
  "placeholder_email sub = (if CHR ''@'' \<in> set sub then sub else sub @ ''@jit.invalid'')"

definition insert_user :: "user_row \<Rightarrow> iam_db \<Rightarrow> iam_error + (iam_db \<times> int)" where
  "insert_user u db =
     (if list_ex (\<lambda>(i, v). us_subject v = us_subject u \<or> us_email v = us_email u) (im_users db)
      then Inl DuplicateUser
      else Inr (db\<lparr>im_users := im_users db @ [(im_next db, u)], im_next := im_next db + 1\<rparr>, im_next db))"

definition role_id :: "iam_db \<Rightarrow> string \<Rightarrow> int option" where
  "role_id db name = map_option fst (List.find (\<lambda>(i, n). n = name) (im_roles db))"

definition provisionUser :: "iam_faults \<Rightarrow> string \<Rightarrow> iam_db \<Rightarrow> (iam_error + (int \<times> string)) \<times> iam_db" where
  "provisionUser flt sub db =
     (if flt IGetDB \<or> flt IBegin \<or> flt IInsertUser then (Inl IamUnavailable, db)
      else case insert_user \<lparr>us_subject = sub, us_email = placeholder_email sub, us_display = sub, us_status = ''ACTIVE''\<rparr> db of
        Inl e \<Rightarrow> (Inl e, db)
      | Inr (db1, uid) \<Rightarrow>
          (case role_id db1 ''READ_ONLY_ANALYST'' of
             None \<Rightarrow> (Inl IamUnavailable, db)
           | Some rid \<Rightarrow>
               if flt IDefaultRole \<or> flt IAssignRole \<or> flt ICommit then (Inl IamUnavailable, db)
               else (Inr (uid, ''ACTIVE''), db1\<lparr>im_user_roles := im_user_roles db1 @ [(uid, rid)]\<rparr>)))"

definition recordAudit ::
  "iam_faults \<Rightarrow> int option \<Rightarrow> string \<Rightarrow> string \<Rightarrow> (string \<times> string) list \<Rightarrow> iam_db \<Rightarrow> iam_db" where
  "recordAudit flt actor action target meta db =
     (if flt IGetDB \<or> flt (IAudit action) then db
      else db\<lparr>im_audit := im_audit db @ [\<lparr>au_actor = actor, au_action = action, au_target = target, au_meta = meta\<rparr>]\<rparr>)"

text \<open>\<open>flt\<close> are the faults of the first lookup, the provisioning and the audit; \<open>flt2\<close> those of
  the second lookup after a lost race.\<close>

definition getOrProvisionUser ::
  "rbac_config \<Rightarrow> iam_faults \<Rightarrow> iam_faults \<Rightarrow> instant \<Rightarrow> string \<Rightarrow> string \<Rightarrow> iam_db \<Rightarrow> jit_limiter
     \<Rightarrow> (iam_error + (int \<times> string)) \<times> iam_db \<times> jit_limiter" where
  "getOrProvisionUser cfg flt flt2 now sub ip db l =
     (case getUserByExternalSubject flt db sub of
        Inr r \<Rightarrow> (Inr r, db, l)
      | Inl e \<Rightarrow>
          (if e \<noteq> UserNotFound then (Inl e, db, l)
           else (let (limited, l1) = jitRateLimited (rb_jit_limit cfg) now ip l in
             if limited then (Inl UserNotFound, db, l1)
             else case provisionUser flt sub db of
               (Inl DuplicateUser, db1) \<Rightarrow> (getUserByExternalSubject flt2 db1 sub, db1, l1)
             | (Inl e, db1) \<Rightarrow> (Inl e, db1, l1)
             | (Inr (uid, st), db1) \<Rightarrow>
                 (Inr (uid, st),
                  recordAudit flt None ''user.jit_provision'' (show_int uid)
                    [(''external_subject'', sub), (''source_ip'', ip)] db1, l1))))"

section \<open>The seeded roles and permissions\<close>

definition seed_roles :: "(int \<times> string) list" where
  "seed_roles = [(1, ''SUPER_ADMIN''), (2, ''RULE_MANAGER''), (3, ''RULE_EDITOR''), (4, ''READ_ONLY_ANALYST'')]"

definition seed_perms :: "(int \<times> (string \<times> string)) list" where
  "seed_perms =
     [(1, (''rules'', ''create'')), (2, (''rules'', ''read'')), (3, (''rules'', ''update'')),
      (4, (''rules'', ''delete'')), (5, (''rules'', ''publish'')), (6, (''live_analysis'', ''read'')),
      (7, (''aggregated_analysis'', ''read'')), (8, (''historical_analysis'', ''read'')),
      (9, (''historical_analysis'', ''execute'')), (10, (''iam'', ''manage''))]"

definition seed_role_perms :: "(int \<times> int) list" where
  "seed_role_perms =
     concat (map (\<lambda>(r, role). concat (map (\<lambda>(p, (res, act)).
       if role = ''SUPER_ADMIN''
          \<or> role = ''RULE_MANAGER'' \<and> res \<noteq> ''iam''
          \<or> role = ''RULE_EDITOR'' \<and> (res = ''rules'' \<and> act \<in> {''create'', ''read'', ''update''}
               \<or> res \<in> {''live_analysis'', ''aggregated_analysis'', ''historical_analysis''})
          \<or> role = ''READ_ONLY_ANALYST'' \<and> (res = ''rules'' \<and> act = ''read''
               \<or> res \<in> {''live_analysis'', ''aggregated_analysis'', ''historical_analysis''})
       then [(r, p)] else []) seed_perms)) seed_roles)"

text \<open>The identity tables as the migration leaves them, with the given users and roles of users.\<close>

definition seed_iam :: "(int \<times> user_row) list \<Rightarrow> (int \<times> int) list \<Rightarrow> int \<Rightarrow> iam_db" where
  "seed_iam us urs next_id =
     \<lparr>im_users = us, im_roles = seed_roles, im_perms = seed_perms, im_user_roles = urs,
      im_role_perms = seed_role_perms, im_audit = [], im_next = next_id\<rparr>"

end
