(* ===== verification/Rbac_Props.thy ===== *)
theory Rbac_Props
  imports Rbac
begin

text \<open>
  What permission resolution and provisioning guarantee: how old a served permission set can
  be when checks, their queries, role changes and invalidations interleave; that provisioning
  keeps the identity tables consistent under every failure; and how many accounts one address
  can create.
\<close>

section \<open>Consistency of the identity tables\<close>

definition iam_ok :: "iam_db \<Rightarrow> bool" where
  "iam_ok db \<longleftrightarrow>
     distinct (map fst (im_users db))
   \<and> distinct (map (us_subject \<circ> snd) (im_users db))
   \<and> distinct (map (us_email \<circ> snd) (im_users db))
   \<and> (\<forall>i \<in> fst ` set (im_users db). i < im_next db)
   \<and> distinct (map fst (im_roles db)) \<and> distinct (map snd (im_roles db))
   \<and> distinct (map fst (im_user_roles db))
   \<and> fst ` set (im_user_roles db) \<subseteq> fst ` set (im_users db)
   \<and> snd ` set (im_user_roles db) \<subseteq> fst ` set (im_roles db)"

lemma iam_okD:
  assumes "iam_ok db"
  shows "distinct (map fst (im_users db))"
    and "distinct (map (us_subject \<circ> snd) (im_users db))"
    and "distinct (map (us_email \<circ> snd) (im_users db))"
    and "i \<in> fst ` set (im_users db) \<Longrightarrow> i < im_next db"
    and "distinct (map fst (im_roles db))"
    and "distinct (map snd (im_roles db))"
    and "distinct (map fst (im_user_roles db))"
    and "fst ` set (im_user_roles db) \<subseteq> fst ` set (im_users db)"
    and "snd ` set (im_user_roles db) \<subseteq> fst ` set (im_roles db)"
  using assms by (auto simp: iam_ok_def)

lemma role_id_mem: "role_id db name = Some r \<Longrightarrow> (r, name) \<in> set (im_roles db)"
  by (auto simp: role_id_def find_Some_iff) (metis nth_mem)

lemma role_id_name: "iam_ok db \<Longrightarrow> role_id db name = Some r \<Longrightarrow> map_of (im_roles db) r = Some name"
  by (simp add: iam_okD map_of_is_SomeI role_id_mem)

lemma next_fresh:
  assumes "iam_ok db"
  shows "map_of (im_users db) (im_next db) = None" and "map_of (im_user_roles db) (im_next db) = None"
    and "im_next db \<notin> fst ` set (im_users db)" and "im_next db \<notin> fst ` set (im_user_roles db)"
proof -
  show f: "im_next db \<notin> fst ` set (im_users db)"
    using iam_okD(4) [OF assms, of "im_next db"] by blast
  with iam_okD(8) [OF assms] show g: "im_next db \<notin> fst ` set (im_user_roles db)" by blast
  from f show "map_of (im_users db) (im_next db) = None" by (simp add: map_of_eq_None_iff)
  from g show "map_of (im_user_roles db) (im_next db) = None" by (simp add: map_of_eq_None_iff)
qed

lemma recordAudit_tables [simp]:
  "im_users (recordAudit flt a act t m db) = im_users db"
  "im_roles (recordAudit flt a act t m db) = im_roles db"
  "im_perms (recordAudit flt a act t m db) = im_perms db"
  "im_user_roles (recordAudit flt a act t m db) = im_user_roles db"
  "im_role_perms (recordAudit flt a act t m db) = im_role_perms db"
  "im_next (recordAudit flt a act t m db) = im_next db"
  by (simp_all add: recordAudit_def)

lemma iam_ok_recordAudit [simp]: "iam_ok (recordAudit flt a act t m db) = iam_ok db"
  by (simp add: iam_ok_def)

section \<open>Provisioning\<close>

text \<open>Either nothing happens, or one active user with the default role is added.\<close>

definition new_user :: "string \<Rightarrow> user_row" where
  "new_user sub = \<lparr>us_subject = sub, us_email = placeholder_email sub, us_display = sub, us_status = ''ACTIVE''\<rparr>"

definition with_user :: "string \<Rightarrow> int \<Rightarrow> iam_db \<Rightarrow> iam_db" where
  "with_user sub rid db =
     db\<lparr>im_users := im_users db @ [(im_next db, new_user sub)], im_next := im_next db + 1,
        im_user_roles := im_user_roles db @ [(im_next db, rid)]\<rparr>"

definition sub_or_email_taken :: "iam_db \<Rightarrow> string \<Rightarrow> bool" where
  "sub_or_email_taken db sub \<longleftrightarrow>
     list_ex (\<lambda>(i, v). us_subject v = sub \<or> us_email v = placeholder_email sub) (im_users db)"

lemma not_taken:
  "\<not> sub_or_email_taken db sub \<longleftrightarrow>
     (\<forall>p \<in> set (im_users db). us_subject (snd p) \<noteq> sub \<and> us_email (snd p) \<noteq> placeholder_email sub)"
  by (auto simp: sub_or_email_taken_def list_ex_iff)

lemma provision_cases:
  "(\<exists>e. provisionUser flt sub db = (Inl e, db) \<and> (e = DuplicateUser \<longrightarrow> sub_or_email_taken db sub)) \<or>
   (\<exists>rid. provisionUser flt sub db = (Inr (im_next db, ''ACTIVE''), with_user sub rid db) \<and>
      role_id db ''READ_ONLY_ANALYST'' = Some rid \<and> \<not> sub_or_email_taken db sub)"
  by (cases "sub_or_email_taken db sub")
    (auto simp: provisionUser_def insert_user_def role_id_def with_user_def new_user_def sub_or_email_taken_def
      split: option.splits)

lemma provisionUser_free:
  assumes "\<not> sub_or_email_taken db sub" and "role_id db ''READ_ONLY_ANALYST'' = Some rid"
  shows "provisionUser iam_up sub db = (Inr (im_next db, ''ACTIVE''), with_user sub rid db)"
proof -
  have "role_id (db\<lparr>im_users := us, im_next := n\<rparr>) nm = role_id db nm" for us n nm
    by (simp add: role_id_def)
  with assms show ?thesis
    by (simp add: provisionUser_def insert_user_def with_user_def new_user_def sub_or_email_taken_def)
qed

lemma with_user_ok:
  assumes ok: "iam_ok db" and rid: "role_id db name = Some rid" and free: "\<not> sub_or_email_taken db sub"
  shows "iam_ok (with_user sub rid db)"
proof -
  have "rid \<in> fst ` set (im_roles db)" using role_id_mem [OF rid] by force
  moreover have "sub \<notin> set (map (us_subject \<circ> snd) (im_users db))"
    and "placeholder_email sub \<notin> set (map (us_email \<circ> snd) (im_users db))"
    using free by (auto simp: not_taken)
  ultimately show ?thesis
    using ok next_fresh(3,4) [OF ok] unfolding iam_ok_def with_user_def new_user_def
    by (simp add: less_imp_le_nat) (auto intro: less_trans)
qed

lemma role_of_recordAudit [simp]: "role_of_user (recordAudit flt a act t m db) = role_of_user db"
  by (simp add: fun_eq_iff role_of_user_def)

lemma role_of_with_user:
  assumes "iam_ok db" and "role_id db name = Some rid"
  shows "role_of_user (with_user sub rid db) uid = (if uid = im_next db then Some name else role_of_user db uid)"
proof (cases "uid = im_next db")
  case True
  with assms show ?thesis
    by (simp add: role_of_user_def with_user_def next_fresh(2) role_id_name map_add_def)
next
  case False
  then have "map_of (im_user_roles db @ [(im_next db, rid)]) uid = map_of (im_user_roles db) uid"
    by (simp add: map_add_def split: option.splits)
  with False show ?thesis by (simp add: role_of_user_def with_user_def)
qed

lemma lookup_found:
  "(\<exists>e. getUserByExternalSubject flt db sub = Inl e \<and> e \<in> {UserNotFound, IamUnavailable} \<and>
      (e = UserNotFound \<longrightarrow> (\<forall>p \<in> set (im_users db). us_subject (snd p) \<noteq> sub))) \<or>
   (\<exists>i u. getUserByExternalSubject flt db sub = Inr (i, us_status u) \<and> (i, u) \<in> set (im_users db) \<and> us_subject u = sub)"
proof (cases "filter (\<lambda>(i, u). us_subject u = sub) (im_users db)")
  case Nil
  then show ?thesis by (auto simp: getUserByExternalSubject_def filter_empty_conv)
next
  case (Cons p ps)
  then have "p \<in> set (filter (\<lambda>(i, u). us_subject u = sub) (im_users db))" by simp
  then have "p \<in> set (im_users db)" and "us_subject (snd p) = sub" by (auto split: prod.splits)
  with Cons show ?thesis by (cases p) (fastforce simp: getUserByExternalSubject_def)
qed

text \<open>
  The three outcomes of resolving a subject: nothing changes; the attempt counts against the
  address but changes no table; or it counts and creates the user.
\<close>

lemma identity_cases:
  obtains (quiet) r where "getOrProvisionUser cfg flt flt2 now sub ip db l = (r, db, l)"
      and "r \<noteq> Inl UserNotFound"
      and "\<forall>uid st. r = Inr (uid, st) \<longrightarrow> (\<exists>u. (uid, u) \<in> set (im_users db) \<and> us_subject u = sub \<and> us_status u = st)"
  | (counted) r where
      "getOrProvisionUser cfg flt flt2 now sub ip db l = (r, db, snd (jitRateLimited (rb_jit_limit cfg) now ip l))"
      and "\<forall>p \<in> set (im_users db). us_subject (snd p) \<noteq> sub"
      and "\<exists>e. r = Inl e"
  | (created) rid where
      "getOrProvisionUser cfg flt flt2 now sub ip db l =
        (Inr (im_next db, ''ACTIVE''),
         recordAudit flt None ''user.jit_provision'' (show_int (im_next db))
           [(''external_subject'', sub), (''source_ip'', ip)] (with_user sub rid db),
         snd (jitRateLimited (rb_jit_limit cfg) now ip l))"
      and "\<not> fst (jitRateLimited (rb_jit_limit cfg) now ip l)"
      and "role_id db ''READ_ONLY_ANALYST'' = Some rid" and "\<not> sub_or_email_taken db sub"
proof -
  let ?J = "jitRateLimited (rb_jit_limit cfg) now ip l"
  from lookup_found [of flt db sub] show thesis
  proof (elim disjE exE conjE)
    fix i u
    assume "getUserByExternalSubject flt db sub = Inr (i, us_status u)" "(i, u) \<in> set (im_users db)" "us_subject u = sub"
    then show thesis by (intro quiet [of "Inr (i, us_status u)"]) (auto simp: getOrProvisionUser_def)
  next
    fix e
    assume e: "getUserByExternalSubject flt db sub = Inl e" "e \<in> {UserNotFound, IamUnavailable}"
      and none: "e = UserNotFound \<longrightarrow> (\<forall>p \<in> set (im_users db). us_subject (snd p) \<noteq> sub)"
    show thesis
    proof (cases "e = UserNotFound")
      case False
      with e show thesis by (intro quiet [of "Inl e"]) (auto simp: getOrProvisionUser_def)
    next
      case True
      with none have none: "\<forall>p \<in> set (im_users db). us_subject (snd p) \<noteq> sub" by simp
      show thesis
      proof (cases "fst ?J")
        case lim: True
        with e True none show thesis
          by (intro counted [of "Inl UserNotFound"]) (auto simp: getOrProvisionUser_def split: prod.splits)
      next
        case free: False
        from provision_cases [of flt sub db] show thesis
        proof (elim disjE exE conjE)
          fix e'
          assume pe: "provisionUser flt sub db = (Inl e', db)"
          from lookup_found [of flt2 db sub] none
          have "\<exists>x. getUserByExternalSubject flt2 db sub = Inl x" by force
          with e True free pe none show thesis
            by (intro counted [of "if e' = DuplicateUser then getUserByExternalSubject flt2 db sub else Inl e'"])
              (auto simp: getOrProvisionUser_def split: prod.splits iam_error.splits)
        next
          fix rid
          assume "provisionUser flt sub db = (Inr (im_next db, ''ACTIVE''), with_user sub rid db)"
            "role_id db ''READ_ONLY_ANALYST'' = Some rid" "\<not> sub_or_email_taken db sub"
          with e True free show thesis
            by (intro created [of rid]) (auto simp: getOrProvisionUser_def split: prod.splits)
        qed
      qed
    qed
  qed
qed

lemma getOrProvisionUser_ok:
  assumes "iam_ok db"
  shows "iam_ok (fst (snd (getOrProvisionUser cfg flt flt2 now sub ip db l)))"
proof (cases rule: identity_cases [of cfg flt flt2 now sub ip db l])
  case (created rid)
  with assms with_user_ok [of db "''READ_ONLY_ANALYST''" rid sub] show ?thesis by simp
qed (use assms in simp_all)

section \<open>Runs of identity requests\<close>

record id_request =
  ir_now :: instant
  ir_ip :: string
  ir_sub :: string
  ir_faults :: iam_faults
  ir_faults2 :: iam_faults

text \<open>The requests of a list answered in order, each with whether it created an account.\<close>

fun id_run :: "rbac_config \<Rightarrow> id_request list \<Rightarrow> iam_db \<Rightarrow> jit_limiter
    \<Rightarrow> (id_request \<times> bool) list \<times> iam_db \<times> jit_limiter" where
  "id_run cfg [] db l = ([], db, l)"
| "id_run cfg (r # rs) db l =
     (let (a, db1, l1) = getOrProvisionUser cfg (ir_faults r) (ir_faults2 r) (ir_now r) (ir_sub r) (ir_ip r) db l;
          (out, db2, l2) = id_run cfg rs db1 l1
      in ((r, im_users db1 \<noteq> im_users db) # out, db2, l2))"

lemma id_run_Cons:
  "fst (id_run cfg (r # rs) db l) =
     (let x = getOrProvisionUser cfg (ir_faults r) (ir_faults2 r) (ir_now r) (ir_sub r) (ir_ip r) db l
      in (r, im_users (fst (snd x)) \<noteq> im_users db) # fst (id_run cfg rs (fst (snd x)) (snd (snd x))))"
  by (simp add: Let_def split: prod.splits)

lemma id_run_requests [simp]: "map fst (fst (id_run cfg rs db l)) = rs"
  by (induction rs arbitrary: db l) (simp_all add: id_run_Cons Let_def del: id_run.simps(2))

text \<open>The accounts that requests from one address created from \<open>T\<close> to \<open>U\<close>.\<close>

definition accounts :: "string \<Rightarrow> instant \<Rightarrow> instant \<Rightarrow> (id_request \<times> bool) list \<Rightarrow> nat" where
  "accounts ip T U out = length (filter (\<lambda>(r, c). c \<and> ir_ip r = ip \<and> T \<le> ir_now r \<and> ir_now r \<le> U) out)"

lemma accounts_Nil [simp]: "accounts ip T U [] = 0"
  by (simp add: accounts_def)

lemma accounts_Cons [simp]:
  "accounts ip T U ((r, c) # out) =
     (if c \<and> ir_ip r = ip \<and> T \<le> ir_now r \<and> ir_now r \<le> U then Suc (accounts ip T U out) else accounts ip T U out)"
  by (simp add: accounts_def)

lemma accounts_late:
  assumes "\<And>r. r \<in> set rs \<Longrightarrow> U < ir_now r"
  shows "accounts ip T U (fst (id_run cfg rs db l)) = 0"
proof -
  have "U < ir_now r" if "(r, c) \<in> set (fst (id_run cfg rs db l))" for r c
  proof -
    from imageI [OF that, of fst] have "r \<in> set (map fst (fst (id_run cfg rs db l)))"
      by (simp only: set_map fst_conv)
    with assms show ?thesis by simp
  qed
  then show ?thesis by (fastforce simp: accounts_def filter_empty_conv)
qed

abbreviation in_order :: "id_request list \<Rightarrow> bool" where
  "in_order rs \<equiv> sorted_wrt (\<lambda>a b. ir_now a \<le> ir_now b) rs"

abbreviation jit_window :: duration where
  "jit_window \<equiv> 60000000000"

definition counts_ok :: "jit_limiter \<Rightarrow> bool" where
  "counts_ok l \<longleftrightarrow> (\<forall>ip. 0 \<le> jit_count l ip)"

lemma counts_ok_new [simp]: "counts_ok new_limiter"
  by (simp add: counts_ok_def jit_count_def new_limiter_def)

lemma jit_step:
  fixes ip :: string and now :: instant and limit :: int
  assumes "counts_ok l"
  defines "J \<equiv> jitRateLimited limit now ip l"
  shows "counts_ok (snd J)"
    and "now \<le> jl_window l + jit_window \<Longrightarrow> jl_window (snd J) = jl_window l \<and>
      jit_count (snd J) ip = jit_count l ip + 1 \<and> (\<forall>ip'. ip' \<noteq> ip \<longrightarrow> jit_count (snd J) ip' = jit_count l ip') \<and>
      (fst J \<longleftrightarrow> limit < jit_count l ip + 1)"
    and "jl_window l + jit_window < now \<Longrightarrow> jl_window (snd J) = now \<and>
      jit_count (snd J) ip = 1 \<and> (\<forall>ip'. ip' \<noteq> ip \<longrightarrow> jit_count (snd J) ip' = 0) \<and> (fst J \<longleftrightarrow> limit < 1)"
proof -
  from assms(1) have "0 \<le> jit_count l ip'" for ip' by (simp add: counts_ok_def)
  note c = this [unfolded jit_count_def]
  show "counts_ok (snd J)"
    using c unfolding J_def by (auto simp: counts_ok_def jitRateLimited_def jit_count_def Let_def)
qed (auto simp: J_def jitRateLimited_def jit_count_def Let_def)

lemma id_step:
  fixes r cfg db l
  defines "x \<equiv> getOrProvisionUser cfg (ir_faults r) (ir_faults2 r) (ir_now r) (ir_sub r) (ir_ip r) db l"
    and "J \<equiv> jitRateLimited (rb_jit_limit cfg) (ir_now r) (ir_ip r) l"
  shows "im_users (fst (snd x)) = im_users db \<and> (snd (snd x) = l \<or> snd (snd x) = snd J) \<or>
         snd (snd x) = snd J \<and> \<not> fst J"
  unfolding x_def J_def
  by (rule identity_cases [of cfg "ir_faults r" "ir_faults2 r" "ir_now r" "ir_sub r" "ir_ip r" db l]) simp_all

lemma accounts_in_window:
  assumes "counts_ok l" and "in_order rs" and "U \<le> jl_window l + jit_window"
  shows "accounts ip T U (fst (id_run cfg rs db l)) \<le> nat (rb_jit_limit cfg - jit_count l ip)"
  using assms
proof (induction rs arbitrary: db l)
  case (Cons r rs)
  show ?case
  proof (cases "U < ir_now r")
    case True
    with Cons.prems(2) have "accounts ip T U (fst (id_run cfg (r # rs) db l)) = 0"
      by (intro accounts_late) auto
    then show ?thesis by simp
  next
    case False
    let ?x = "getOrProvisionUser cfg (ir_faults r) (ir_faults2 r) (ir_now r) (ir_sub r) (ir_ip r) db l"
    from False Cons.prems(3) have now: "ir_now r \<le> jl_window l + jit_window" by simp
    note J = jit_step(1) [OF Cons.prems(1)] jit_step(2) [OF Cons.prems(1) now]
    have o: "in_order rs" using Cons.prems(2) by simp
    note IH = Cons.IH [OF _ o, of _ "fst (snd ?x)"]
    from id_step [of cfg r db l] show ?thesis
    proof (elim disjE conjE)
      assume "im_users (fst (snd ?x)) = im_users db" "snd (snd ?x) = l"
      with IH [of l] Cons.prems show ?thesis by (simp add: id_run_Cons Let_def del: id_run.simps(2))
    next
      let ?J = "jitRateLimited (rb_jit_limit cfg) (ir_now r) (ir_ip r) l"
      assume "im_users (fst (snd ?x)) = im_users db" "snd (snd ?x) = snd ?J"
      moreover have "jit_count l ip \<le> jit_count (snd ?J) ip"
        using J(2) [where limit = "rb_jit_limit cfg" and ip = "ir_ip r"] by (cases "ip = ir_ip r") simp_all
      ultimately show ?thesis using IH [of "snd ?J"] J Cons.prems(3)
        by (auto simp: id_run_Cons Let_def simp del: id_run.simps(2) intro: order_trans)
    next
      let ?J = "jitRateLimited (rb_jit_limit cfg) (ir_now r) (ir_ip r) l"
      assume "snd (snd ?x) = snd ?J" "\<not> fst ?J"
      with IH [of "snd ?J"] J [where limit = "rb_jit_limit cfg" and ip = "ir_ip r"] Cons.prems(3) show ?thesis
        by (cases "ip = ir_ip r") (auto simp: id_run_Cons Let_def simp del: id_run.simps(2))
    qed
  qed
qed simp

lemma nat_step: "0 < limit \<Longrightarrow> n \<le> nat (limit - 1) \<Longrightarrow> Suc n \<le> nat limit"
  by linarith

lemma accounts_from:
  assumes "counts_ok l" and "in_order rs" and "\<forall>r \<in> set rs. T \<le> ir_now r"
  shows "accounts ip T (T + jit_window) (fst (id_run cfg rs db l))
    \<le> nat (rb_jit_limit cfg - jit_count l ip) + nat (rb_jit_limit cfg)"
  using assms
proof (induction rs arbitrary: db l)
  case (Cons r rs)
  let ?x = "getOrProvisionUser cfg (ir_faults r) (ir_faults2 r) (ir_now r) (ir_sub r) (ir_ip r) db l"
  let ?J = "jitRateLimited (rb_jit_limit cfg) (ir_now r) (ir_ip r) l"
  let ?rest = "accounts ip T (T + jit_window) (fst (id_run cfg rs (fst (snd ?x)) (snd (snd ?x))))"
  have o: "in_order rs" and T: "\<forall>r \<in> set rs. T \<le> ir_now r" "T \<le> ir_now r"
    using Cons.prems(2,3) by simp_all
  show ?case
  proof (cases "snd (snd ?x) = l \<and> im_users (fst (snd ?x)) = im_users db")
    case True
    with Cons.IH [OF Cons.prems(1) o T(1), of "fst (snd ?x)"] show ?thesis
      by (simp add: id_run_Cons Let_def del: id_run.simps(2))
  next
    case False
    with id_step [of cfg r db l] have J: "snd (snd ?x) = snd ?J"
      and c: "im_users (fst (snd ?x)) \<noteq> im_users db \<longrightarrow> \<not> fst ?J" by auto
    note ok = jit_step(1) [where limit = "rb_jit_limit cfg" and now = "ir_now r" and ip = "ir_ip r", OF Cons.prems(1)]
    have head: "accounts ip T (T + jit_window) (fst (id_run cfg (r # rs) db l)) \<le>
        (if \<not> fst ?J \<and> ir_ip r = ip then 1 else 0) + ?rest"
      using c by (auto simp: id_run_Cons Let_def simp del: id_run.simps(2))
    show ?thesis
    proof (cases "ir_now r \<le> jl_window l + jit_window")
      case True
      note W = jit_step(2) [OF Cons.prems(1) True, where limit = "rb_jit_limit cfg" and ip = "ir_ip r"]
      from Cons.IH [where db = "fst (snd ?x)", OF ok o T(1)] head show ?thesis
        unfolding J using W by (cases "ip = ir_ip r") (auto split: if_splits)
    next
      case reset: False
      then have "jl_window l + jit_window < ir_now r" by simp
      note R = jit_step(3) [OF Cons.prems(1) this, where limit = "rb_jit_limit cfg" and ip = "ir_ip r"]
      from R T(2) have "T + jit_window \<le> jl_window (snd ?J) + jit_window" by simp
      from accounts_in_window [OF ok o this, of ip T cfg "fst (snd ?x)"] head show ?thesis
        unfolding J using R by (cases "ip = ir_ip r") (auto split: if_splits)
    qed
  qed
qed simp

section \<open>What provisioning promises\<close>

text \<open>C29. However the database calls fail, resolving a subject keeps the identity tables
  consistent and never leaves a user without a role: either users and roles stay as they are, or
  exactly one active user is added, under a fresh id, with the role \<open>READ_ONLY_ANALYST\<close>.\<close>

theorem provisioning_all_or_nothing:
  assumes ok: "iam_ok db"
    and run: "getOrProvisionUser cfg flt flt2 now sub ip db l = (r, db', l')"
  shows "iam_ok db' \<and>
    (im_users db' = im_users db \<and> im_user_roles db' = im_user_roles db \<or>
     im_users db' = im_users db @ [(im_next db, new_user sub)] \<and>
     role_of_user db' (im_next db) = Some ''READ_ONLY_ANALYST'' \<and>
     (\<forall>uid. uid \<noteq> im_next db \<longrightarrow> role_of_user db' uid = role_of_user db uid))"
proof
  show "iam_ok db'" using getOrProvisionUser_ok [OF ok, of cfg flt flt2 now sub ip l] run by simp
next
  show "im_users db' = im_users db \<and> im_user_roles db' = im_user_roles db \<or>
     im_users db' = im_users db @ [(im_next db, new_user sub)] \<and>
     role_of_user db' (im_next db) = Some ''READ_ONLY_ANALYST'' \<and>
     (\<forall>uid. uid \<noteq> im_next db \<longrightarrow> role_of_user db' uid = role_of_user db uid)"
  proof (cases rule: identity_cases [of cfg flt flt2 now sub ip db l])
    case (created rid)
    with run have "db' = recordAudit flt None ''user.jit_provision'' (show_int (im_next db))
        [(''external_subject'', sub), (''source_ip'', ip)] (with_user sub rid db)" by simp
    then show ?thesis
      by (simp add: role_of_with_user [OF ok created(3)]) (simp add: with_user_def)
  qed (use run in simp_all)
qed

definition demo_user :: "string \<Rightarrow> string \<Rightarrow> string \<Rightarrow> user_row" where
  "demo_user sub email status = \<lparr>us_subject = sub, us_email = email, us_display = sub, us_status = status\<rparr>"

abbreviation root_only :: iam_db where
  "root_only \<equiv> seed_iam [(1, demo_user ''root'' ''root@x'' ''ACTIVE'')] [(1, 1)] 2"

abbreviation demo_cfg :: rbac_config where
  "demo_cfg \<equiv> \<lparr>rb_ttl = 300, rb_max_stale = 1800, rb_jit_limit = 5\<rparr>"

lemma root_only_ok: "iam_ok root_only"
  by (simp add: iam_ok_def seed_iam_def seed_roles_def demo_user_def)

theorem provisioning_all_or_nothing_witness:
  "\<exists>r db' l'. getOrProvisionUser demo_cfg (\<lambda>c. c = IAssignRole) iam_up 0 ''bob'' ''10.0.0.1'' root_only new_limiter = (r, db', l') \<and>
     iam_ok db'"
proof -
  obtain r db' l' where
    run: "getOrProvisionUser demo_cfg (\<lambda>c. c = IAssignRole) iam_up 0 ''bob'' ''10.0.0.1'' root_only new_limiter = (r, db', l')"
    by (metis prod_cases3)
  from provisioning_all_or_nothing [OF root_only_ok run] run show ?thesis by blast
qed

text \<open>The first request of an unknown subject creates its account when the database
  answers, the address is under its limit and the placeholder e-mail is free: an active user with
  the role \<open>READ_ONLY_ANALYST\<close> and one audit row; every later request of the subject resolves to
  the same account and changes nothing.\<close>

theorem first_sight_provisions:
  assumes ok: "iam_ok db" and new: "\<not> sub_or_email_taken db sub"
    and role: "role_id db ''READ_ONLY_ANALYST'' = Some rid"
    and free: "\<not> fst (jitRateLimited (rb_jit_limit cfg) now ip l)"
  shows "\<exists>db' l'. getOrProvisionUser cfg iam_up flt2 now sub ip db l = (Inr (im_next db, ''ACTIVE''), db', l') \<and>
    role_of_user db' (im_next db) = Some ''READ_ONLY_ANALYST'' \<and>
    length (im_audit db') = Suc (length (im_audit db)) \<and>
    (\<forall>now2 ip2 l2 flt3. getOrProvisionUser cfg iam_up flt3 now2 sub ip2 db' l2 = (Inr (im_next db, ''ACTIVE''), db', l2))"
proof -
  let ?db = "recordAudit iam_up None ''user.jit_provision'' (show_int (im_next db))
           [(''external_subject'', sub), (''source_ip'', ip)] (with_user sub rid db)"
  from new have none: "filter (\<lambda>(i, u). us_subject u = sub) (im_users db) = []"
    by (auto simp: not_taken filter_empty_conv)
  then have look: "getUserByExternalSubject iam_up db sub = Inl UserNotFound"
    by (simp add: getUserByExternalSubject_def)
  from new role have "provisionUser iam_up sub db = (Inr (im_next db, ''ACTIVE''), with_user sub rid db)"
    by (rule provisionUser_free)
  with look free have "getOrProvisionUser cfg iam_up flt2 now sub ip db l =
      (Inr (im_next db, ''ACTIVE''), ?db, snd (jitRateLimited (rb_jit_limit cfg) now ip l))"
    by (cases "jitRateLimited (rb_jit_limit cfg) now ip l") (simp add: getOrProvisionUser_def)
  moreover have "role_of_user ?db (im_next db) = Some ''READ_ONLY_ANALYST''"
    by (simp add: role_of_with_user [OF ok role])
  moreover have "length (im_audit ?db) = Suc (length (im_audit db))"
    by (simp add: recordAudit_def with_user_def)
  moreover have "getUserByExternalSubject iam_up ?db sub = Inr (im_next db, ''ACTIVE'')"
    using none by (simp add: getUserByExternalSubject_def with_user_def new_user_def)
  ultimately show ?thesis by (auto simp: getOrProvisionUser_def)
qed

theorem first_sight_provisions_witness:
  "\<exists>db' l'. getOrProvisionUser demo_cfg iam_up iam_up 0 ''bob'' ''10.0.0.1'' root_only new_limiter =
     (Inr (2, ''ACTIVE''), db', l')"
proof -
  have "\<not> sub_or_email_taken root_only ''bob''"
    by (simp add: sub_or_email_taken_def seed_iam_def demo_user_def placeholder_email_def)
  moreover have "role_id root_only ''READ_ONLY_ANALYST'' = Some 4"
    by (simp add: role_id_def seed_iam_def seed_roles_def)
  moreover have "\<not> fst (jitRateLimited (rb_jit_limit demo_cfg) 0 ''10.0.0.1'' new_limiter)"
    by (simp add: jitRateLimited_def new_limiter_def jit_count_def)
  ultimately show ?thesis
    using first_sight_provisions [OF root_only_ok, of "''bob''" 4 demo_cfg 0 "''10.0.0.1''" new_limiter iam_up]
    by (auto simp: seed_iam_def)
qed

text \<open>A subject whose placeholder e-mail already belongs to an account with another subject can
  never sign in: the insert is refused as a duplicate, the code takes that for a lost race and looks
  the subject up again, and every attempt ends in an error and changes no table.\<close>

theorem email_collision_locks_out:
  assumes "(i, u) \<in> set (im_users db)" and "us_email u = placeholder_email sub"
    and none: "\<forall>p \<in> set (im_users db). us_subject (snd p) \<noteq> sub"
  shows "\<exists>e l'. getOrProvisionUser cfg flt flt2 now sub ip db l = (Inl e, db, l')"
proof (cases rule: identity_cases [of cfg flt flt2 now sub ip db l])
  case (quiet r)
  have "r \<noteq> Inr a" for a using quiet(3) none by (cases a) fastforce
  with quiet(1) show ?thesis by (cases r) auto
next
  case (created rid)
  with assms(1,2) show ?thesis by (auto simp: not_taken)
qed auto

theorem email_collision_locks_out_witness:
  "\<exists>e l'. getOrProvisionUser demo_cfg iam_up iam_up 0 ''root@x'' ''10.0.0.1'' root_only new_limiter = (Inl e, root_only, l')"
  by (rule email_collision_locks_out [of 1 "demo_user ''root'' ''root@x'' ''ACTIVE''"])
    (simp_all add: seed_iam_def demo_user_def placeholder_email_def)

text \<open>C37. In any sequence of requests in the order of time, whatever fails, the requests of one
  address create at most twice the configured number of accounts in any sixty seconds: once for
  each of the two counting windows an interval can touch.\<close>

theorem jit_accounts_bounded:
  assumes "in_order rs"
  shows "accounts ip T (T + jit_window) (fst (id_run cfg rs db new_limiter)) \<le> 2 * nat (rb_jit_limit cfg)"
proof -
  have "accounts ip T (T + jit_window) (fst (id_run cfg rs db l)) \<le> 2 * nat (rb_jit_limit cfg)"
    if "counts_ok l" for l using assms that
  proof (induction rs arbitrary: db l)
    case (Cons r rs)
    show ?case
    proof (cases "T \<le> ir_now r")
      case True
      with Cons.prems(1) have "\<forall>x \<in> set (r # rs). T \<le> ir_now x" by force
      note b = accounts_from [OF Cons.prems(2,1) this, of ip cfg db]
      from Cons.prems(2) have "0 \<le> jit_count l ip" by (simp add: counts_ok_def)
      then have "nat (rb_jit_limit cfg - jit_count l ip) \<le> nat (rb_jit_limit cfg)" by (simp add: nat_mono)
      with b show ?thesis by linarith
    next
      case False
      let ?x = "getOrProvisionUser cfg (ir_faults r) (ir_faults2 r) (ir_now r) (ir_sub r) (ir_ip r) db l"
      have "counts_ok (snd (snd ?x))"
        using id_step [of cfg r db l] jit_step(1) [OF Cons.prems(2)] Cons.prems(2) by metis
      with Cons.IH [of "snd (snd ?x)" "fst (snd ?x)"] Cons.prems(1) False show ?thesis
        by (simp add: id_run_Cons Let_def del: id_run.simps(2))
    qed
  qed simp
  then show ?thesis by simp
qed

theorem jit_accounts_bounded_witness:
  "accounts ''10.0.0.1'' 0 (0 + jit_window)
     (fst (id_run demo_cfg [\<lparr>ir_now = 1, ir_ip = ''10.0.0.1'', ir_sub = ''bob'', ir_faults = iam_up, ir_faults2 = iam_up\<rparr>]
       root_only new_limiter)) \<le> 10"
  using jit_accounts_bounded [of "[\<lparr>ir_now = 1, ir_ip = ''10.0.0.1'', ir_sub = ''bob'', ir_faults = iam_up, ir_faults2 = iam_up\<rparr>]"
      "''10.0.0.1''" 0 demo_cfg root_only] by simp

section \<open>Permission checks that interleave\<close>

text \<open>
  Several checks run at once, each in its parts: the look in the cache, the status query, the
  join, and what is done with the outcome; between them anything may happen, invalidations
  included. \<open>dbs t\<close> are the identity tables at instant \<open>t\<close>. A check in flight holds the entry it
  saw, the outcome of its status query with the instant it ran, and the outcome of the fetch.
\<close>

record check =
  ck_user :: int
  ck_seen :: "cache_entry option"
  ck_status :: "instant option"
  ck_fetched :: "(iam_error + grant) option"

record perm_world =
  pw_now :: instant
  pw_cache :: perm_cache
  pw_checks :: "nat \<rightharpoonup> check"

datatype answer = Answer int "iam_error + grant"

inductive perm_step :: "rbac_config \<Rightarrow> (instant \<Rightarrow> iam_db) \<Rightarrow> perm_world \<Rightarrow> answer option \<Rightarrow> perm_world \<Rightarrow> bool"
  for cfg dbs where
  Tick: "pw_now w \<le> t \<Longrightarrow> perm_step cfg dbs w None (w\<lparr>pw_now := t\<rparr>)"
| Hit: "cache_look cfg (pw_now w) (pw_cache w) uid = Some g \<Longrightarrow>
     perm_step cfg dbs w (Some (Answer uid (Inr g))) w"
| Miss: "cache_look cfg (pw_now w) (pw_cache w) uid = None \<Longrightarrow> pw_checks w k = None \<Longrightarrow>
     perm_step cfg dbs w None (w\<lparr>pw_checks := (pw_checks w)(k \<mapsto>
       \<lparr>ck_user = uid, ck_seen = pw_cache w uid, ck_status = None, ck_fetched = None\<rparr>)\<rparr>)"
| Status: "pw_checks w k = Some c \<Longrightarrow> ck_status c = None \<Longrightarrow>
     perm_step cfg dbs w None (w\<lparr>pw_checks := (pw_checks w)(k \<mapsto> c\<lparr>ck_status := Some (pw_now w)\<rparr>)\<rparr>)"
| Fetch: "pw_checks w k = Some c \<Longrightarrow> ck_status c = Some s1 \<Longrightarrow> ck_fetched c = None \<Longrightarrow>
     perm_step cfg dbs w None (w\<lparr>pw_checks := (pw_checks w)(k \<mapsto>
       c\<lparr>ck_fetched := Some (fetchUserPermissions flt (dbs s1) (dbs (pw_now w)) (ck_user c))\<rparr>)\<rparr>)"
| Settle: "pw_checks w k = Some c \<Longrightarrow> ck_fetched c = Some f \<Longrightarrow>
     cache_settle cfg (pw_now w) (ck_seen c) f (pw_cache w) (ck_user c) = (r, cache') \<Longrightarrow>
     perm_step cfg dbs w (Some (Answer (ck_user c) r))
       (w\<lparr>pw_cache := cache', pw_checks := (pw_checks w)(k := None)\<rparr>)"
| Invalidate: "perm_step cfg dbs w None (w\<lparr>pw_cache := invalidateUserPermissions uid (pw_cache w)\<rparr>)"

text \<open>The answers of a run, each with its instant.\<close>

inductive perm_run :: "rbac_config \<Rightarrow> (instant \<Rightarrow> iam_db) \<Rightarrow> perm_world \<Rightarrow> (instant \<times> answer) list \<Rightarrow> perm_world \<Rightarrow> bool"
  for cfg dbs w0 where
  Start: "perm_run cfg dbs w0 [] w0"
| Silent: "perm_run cfg dbs w0 out w \<Longrightarrow> perm_step cfg dbs w None w' \<Longrightarrow> perm_run cfg dbs w0 out w'"
| Served: "perm_run cfg dbs w0 out w \<Longrightarrow> perm_step cfg dbs w (Some a) w' \<Longrightarrow>
    perm_run cfg dbs w0 (out @ [(pw_now w, a)]) w'"

text \<open>A permission set the tables gave: the user active at \<open>s\<close>, the roles and permissions read from
  then on, until \<open>t\<close>.\<close>

definition granted :: "(instant \<Rightarrow> iam_db) \<Rightarrow> int \<Rightarrow> grant \<Rightarrow> instant \<Rightarrow> instant \<Rightarrow> bool" where
  "granted dbs uid g s t \<longleftrightarrow> (\<exists>s2 u. s \<le> s2 \<and> s2 \<le> t \<and> map_of (im_users (dbs s)) uid = Some u \<and>
     us_status u = ''ACTIVE'' \<and> g = grant_of (dbs s2) uid)"

lemma granted_later: "granted dbs uid g s t \<Longrightarrow> t \<le> t' \<Longrightarrow> granted dbs uid g s t'"
  unfolding granted_def using order_trans [of _ t t'] by fast

lemma granted_order: "granted dbs uid g s t \<Longrightarrow> s \<le> t"
  unfolding granted_def by auto

lemma fetch_granted:
  assumes "fetchUserPermissions flt (dbs s1) (dbs s2) uid = Inr g" and "s1 \<le> s2"
  shows "granted dbs uid g s1 s2"
  using assms by (auto simp: fetchUserPermissions_def granted_def split: if_splits option.splits)

text \<open>A check reads the tables and stores what it read; \<open>lim\<close> is the longest time from the first to the
  second. An entry is sound if the tables gave it at most that long before it was stored.\<close>

definition entry_ok :: "(instant \<Rightarrow> iam_db) \<Rightarrow> duration \<Rightarrow> instant \<Rightarrow> int \<Rightarrow> cache_entry option \<Rightarrow> bool" where
  "entry_ok dbs lim now uid eo \<longleftrightarrow>
     (case eo of None \<Rightarrow> True
      | Some e \<Rightarrow> ce_fetched e \<le> now \<and> (\<exists>s. granted dbs uid (ce_grant e) s (ce_fetched e) \<and> ce_fetched e - s \<le> lim))"

definition check_ok :: "(instant \<Rightarrow> iam_db) \<Rightarrow> duration \<Rightarrow> instant \<Rightarrow> check \<Rightarrow> bool" where
  "check_ok dbs lim now c \<longleftrightarrow>
     entry_ok dbs lim now (ck_user c) (ck_seen c)
   \<and> (\<forall>s. ck_status c = Some s \<longrightarrow> s \<le> now)
   \<and> (\<forall>g. ck_fetched c = Some (Inr g) \<longrightarrow> (\<exists>s. ck_status c = Some s \<and> granted dbs (ck_user c) g s now))"

definition world_ok :: "(instant \<Rightarrow> iam_db) \<Rightarrow> duration \<Rightarrow> perm_world \<Rightarrow> bool" where
  "world_ok dbs lim w \<longleftrightarrow>
     (\<forall>uid. entry_ok dbs lim (pw_now w) uid (pw_cache w uid))
   \<and> (\<forall>k c. pw_checks w k = Some c \<longrightarrow> check_ok dbs lim (pw_now w) c)"

text \<open>No check in flight read the status longer than \<open>lim\<close> ago; runs through such worlds only.\<close>

definition prompt :: "duration \<Rightarrow> perm_world \<Rightarrow> bool" where
  "prompt lim w \<longleftrightarrow> (\<forall>k c s. pw_checks w k = Some c \<longrightarrow> ck_status c = Some s \<longrightarrow> pw_now w - s \<le> lim)"

inductive prompt_run :: "duration \<Rightarrow> rbac_config \<Rightarrow> (instant \<Rightarrow> iam_db) \<Rightarrow> perm_world \<Rightarrow> (instant \<times> answer) list \<Rightarrow> perm_world \<Rightarrow> bool"
  for lim cfg dbs w0 where
  prompt_start: "prompt lim w0 \<Longrightarrow> prompt_run lim cfg dbs w0 [] w0"
| prompt_silent: "prompt_run lim cfg dbs w0 out w \<Longrightarrow> perm_step cfg dbs w None w' \<Longrightarrow> prompt lim w' \<Longrightarrow>
    prompt_run lim cfg dbs w0 out w'"
| prompt_served: "prompt_run lim cfg dbs w0 out w \<Longrightarrow> perm_step cfg dbs w (Some a) w' \<Longrightarrow> prompt lim w' \<Longrightarrow>
    prompt_run lim cfg dbs w0 (out @ [(pw_now w, a)]) w'"

text \<open>How long an entry may be served after it was stored.\<close>

definition stale_bound :: "rbac_config \<Rightarrow> duration" where
  "stale_bound cfg = max 0 (max (seconds (rb_ttl cfg)) (seconds (rb_max_stale cfg)))"

definition served_ok :: "rbac_config \<Rightarrow> (instant \<Rightarrow> iam_db) \<Rightarrow> duration \<Rightarrow> instant \<Rightarrow> answer \<Rightarrow> bool" where
  "served_ok cfg dbs lim t a \<longleftrightarrow>
     (\<forall>uid g. a = Answer uid (Inr g) \<longrightarrow>
       (\<exists>s. granted dbs uid g s t \<and> t - s \<le> lim + stale_bound cfg))"

lemma entry_ok_later: "entry_ok dbs lim t uid eo \<Longrightarrow> t \<le> t' \<Longrightarrow> entry_ok dbs lim t' uid eo"
  by (auto simp: entry_ok_def split: option.splits)

lemma check_ok_later: "check_ok dbs lim t c \<Longrightarrow> t \<le> t' \<Longrightarrow> check_ok dbs lim t' c"
  unfolding check_ok_def by (blast intro: entry_ok_later granted_later order_trans)

lemma entry_served:
  assumes "entry_ok dbs lim t uid (Some e)" and "t - ce_fetched e < seconds (rb_ttl cfg) \<or> t - ce_fetched e < seconds (rb_max_stale cfg)"
  shows "served_ok cfg dbs lim t (Answer uid (Inr (ce_grant e)))"
proof -
  from assms(1) obtain s where s: "ce_fetched e \<le> t" "granted dbs uid (ce_grant e) s (ce_fetched e)" "ce_fetched e - s \<le> lim"
    by (auto simp: entry_ok_def)
  have "granted dbs uid (ce_grant e) s t" by (rule granted_later [OF s(2,1)])
  moreover have "t - s \<le> lim + stale_bound cfg" using s(3) assms(2) by (auto simp: stale_bound_def)
  ultimately show ?thesis by (auto simp: served_ok_def)
qed

lemma fetched_served:
  assumes "check_ok dbs lim t c" "ck_fetched c = Some (Inr g)" "\<forall>s. ck_status c = Some s \<longrightarrow> t - s \<le> lim"
  shows "served_ok cfg dbs lim t (Answer (ck_user c) (Inr g))" "entry_ok dbs lim t (ck_user c) (Some \<lparr>ce_grant = g, ce_fetched = t\<rparr>)"
proof -
  from assms obtain s where s: "granted dbs (ck_user c) g s t" "t - s \<le> lim" by (auto simp: check_ok_def)
  then show "entry_ok dbs lim t (ck_user c) (Some \<lparr>ce_grant = g, ce_fetched = t\<rparr>)" by (auto simp: entry_ok_def)
  have "t - s \<le> lim + stale_bound cfg" using s(2) by (simp add: stale_bound_def)
  with s(1) show "served_ok cfg dbs lim t (Answer (ck_user c) (Inr g))" by (auto simp: served_ok_def)
qed

lemma settle_ok:
  assumes s: "cache_settle cfg t (ck_seen c) f cache (ck_user c) = (r, cache')"
    and c: "check_ok dbs lim t c" "ck_fetched c = Some f" "\<forall>s. ck_status c = Some s \<longrightarrow> t - s \<le> lim"
    and cache: "\<And>uid. entry_ok dbs lim t uid (cache uid)"
  shows "entry_ok dbs lim t uid (cache' uid)" and "served_ok cfg dbs lim t (Answer (ck_user c) r)"
proof -
  show "entry_ok dbs lim t uid (cache' uid)"
  proof (cases f)
    case (Inl e)
    with s cache [of uid] show ?thesis
      by (auto simp: cache_settle_def entry_ok_def split: if_splits option.splits)
  next
    case (Inr g)
    with s have "cache' = cache(ck_user c \<mapsto> \<lparr>ce_grant = g, ce_fetched = t\<rparr>)" by (simp add: cache_settle_def)
    then show ?thesis using cache [of uid] fetched_served(2) [OF c(1) _ c(3)] c(2) Inr by simp
  qed
  show "served_ok cfg dbs lim t (Answer (ck_user c) r)"
  proof (cases f)
    case (Inl e)
    show ?thesis
    proof (cases "ck_seen c")
      case (Some en)
      then have "entry_ok dbs lim t (ck_user c) (Some en)" using c(1) by (simp add: check_ok_def)
      with Some Inl s show ?thesis
        by (auto simp: cache_settle_def intro: entry_served split: if_splits) (simp_all add: served_ok_def)
    qed (use Inl s in \<open>auto simp: cache_settle_def served_ok_def split: if_splits\<close>)
  next
    case (Inr g)
    with s have "r = Inr g" by (simp add: cache_settle_def)
    with fetched_served(1) [OF c(1) _ c(3)] c(2) Inr show ?thesis by simp
  qed
qed

lemma perm_step_ok:
  assumes "perm_step cfg dbs w a w'" and "world_ok dbs lim w" and "prompt lim w"
  shows "world_ok dbs lim w' \<and> (\<forall>x. a = Some x \<longrightarrow> served_ok cfg dbs lim (pw_now w) x)"
  using assms
proof (induction rule: perm_step.induct)
  case (Tick w t)
  then show ?case
    unfolding world_ok_def by (auto intro: entry_ok_later [OF _ Tick.hyps] check_ok_later [OF _ Tick.hyps])
next
  case (Hit w uid g)
  then obtain e where e: "pw_cache w uid = Some e" "g = ce_grant e" "pw_now w - ce_fetched e < seconds (rb_ttl cfg)"
    by (auto simp: cache_look_def split: option.splits if_splits)
  have "entry_ok dbs lim (pw_now w) uid (Some e)" using Hit.prems(1) e(1) by (metis world_ok_def)
  from entry_served [OF this] e Hit.prems(1) show ?case by simp
next
  case (Miss w uid k)
  then show ?case by (simp add: world_ok_def check_ok_def)
next
  case (Status w k c)
  then have "check_ok dbs lim (pw_now w) c" by (simp add: world_ok_def)
  with Status.hyps(2) have "check_ok dbs lim (pw_now w) (c\<lparr>ck_status := Some (pw_now w)\<rparr>)"
    by (auto simp: check_ok_def)
  with Status.prems show ?case by (simp add: world_ok_def)
next
  case (Fetch w k c s1 flt)
  then have c: "check_ok dbs lim (pw_now w) c" by (simp add: world_ok_def)
  then have "s1 \<le> pw_now w" using Fetch.hyps(2) by (simp add: check_ok_def)
  with c Fetch.hyps(2) have "check_ok dbs lim (pw_now w)
      (c\<lparr>ck_fetched := Some (fetchUserPermissions flt (dbs s1) (dbs (pw_now w)) (ck_user c))\<rparr>)"
    by (auto simp: check_ok_def intro: fetch_granted)
  with Fetch.prems show ?case by (simp add: world_ok_def)
next
  case (Settle w k c f r cache')
  then have c: "check_ok dbs lim (pw_now w) c" and cache: "\<And>uid. entry_ok dbs lim (pw_now w) uid (pw_cache w uid)"
    and p: "\<forall>s. ck_status c = Some s \<longrightarrow> pw_now w - s \<le> lim"
    by (simp_all add: world_ok_def prompt_def)
  note S = settle_ok [OF Settle.hyps(3) c Settle.hyps(2) p cache]
  from Settle.prems S show ?case by (simp add: world_ok_def)
next
  case (Invalidate w uid)
  then show ?case by (simp add: world_ok_def invalidateUserPermissions_def entry_ok_def)
qed

abbreviation fresh_world :: "instant \<Rightarrow> perm_world" where
  "fresh_world t \<equiv> \<lparr>pw_now = t, pw_cache = Map.empty, pw_checks = Map.empty\<rparr>"

lemma prompt_run_ok:
  assumes "prompt_run lim cfg dbs (fresh_world t0) out w"
  shows "world_ok dbs lim w \<and> prompt lim w \<and> (\<forall>(t, a) \<in> set out. served_ok cfg dbs lim t a)"
  using assms
proof (induction rule: prompt_run.induct)
  case prompt_start
  then show ?case by (simp add: world_ok_def entry_ok_def)
next
  case (prompt_silent out w w')
  then show ?case using perm_step_ok by blast
next
  case (prompt_served out w a w')
  then show ?case using perm_step_ok [OF prompt_served.hyps(2)] by auto
qed

text \<open>C10. However checks, role changes, database failures and invalidations interleave from an
  empty cache, no permission set is served that is too old: one that is served at \<open>t\<close> was given by
  the tables for that user, its status read as active at an instant \<open>s\<close> and its roles at one
  between \<open>s\<close> and \<open>t\<close>, and \<open>s\<close> is before \<open>t\<close> by at most the larger of the two configured bounds and
  the time \<open>lim\<close> that a check may take from its first query to its end.\<close>

theorem served_permissions_fresh:
  assumes "prompt_run lim cfg dbs (fresh_world t0) out w" and "(t, Answer uid (Inr g)) \<in> set out"
  shows "\<exists>s s2 u. s \<le> s2 \<and> s2 \<le> t \<and> t - s \<le> lim + max 0 (max (seconds (rb_ttl cfg)) (seconds (rb_max_stale cfg))) \<and>
    map_of (im_users (dbs s)) uid = Some u \<and> us_status u = ''ACTIVE'' \<and> g = grant_of (dbs s2) uid"
proof -
  from prompt_run_ok [OF assms(1)] assms(2) have "served_ok cfg dbs lim t (Answer uid (Inr g))" by blast
  then show ?thesis unfolding served_ok_def granted_def stale_bound_def by blast
qed

text \<open>So a permission that the tables no longer give from \<open>r\<close> on is not served any more once that time
  has passed.\<close>

lemma revocation_takes_effect:
  assumes "prompt_run lim cfg dbs (fresh_world t0) out w" and "(t, Answer uid (Inr g)) \<in> set out"
    and "\<And>s. r \<le> s \<Longrightarrow> key \<notin> set (snd (grant_of (dbs s) uid))" and "r + lim + stale_bound cfg < t"
  shows "key \<notin> set (snd g)"
proof -
  from prompt_run_ok [OF assms(1)] assms(2) have "served_ok cfg dbs lim t (Answer uid (Inr g))" by blast
  then obtain s s2 where "s \<le> s2" "t - s \<le> lim + stale_bound cfg" "g = grant_of (dbs s2) uid"
    unfolding served_ok_def granted_def by blast
  with assms(3) [of s2] assms(4) show ?thesis by simp
qed

abbreviation root_grant :: grant where
  "root_grant \<equiv> grant_of root_only 1"

lemma root_fetch: "fetchUserPermissions iam_up root_only root_only 1 = Inr root_grant"
  by (simp add: fetchUserPermissions_def seed_iam_def demo_user_def)

text \<open>A check that misses, fetches and settles at one instant.\<close>

lemma miss_run:
  assumes "fetchUserPermissions flt (dbs t) (dbs t) uid = Inr g" and "0 \<le> lim"
  shows "prompt_run lim cfg dbs (fresh_world t) [(t, Answer uid (Inr g))]
    \<lparr>pw_now = t, pw_cache = Map.empty(uid \<mapsto> \<lparr>ce_grant = g, ce_fetched = t\<rparr>), pw_checks = Map.empty\<rparr>"
proof -
  let ?c = "\<lparr>ck_user = uid, ck_seen = None, ck_status = None, ck_fetched = None\<rparr>"
  let ?w1 = "\<lparr>pw_now = t, pw_cache = Map.empty, pw_checks = Map.empty(0 \<mapsto> ?c)\<rparr>"
  let ?w2 = "\<lparr>pw_now = t, pw_cache = Map.empty, pw_checks = Map.empty(0 \<mapsto> ?c\<lparr>ck_status := Some t\<rparr>)\<rparr>"
  let ?w3 = "\<lparr>pw_now = t, pw_cache = Map.empty,
    pw_checks = Map.empty(0 \<mapsto> ?c\<lparr>ck_status := Some t, ck_fetched := Some (Inr g)\<rparr>)\<rparr>"
  have p: "prompt lim (fresh_world t)" "prompt lim ?w1" "prompt lim ?w2" "prompt lim ?w3"
    "prompt lim \<lparr>pw_now = t, pw_cache = Map.empty(uid \<mapsto> \<lparr>ce_grant = g, ce_fetched = t\<rparr>), pw_checks = Map.empty\<rparr>"
    using assms(2) by (simp_all add: prompt_def)
  have "perm_step cfg dbs (fresh_world t) None ?w1"
    using perm_step.Miss [of cfg "fresh_world t" uid 0 dbs] by (simp add: cache_look_def)
  from prompt_silent [OF prompt_start [OF p(1)] this p(2)] have 1: "prompt_run lim cfg dbs (fresh_world t) [] ?w1" .
  have "perm_step cfg dbs ?w1 None ?w2" using perm_step.Status [of ?w1 0 ?c cfg dbs] by simp
  from prompt_silent [OF 1 this p(3)] have 2: "prompt_run lim cfg dbs (fresh_world t) [] ?w2" .
  have "perm_step cfg dbs ?w2 None ?w3"
    using perm_step.Fetch [of ?w2 0 "?c\<lparr>ck_status := Some t\<rparr>" t cfg dbs flt] assms by simp
  from prompt_silent [OF 2 this p(4)] have 3: "prompt_run lim cfg dbs (fresh_world t) [] ?w3" .
  have "perm_step cfg dbs ?w3 (Some (Answer uid (Inr g)))
    \<lparr>pw_now = t, pw_cache = Map.empty(uid \<mapsto> \<lparr>ce_grant = g, ce_fetched = t\<rparr>), pw_checks = Map.empty\<rparr>"
    using perm_step.Settle [of ?w3 0 "?c\<lparr>ck_status := Some t, ck_fetched := Some (Inr g)\<rparr>" "Inr g" cfg]
    by (simp add: cache_settle_def)
  from prompt_served [OF 3 this p(5)] show ?thesis by simp
qed

theorem served_permissions_fresh_witness:
  "\<exists>s s2 u. s \<le> s2 \<and> s2 \<le> 7 \<and> 7 - s \<le> 1 + max 0 (max (seconds (rb_ttl demo_cfg)) (seconds (rb_max_stale demo_cfg))) \<and>
    map_of (im_users root_only) 1 = Some u \<and> us_status u = ''ACTIVE'' \<and> root_grant = grant_of root_only 1"
  by (rule served_permissions_fresh [OF miss_run [of iam_up "\<lambda>_. root_only" 7 1 root_grant 1 demo_cfg]])
    (simp_all only: root_fetch, simp_all)

text \<open>C28. An invalidation does not reach a check in flight: whatever permission set such a check
  has fetched when the user's entry is evicted is stored right after the eviction and served, from
  the cache, for the whole configured time to live.\<close>

theorem invalidation_misses_check_in_flight:
  assumes c: "pw_checks w k = Some c" "ck_fetched c = Some (Inr g)"
    and t: "pw_now w \<le> t" "t - pw_now w < seconds (rb_ttl cfg)"
  shows "\<exists>w'. perm_run cfg dbs (w\<lparr>pw_cache := invalidateUserPermissions (ck_user c) (pw_cache w)\<rparr>)
    [(pw_now w, Answer (ck_user c) (Inr g)), (t, Answer (ck_user c) (Inr g))] w'"
proof -
  let ?w0 = "w\<lparr>pw_cache := invalidateUserPermissions (ck_user c) (pw_cache w)\<rparr>"
  let ?cache = "(pw_cache ?w0)(ck_user c \<mapsto> \<lparr>ce_grant = g, ce_fetched = pw_now w\<rparr>)"
  let ?w1 = "?w0\<lparr>pw_cache := ?cache, pw_checks := (pw_checks w)(k := None)\<rparr>"
  have "perm_step cfg dbs ?w0 (Some (Answer (ck_user c) (Inr g))) ?w1"
    using perm_step.Settle [of ?w0 k c "Inr g" cfg "Inr g" ?cache dbs] c by (simp add: cache_settle_def)
  from perm_run.Served [OF perm_run.Start this]
  have 1: "perm_run cfg dbs ?w0 [(pw_now w, Answer (ck_user c) (Inr g))] ?w1" by simp
  have "perm_step cfg dbs ?w1 None (?w1\<lparr>pw_now := t\<rparr>)" by (rule perm_step.Tick) (simp add: t)
  from perm_run.Silent [OF 1 this]
  have 2: "perm_run cfg dbs ?w0 [(pw_now w, Answer (ck_user c) (Inr g))] (?w1\<lparr>pw_now := t\<rparr>)" .
  have "perm_step cfg dbs (?w1\<lparr>pw_now := t\<rparr>) (Some (Answer (ck_user c) (Inr g))) (?w1\<lparr>pw_now := t\<rparr>)"
    by (rule perm_step.Hit) (simp add: cache_look_def t)
  from perm_run.Served [OF 2 this] show ?thesis by auto
qed

theorem invalidation_misses_check_in_flight_witness:
  "\<exists>w'. perm_run demo_cfg (\<lambda>t. if t < 10 then root_only else seed_iam [] [] 2)
     \<lparr>pw_now = 10, pw_cache = Map.empty,
      pw_checks = Map.empty(0 \<mapsto> \<lparr>ck_user = 1, ck_seen = None, ck_status = Some 9, ck_fetched = Some (Inr root_grant)\<rparr>)\<rparr>
     [(10, Answer 1 (Inr root_grant)), (299000000000, Answer 1 (Inr root_grant))] w'"
  using invalidation_misses_check_in_flight [of
      "\<lparr>pw_now = 10, pw_cache = Map.empty, pw_checks = Map.empty(0 \<mapsto>
         \<lparr>ck_user = 1, ck_seen = None, ck_status = Some 9, ck_fetched = Some (Inr root_grant)\<rparr>)\<rparr>"
      0 _ root_grant 299000000000 demo_cfg "\<lambda>t. if t < 10 then root_only else seed_iam [] [] 2"]
  by (simp add: invalidateUserPermissions_def seconds_def int64_range_def)

end
