(* ===== verification/Admin.thy ===== *)
theory Admin
  imports Rbac_Props
begin

text \<open>
  \<open>internal/services/admin.go\<close> and \<open>internal/handlers/admin.go\<close>: the listings of the Admin Panel
  and the change of a user's role and status, in its two phases (checks outside any transaction,
  then the transaction with its audit rows and the eviction of the cached permissions), and the
  handlers over them. Names and statuses are compared byte by byte, and a commit that fails is taken
  not to have happened, as in \<open>Rbac\<close>.
\<close>

section \<open>The rows the panel reads\<close>

record admin_user =
  av_id :: int
  av_email :: string
  av_display :: string
  av_role :: string
  av_status :: string

record user_patch =
  pt_role :: string
  pt_status :: string

text \<open>A user without a role shows the empty string for it.\<close>

definition shown_role :: "iam_db \<Rightarrow> int \<Rightarrow> string" where
  "shown_role db uid = (case role_of_user db uid of None \<Rightarrow> [] | Some r \<Rightarrow> r)"

definition getAdminUserRow :: "iam_faults \<Rightarrow> iam_db \<Rightarrow> int \<Rightarrow> iam_error + (string \<times> string)" where
  "getAdminUserRow flt db uid =
     (if flt ITarget then Inl IamUnavailable
      else case map_of (im_users db) uid of
        None \<Rightarrow> Inl UserNotFound
      | Some u \<Rightarrow> Inr (shown_role db uid, us_status u))"

definition is_active_super :: "iam_db \<Rightarrow> int \<times> user_row \<Rightarrow> bool" where
  "is_active_super db p \<longleftrightarrow> role_of_user db (fst p) = Some ''SUPER_ADMIN'' \<and> us_status (snd p) = ''ACTIVE''"

definition active_supers :: "iam_db \<Rightarrow> nat" where
  "active_supers db = length (filter (is_active_super db) (im_users db))"

definition countActiveSuperAdmins :: "iam_faults \<Rightarrow> iam_db \<Rightarrow> iam_error + nat" where
  "countActiveSuperAdmins flt db = (if flt ICount then Inl IamUnavailable else Inr (active_supers db))"

definition listUsers :: "iam_faults \<Rightarrow> iam_db \<Rightarrow> iam_error + admin_user list" where
  "listUsers flt db =
     (if flt IGetDB \<or> flt ILookup then Inl IamUnavailable
      else Inr (map (\<lambda>(i, u). \<lparr>av_id = i, av_email = us_email u, av_display = us_display u,
          av_role = shown_role db i, av_status = us_status u\<rparr>) (sort_key fst (im_users db))))"

text \<open>
  The rows of the role listing (each role with each of its permissions, or with none), in the
  order of role ids, gathered by role name. \<open>descr\<close> gives a role's description.
\<close>

record admin_role =
  ar_name :: string
  ar_description :: string
  ar_permissions :: "string list"

definition role_rows :: "iam_db \<Rightarrow> (string \<times> string option) list" where
  "role_rows db =
     concat (map (\<lambda>(r, name).
       let ps = concat (map (\<lambda>(r', p). if r' \<noteq> r then []
                  else concat (map (\<lambda>(p', ra). if p' \<noteq> p then [] else [Some (perm_key ra)]) (im_perms db)))
                (im_role_perms db))
       in map (\<lambda>po. (name, po)) (if ps = [] then [None] else ps)) (sort_key fst (im_roles db)))"

fun gather_roles :: "(string \<Rightarrow> string) \<Rightarrow> (string \<times> string option) list \<Rightarrow> admin_role list \<Rightarrow> admin_role list" where
  "gather_roles descr [] acc = acc"
| "gather_roles descr ((name, po) # rows) acc =
     (let acc1 = (if list_ex (\<lambda>r. ar_name r = name) acc then acc
                  else acc @ [\<lparr>ar_name = name, ar_description = descr name, ar_permissions = []\<rparr>]);
          acc2 = (case po of None \<Rightarrow> acc1
                  | Some k \<Rightarrow> map (\<lambda>r. if ar_name r = name then r\<lparr>ar_permissions := ar_permissions r @ [k]\<rparr> else r) acc1)
      in gather_roles descr rows acc2)"

definition listRoles :: "iam_faults \<Rightarrow> (string \<Rightarrow> string) \<Rightarrow> iam_db \<Rightarrow> iam_error + admin_role list" where
  "listRoles flt descr db =
     (if flt IGetDB \<or> flt ILookup then Inl IamUnavailable else Inr (gather_roles descr (role_rows db) []))"

text \<open>Audit rows are kept in the order of their ids; the newest 200 come first.\<close>

definition listAuditLog :: "iam_faults \<Rightarrow> iam_db \<Rightarrow> iam_error + audit_row list" where
  "listAuditLog flt db =
     (if flt IGetDB \<or> flt ILookup then Inl IamUnavailable else Inr (take 200 (rev (im_audit db))))"

section \<open>Changing a user\<close>

text \<open>The checks: the target's row as it was read, or the refusal.\<close>

definition update_user_check ::
  "iam_faults \<Rightarrow> iam_db \<Rightarrow> int \<Rightarrow> int \<Rightarrow> user_patch \<Rightarrow> iam_error + (string \<times> string)" where
  "update_user_check flt db actor target patch =
     (if flt IGetDB then Inl IamUnavailable
      else case getAdminUserRow flt db target of
        Inl e \<Rightarrow> Inl e
      | Inr (role, status) \<Rightarrow>
          if target = actor then Inl CannotEditSelf
          else case countActiveSuperAdmins flt db of
            Inl e \<Rightarrow> Inl e
          | Inr n \<Rightarrow>
              if role = ''SUPER_ADMIN'' \<and> status = ''ACTIVE'' \<and> n \<le> 1
                 \<and> (pt_role patch \<noteq> ''SUPER_ADMIN'' \<or> pt_status patch \<noteq> ''ACTIVE'')
              then Inl LastActiveSuperAdmin
              else Inr (role, status))"

definition set_role :: "int \<Rightarrow> int \<Rightarrow> iam_db \<Rightarrow> iam_db" where
  "set_role uid rid db =
     db\<lparr>im_user_roles :=
       (if uid \<in> fst ` set (im_user_roles db)
        then map (\<lambda>(u, r). (u, if u = uid then rid else r)) (im_user_roles db)
        else im_user_roles db @ [(uid, rid)])\<rparr>"

definition set_status :: "int \<Rightarrow> string \<Rightarrow> iam_db \<Rightarrow> iam_db" where
  "set_status uid st db =
     db\<lparr>im_users := map (\<lambda>(i, u). (i, if i = uid then u\<lparr>us_status := st\<rparr> else u)) (im_users db)\<rparr>"

text \<open>
  The transaction, against the row the checks read: the role is changed when it differs, then
  the status. The status column is an \<open>ENUM\<close> of two values and refuses others; a role row of a
  user that no longer exists violates its foreign key.
\<close>

definition update_user_tx ::
  "iam_faults \<Rightarrow> int \<Rightarrow> user_patch \<Rightarrow> string \<times> string \<Rightarrow> iam_db \<Rightarrow> iam_error + iam_db" where
  "update_user_tx flt target patch row db =
     (if flt IBegin then Inl IamUnavailable
      else let
        step1 = (if pt_role patch = fst row then Inr db
                 else case role_id db (pt_role patch) of
                   None \<Rightarrow> Inl UnknownRole
                 | Some rid \<Rightarrow> if flt ISetRole \<or> map_of (im_users db) target = None then Inl IamUnavailable
                               else Inr (set_role target rid db))
        in case step1 of
          Inl e \<Rightarrow> Inl e
        | Inr db1 \<Rightarrow>
            (let step2 = (if pt_status patch = snd row then Inr db1
                          else if flt ISetStatus \<or> pt_status patch \<notin> {''ACTIVE'', ''DISABLED''} then Inl IamUnavailable
                          else Inr (set_status target (pt_status patch) db1))
             in case step2 of
               Inl e \<Rightarrow> Inl e
             | Inr db2 \<Rightarrow> if flt ICommit then Inl IamUnavailable else Inr db2))"

definition audit_changes ::
  "iam_faults \<Rightarrow> int \<Rightarrow> int \<Rightarrow> user_patch \<Rightarrow> string \<times> string \<Rightarrow> iam_db \<Rightarrow> iam_db" where
  "audit_changes flt actor target patch row db =
     (let db1 = (if pt_role patch \<noteq> fst row
                 then recordAudit flt (Some actor) ''role.assign'' (show_int target)
                        [(''from'', fst row), (''to'', pt_role patch)] db else db)
      in if pt_status patch \<noteq> snd row
         then recordAudit flt (Some actor) ''user.status_change'' (show_int target)
                [(''from'', snd row), (''to'', pt_status patch)] db1 else db1)"

text \<open>
  The second phase: transaction, audit rows, eviction. The whole call is the first phase on the
  tables \<open>db1\<close> followed by the second on the tables \<open>db2\<close> it finds by then.
\<close>

definition update_user_finish ::
  "iam_faults \<Rightarrow> int \<Rightarrow> int \<Rightarrow> user_patch \<Rightarrow> string \<times> string \<Rightarrow> iam_db \<Rightarrow> perm_cache
     \<Rightarrow> (iam_error + admin_user) \<times> iam_db \<times> perm_cache" where
  "update_user_finish flt actor target patch row db cache =
     (case update_user_tx flt target patch row db of
        Inl e \<Rightarrow> (Inl e, db, cache)
      | Inr db1 \<Rightarrow>
          (Inr \<lparr>av_id = target, av_email = [], av_display = [], av_role = pt_role patch, av_status = pt_status patch\<rparr>,
           audit_changes flt actor target patch row db1,
           invalidateUserPermissions target cache))"

definition updateUser ::
  "iam_faults \<Rightarrow> int \<Rightarrow> int \<Rightarrow> user_patch \<Rightarrow> iam_db \<Rightarrow> perm_cache
     \<Rightarrow> (iam_error + admin_user) \<times> iam_db \<times> perm_cache" where
  "updateUser flt actor target patch db cache =
     (case update_user_check flt db actor target patch of
        Inl e \<Rightarrow> (Inl e, db, cache)
      | Inr row \<Rightarrow> update_user_finish flt actor target patch row db cache)"

text \<open>The outcome label of the mutation counter.\<close>

definition mutation_label :: "iam_error + admin_user \<Rightarrow> string" where
  "mutation_label r =
     (case r of Inr _ \<Rightarrow> ''success''
      | Inl e \<Rightarrow> if e = CannotEditSelf \<or> e = LastActiveSuperAdmin then ''forbidden'' else ''error'')"

section \<open>The handlers\<close>

text \<open>What the context holds under the key of the user id: nothing, another type, or the id.\<close>

datatype ctx_user = CtxMissing | CtxOther | CtxUser int

definition actorID :: "ctx_user \<Rightarrow> nat + int" where
  "actorID c = (case c of CtxMissing \<Rightarrow> Inl 401 | CtxOther \<Rightarrow> Inl 500 | CtxUser uid \<Rightarrow> Inr uid)"

definition admin_result_code :: "iam_error + admin_user \<Rightarrow> nat" where
  "admin_result_code r =
     (case r of Inr _ \<Rightarrow> 200
      | Inl e \<Rightarrow> if e = UserNotFound then 404
                else if e = CannotEditSelf \<or> e = LastActiveSuperAdmin then 403 else 503)"

definition list_code :: "iam_error + 'a \<Rightarrow> nat" where
  "list_code r = (case r of Inl _ \<Rightarrow> 503 | Inr _ \<Rightarrow> 200)"

text \<open>The body is the patch it decodes to, \<open>None\<close> when it is not JSON of that shape; both fields
  are required.\<close>

definition bind_patch :: "user_patch option \<Rightarrow> user_patch option" where
  "bind_patch b =
     (case b of Some p \<Rightarrow> if pt_role p = [] \<or> pt_status p = [] then None else Some p | None \<Rightarrow> None)"

definition updateUserHandler ::
  "iam_faults \<Rightarrow> ctx_user \<Rightarrow> string \<Rightarrow> user_patch option \<Rightarrow> iam_db \<Rightarrow> perm_cache
     \<Rightarrow> nat \<times> iam_db \<times> perm_cache" where
  "updateUserHandler flt ctx idp body db cache =
     (case actorID ctx of
        Inl code \<Rightarrow> (code, db, cache)
      | Inr actor \<Rightarrow>
          (case parse_int64 idp of
             None \<Rightarrow> (400, db, cache)
           | Some target \<Rightarrow>
               (case bind_patch body of
                  None \<Rightarrow> (400, db, cache)
                | Some patch \<Rightarrow>
                    (case updateUser flt actor target patch db cache of
                       (r, db', cache') \<Rightarrow> (admin_result_code r, db', cache')))))"

end
