(* ===== verification/Admin_Props.thy ===== *)
theory Admin_Props
  imports Admin
begin

text \<open>
  What changing a user guarantees: the tables stay consistent, only the target changes, requests
  answered one after the other never remove the last active super admin (two at once can), and
  the Role Reference lists what permission resolution grants.
\<close>

section \<open>Effects of the two writes\<close>

lemma map_of_upd_snd:
  "map_of (map (\<lambda>(k, v). (k, if k = a then f v else v)) xs) x =
     (if x = a then map_option f (map_of xs x) else map_of xs x)"
  by (induction xs) auto

lemma map_fst_upd_snd [simp]: "map fst (map (\<lambda>(k, v). (k, if k = a then f v else v)) xs) = map fst xs"
  by (induction xs) auto

lemma set_role_tables [simp]:
  "im_users (set_role uid rid db) = im_users db" "im_roles (set_role uid rid db) = im_roles db"
  "im_perms (set_role uid rid db) = im_perms db" "im_role_perms (set_role uid rid db) = im_role_perms db"
  "im_audit (set_role uid rid db) = im_audit db" "im_next (set_role uid rid db) = im_next db"
  by (simp_all add: set_role_def)

lemma set_status_tables [simp]:
  "im_user_roles (set_status uid st db) = im_user_roles db" "im_roles (set_status uid st db) = im_roles db"
  "im_perms (set_status uid st db) = im_perms db" "im_role_perms (set_status uid st db) = im_role_perms db"
  "im_audit (set_status uid st db) = im_audit db" "im_next (set_status uid st db) = im_next db"
  by (simp_all add: set_status_def)

lemma map_of_user_roles_set_role:
  "map_of (im_user_roles (set_role uid rid db)) x = (if x = uid then Some rid else map_of (im_user_roles db) x)"
proof (cases "uid \<in> fst ` set (im_user_roles db)")
  case True
  then obtain r where "map_of (im_user_roles db) uid = Some r"
    by (metis map_of_eq_None_iff not_None_eq)
  with True show ?thesis
    using map_of_upd_snd [of uid "\<lambda>_. rid" "im_user_roles db" x] by (simp add: set_role_def)
next
  case False
  then have "map_of (im_user_roles db) uid = None" by (simp add: map_of_eq_None_iff)
  with False show ?thesis by (simp add: set_role_def map_add_def split: option.splits)
qed

lemma role_of_set_role:
  "role_of_user (set_role uid rid db) x = (if x = uid then map_of (im_roles db) rid else role_of_user db x)"
  by (simp add: role_of_user_def map_of_user_roles_set_role)

lemma role_of_set_status [simp]: "role_of_user (set_status uid st db) = role_of_user db"
  by (simp add: fun_eq_iff role_of_user_def)

lemma user_of_set_status:
  "map_of (im_users (set_status uid st db)) x =
     (if x = uid then map_option (\<lambda>u. u\<lparr>us_status := st\<rparr>) (map_of (im_users db) x) else map_of (im_users db) x)"
  using map_of_upd_snd [of uid "\<lambda>u. u\<lparr>us_status := st\<rparr>" "im_users db" x] by (simp add: set_status_def)

text \<open>Consistency survives a change that keeps ids, subjects and e-mails and assigns known roles
  to known users.\<close>

lemma iam_ok_frame:
  assumes ok: "iam_ok db"
    and same: "map fst (im_users db') = map fst (im_users db)"
      "map (us_subject \<circ> snd) (im_users db') = map (us_subject \<circ> snd) (im_users db)"
      "map (us_email \<circ> snd) (im_users db') = map (us_email \<circ> snd) (im_users db)"
      "im_roles db' = im_roles db" "im_next db' = im_next db"
    and urs: "distinct (map fst (im_user_roles db'))" "fst ` set (im_user_roles db') \<subseteq> fst ` set (im_users db)"
      "snd ` set (im_user_roles db') \<subseteq> fst ` set (im_roles db)"
  shows "iam_ok db'"
proof -
  from same(1) have "fst ` set (im_users db') = fst ` set (im_users db)" by (metis set_map)
  then show ?thesis
    unfolding iam_ok_def same using iam_okD [OF ok] urs by simp
qed

lemma iam_ok_set_role:
  assumes ok: "iam_ok db" and rid: "rid \<in> fst ` set (im_roles db)" and uid: "uid \<in> fst ` set (im_users db)"
  shows "iam_ok (set_role uid rid db)"
proof (rule iam_ok_frame [OF ok])
  let ?urs = "map (\<lambda>(u, r). (u, if u = uid then rid else r)) (im_user_roles db)"
  have m: "map fst ?urs = map fst (im_user_roles db)" using map_fst_upd_snd [of uid "\<lambda>_. rid"] .
  then have f: "fst ` set ?urs = fst ` set (im_user_roles db)" by (metis set_map)
  have s: "snd ` set ?urs \<subseteq> insert rid (snd ` set (im_user_roles db))" by force
  show "distinct (map fst (im_user_roles (set_role uid rid db)))"
  proof (cases "uid \<in> fst ` set (im_user_roles db)")
    case True
    then have "im_user_roles (set_role uid rid db) = ?urs" by (simp add: set_role_def)
    with m iam_okD(7) [OF ok] show ?thesis by metis
  qed (use iam_okD(7) [OF ok] in \<open>simp add: set_role_def\<close>)
  show "fst ` set (im_user_roles (set_role uid rid db)) \<subseteq> fst ` set (im_users db)"
    using f uid iam_okD(8) [OF ok] by (simp add: set_role_def)
  show "snd ` set (im_user_roles (set_role uid rid db)) \<subseteq> fst ` set (im_roles db)"
    using s rid iam_okD(9) [OF ok] by (simp add: set_role_def) blast
qed simp_all

lemma iam_ok_set_status:
  assumes ok: "iam_ok db"
  shows "iam_ok (set_status uid st db)"
proof (rule iam_ok_frame [OF ok])
  show "map fst (im_users (set_status uid st db)) = map fst (im_users db)"
    using map_fst_upd_snd [of uid "\<lambda>u. u\<lparr>us_status := st\<rparr>" "im_users db"] by (simp add: set_status_def)
qed (use iam_okD [OF ok] in \<open>auto simp: set_status_def\<close>)

section \<open>The transaction\<close>

text \<open>A transaction that commits leaves the role and the status asked for, and touches nobody else.\<close>

lemma update_tx_cases:
  assumes ok: "iam_ok db" and row: "getAdminUserRow flt0 db target = Inr row"
    and tx: "update_user_tx flt target patch row db = Inr db'"
  shows "iam_ok db'"
    and "im_roles db' = im_roles db" and "im_audit db' = im_audit db"
    and "im_perms db' = im_perms db" and "im_role_perms db' = im_role_perms db"
    and "map fst (im_users db') = map fst (im_users db)"
    and "x \<noteq> target \<Longrightarrow> map_of (im_users db') x = map_of (im_users db) x \<and> role_of_user db' x = role_of_user db x"
    and "\<exists>u. map_of (im_users db') target = Some u \<and> us_status u = pt_status patch"
    and "shown_role db' target = pt_role patch"
proof -
  obtain u where u: "map_of (im_users db) target = Some u" and row': "row = (shown_role db target, us_status u)"
    using row by (auto simp: getAdminUserRow_def split: if_splits option.splits)
  have mem: "target \<in> fst ` set (im_users db)"
    using u by (metis map_of_eq_None_iff option.distinct(1))
  define db1 where "db1 = (if pt_role patch = fst row then db
    else set_role target (the (role_id db (pt_role patch))) db)"
  have role: "pt_role patch = fst row \<or> (\<exists>rid. role_id db (pt_role patch) = Some rid)"
    and db': "db' = (if pt_status patch = snd row then db1 else set_status target (pt_status patch) db1)"
    using tx by (auto simp: update_user_tx_def Let_def db1_def split: if_splits option.splits sum.splits)
  have ok1: "iam_ok db1"
    using ok role role_id_mem [of db "pt_role patch"] mem unfolding db1_def
    by (auto intro!: iam_ok_set_role) force
  then show "iam_ok db'" by (simp add: db' iam_ok_set_status)
  show "im_roles db' = im_roles db" "im_audit db' = im_audit db"
    "im_perms db' = im_perms db" "im_role_perms db' = im_role_perms db"
    by (simp_all add: db' db1_def)
  have us1: "im_users db1 = im_users db" by (simp add: db1_def)
  show "map fst (im_users db') = map fst (im_users db)"
    using map_fst_upd_snd [of target "\<lambda>u. u\<lparr>us_status := pt_status patch\<rparr>" "im_users db"]
    by (simp add: db' us1 set_status_def)
  show "x \<noteq> target \<Longrightarrow> map_of (im_users db') x = map_of (im_users db) x \<and> role_of_user db' x = role_of_user db x"
    by (simp add: db' us1 user_of_set_status) (simp add: db1_def role_of_set_role)
  show "\<exists>u. map_of (im_users db') target = Some u \<and> us_status u = pt_status patch"
    using u row' by (simp add: db' us1 user_of_set_status)
  have "shown_role db1 target = pt_role patch"
    using role row' role_id_name [OF ok, of "pt_role patch"]
    by (auto simp: db1_def shown_role_def role_of_set_role)
  then show "shown_role db' target = pt_role patch" by (simp add: db' shown_role_def)
qed

lemma audit_changes_tables [simp]:
  "im_users (audit_changes flt a t p row db) = im_users db" "im_roles (audit_changes flt a t p row db) = im_roles db"
  "im_perms (audit_changes flt a t p row db) = im_perms db" "im_role_perms (audit_changes flt a t p row db) = im_role_perms db"
  "im_user_roles (audit_changes flt a t p row db) = im_user_roles db" "im_next (audit_changes flt a t p row db) = im_next db"
  by (simp_all add: audit_changes_def Let_def)

lemma audit_changes_ok [simp]: "iam_ok (audit_changes flt a t p row db) = iam_ok db"
  by (simp add: iam_ok_def)

lemma audit_changes_role [simp]: "role_of_user (audit_changes flt a t p row db) = role_of_user db"
  by (simp add: fun_eq_iff role_of_user_def)

lemma audit_changes_shown [simp]: "shown_role (audit_changes flt a t p row db) = shown_role db"
  by (simp add: fun_eq_iff shown_role_def)

lemma update_user_cases:
  obtains (refused) e where "updateUser flt actor target patch db cache = (Inl e, db, cache)"
  | (applied) row db1 where
      "updateUser flt actor target patch db cache =
        (Inr \<lparr>av_id = target, av_email = [], av_display = [], av_role = pt_role patch, av_status = pt_status patch\<rparr>,
         audit_changes flt actor target patch row db1, invalidateUserPermissions target cache)"
      and "update_user_check flt db actor target patch = Inr row"
      and "update_user_tx flt target patch row db = Inr db1"
proof (cases "update_user_check flt db actor target patch")
  case (Inl e)
  then show thesis by (intro refused) (simp add: updateUser_def)
next
  case (Inr row)
  then show thesis
    by (cases "update_user_tx flt target patch row db")
      (auto simp: updateUser_def update_user_finish_def intro: refused applied)
qed

lemma check_row:
  assumes "update_user_check flt db actor target patch = Inr row"
  shows "getAdminUserRow flt db target = Inr row" and "target \<noteq> actor"
    and "fst row = ''SUPER_ADMIN'' \<Longrightarrow> snd row = ''ACTIVE'' \<Longrightarrow>
      2 \<le> active_supers db \<or> pt_role patch = ''SUPER_ADMIN'' \<and> pt_status patch = ''ACTIVE''"
  using assms
  by (auto simp: update_user_check_def countActiveSuperAdmins_def split: if_splits sum.splits prod.splits)

section \<open>The last active super admin\<close>

text \<open>Active super admins counted as the ids in a set.\<close>

definition super_ids :: "iam_db \<Rightarrow> int set" where
  "super_ids db = {i. role_of_user db i = Some ''SUPER_ADMIN'' \<and>
     (\<exists>u. map_of (im_users db) i = Some u \<and> us_status u = ''ACTIVE'')}"

lemma active_supers_card:
  assumes "iam_ok db"
  shows "active_supers db = card (super_ids db)"
proof -
  let ?xs = "filter (is_active_super db) (im_users db)"
  have d: "distinct (map fst ?xs)" using iam_okD(1) [OF assms] by (rule distinct_map_filter)
  have "fst ` set ?xs = super_ids db"
    using iam_okD(1) [OF assms]
    by (force simp: super_ids_def is_active_super_def image_iff)
  then have "card (super_ids db) = card (set (map fst ?xs))" by simp
  also have "\<dots> = length (map fst ?xs)" using d by (rule distinct_card)
  finally show ?thesis by (simp add: active_supers_def)
qed

lemma super_ids_finite: "iam_ok db \<Longrightarrow> finite (super_ids db)"
  by (rule finite_subset [of _ "fst ` set (im_users db)"])
    (auto simp: super_ids_def dest!: map_of_SomeD intro: rev_image_eqI)

text \<open>Every super admin but the target stays one.\<close>

lemma update_keeps_other_supers:
  assumes "iam_ok db" and "getAdminUserRow flt0 db target = Inr row"
    and "update_user_tx flt target patch row db = Inr db'"
  shows "super_ids db - {target} \<subseteq> super_ids db'"
  using update_tx_cases(7) [OF assms] by (auto simp: super_ids_def)

lemma shown_role_Some: "shown_role db i = r \<Longrightarrow> r \<noteq> [] \<Longrightarrow> role_of_user db i = Some r"
  by (auto simp: shown_role_def split: option.splits)

text \<open>Whatever the patch and whichever database calls fail, an update keeps an active super admin.\<close>

lemma update_keeps_super:
  assumes ok: "iam_ok db" and some: "1 \<le> active_supers db"
    and run: "updateUser flt actor target patch db cache = (r, db', cache')"
  shows "iam_ok db' \<and> 1 \<le> active_supers db'"
proof (cases rule: update_user_cases [of flt actor target patch db cache])
  case (refused e)
  with assms show ?thesis by simp
next
  case (applied row db1)
  note row = check_row(1) [OF applied(2)]
  note T = update_tx_cases [OF ok row applied(3)]
  from run applied have db': "db' = audit_changes flt actor target patch row db1" by simp
  then have ok': "iam_ok db'" and ids: "super_ids db' = super_ids db1" by (simp_all add: T(1) super_ids_def)
  note keep = update_keeps_other_supers [OF ok row applied(3)]
  from some ok have c: "1 \<le> card (super_ids db)" by (simp add: active_supers_card)
  have "super_ids db1 \<noteq> {}"
  proof (cases "target \<in> super_ids db")
    case False
    with keep c show ?thesis by fastforce
  next
    case True
    then have sa: "fst row = ''SUPER_ADMIN''" "snd row = ''ACTIVE''"
      using row by (auto simp: super_ids_def getAdminUserRow_def shown_role_def split: if_splits)
    from check_row(3) [OF applied(2) sa] show ?thesis
    proof
      assume "2 \<le> active_supers db"
      then have "1 \<le> card (super_ids db - {target})"
        using True ok by (simp add: active_supers_card super_ids_finite)
      then have "super_ids db - {target} \<noteq> {}" by (metis card.empty not_one_le_zero)
      with keep show ?thesis by blast
    next
      assume "pt_role patch = ''SUPER_ADMIN'' \<and> pt_status patch = ''ACTIVE''"
      with T(8,9) have "target \<in> super_ids db1" by (auto simp: super_ids_def intro: shown_role_Some)
      then show ?thesis by blast
    qed
  qed
  then have "0 < card (super_ids db1)" using T(1) by (simp add: card_gt_0_iff super_ids_finite)
  with ok' ids show ?thesis by (simp add: active_supers_card)
qed

text \<open>C38. A successful update leaves the target with exactly the role and status asked for and
  no cached permissions, and touches the role and the row of no other user. The audit log gains one
  row for the role and one for the status, each if it changed, with who changed what from what to
  what; a row whose insert fails is missing, and the update succeeds without it.\<close>

theorem admin_update_effective:
  assumes ok: "iam_ok db" and role: "pt_role patch \<noteq> []"
    and run: "updateUser flt actor target patch db cache = (Inr v, db', cache')"
  shows "role_of_user db' target = Some (pt_role patch) \<and>
    (\<exists>u u'. map_of (im_users db) target = Some u \<and> map_of (im_users db') target = Some u' \<and> us_status u' = pt_status patch \<and>
      im_audit db' = im_audit db
        @ (if pt_role patch = shown_role db target \<or> flt (IAudit ''role.assign'') then []
           else [\<lparr>au_actor = Some actor, au_action = ''role.assign'', au_target = show_int target,
                  au_meta = [(''from'', shown_role db target), (''to'', pt_role patch)]\<rparr>])
        @ (if pt_status patch = us_status u \<or> flt (IAudit ''user.status_change'') then []
           else [\<lparr>au_actor = Some actor, au_action = ''user.status_change'', au_target = show_int target,
                  au_meta = [(''from'', us_status u), (''to'', pt_status patch)]\<rparr>])) \<and>
    cache' target = None \<and>
    (\<forall>x. x \<noteq> target \<longrightarrow> cache' x = cache x \<and> role_of_user db' x = role_of_user db x \<and>
        map_of (im_users db') x = map_of (im_users db) x)"
proof (cases rule: update_user_cases [of flt actor target patch db cache])
  case (refused e)
  with run show ?thesis by simp
next
  case (applied row db1)
  note row = check_row(1) [OF applied(2)]
  note T = update_tx_cases [OF ok row applied(3)]
  from run applied have db': "db' = audit_changes flt actor target patch row db1"
    and cache': "cache' = invalidateUserPermissions target cache" by simp_all
  from row obtain u where u: "map_of (im_users db) target = Some u"
    and r: "row = (shown_role db target, us_status u)"
    by (auto simp: getAdminUserRow_def split: if_splits option.splits)
  have up: "\<not> flt IGetDB" using applied(2) by (auto simp: update_user_check_def)
  have audit: "im_audit db' = im_audit db
        @ (if pt_role patch = shown_role db target \<or> flt (IAudit ''role.assign'') then []
           else [\<lparr>au_actor = Some actor, au_action = ''role.assign'', au_target = show_int target,
                  au_meta = [(''from'', shown_role db target), (''to'', pt_role patch)]\<rparr>])
        @ (if pt_status patch = us_status u \<or> flt (IAudit ''user.status_change'') then []
           else [\<lparr>au_actor = Some actor, au_action = ''user.status_change'', au_target = show_int target,
                  au_meta = [(''from'', us_status u), (''to'', pt_status patch)]\<rparr>])"
    using up T(3) by (simp add: db' audit_changes_def recordAudit_def Let_def r)
  have "role_of_user db1 target = Some (pt_role patch)"
    using T(9) role by (rule shown_role_Some)
  then show ?thesis
    using T(7,8) u audit by (auto simp: db' cache' invalidateUserPermissions_def)
qed

theorem admin_update_effective_witness:
  "\<exists>v db' cache'. updateUser iam_up 1 2 \<lparr>pt_role = ''RULE_EDITOR'', pt_status = ''ACTIVE''\<rparr>
      (seed_iam [(1, demo_user ''root'' ''root@x'' ''ACTIVE''), (2, demo_user ''bob'' ''bob@x'' ''ACTIVE'')] [(1, 1), (2, 4)] 3) Map.empty
      = (Inr v, db', cache') \<and> role_of_user db' 2 = Some ''RULE_EDITOR''"
proof -
  let ?db = "seed_iam [(1, demo_user ''root'' ''root@x'' ''ACTIVE''), (2, demo_user ''bob'' ''bob@x'' ''ACTIVE'')] [(1, 1), (2, 4)] 3"
  let ?p = "\<lparr>pt_role = ''RULE_EDITOR'', pt_status = ''ACTIVE''\<rparr>"
  have ok: "iam_ok ?db" by (simp add: iam_ok_def seed_iam_def seed_roles_def demo_user_def)
  have row: "getAdminUserRow iam_up ?db 2 = Inr (''READ_ONLY_ANALYST'', ''ACTIVE'')"
    by (simp add: getAdminUserRow_def shown_role_def role_of_user_def seed_iam_def seed_roles_def demo_user_def)
  then have chk: "update_user_check iam_up ?db 1 2 ?p = Inr (''READ_ONLY_ANALYST'', ''ACTIVE'')"
    by (simp add: update_user_check_def countActiveSuperAdmins_def)
  have "role_id ?db ''RULE_EDITOR'' = Some 3" by (simp add: role_id_def seed_iam_def seed_roles_def)
  moreover have "map_of (im_users ?db) 2 \<noteq> None" by (simp add: seed_iam_def)
  ultimately have "\<exists>db1. update_user_tx iam_up 2 ?p (''READ_ONLY_ANALYST'', ''ACTIVE'') ?db = Inr db1"
    by (simp add: update_user_tx_def)
  then obtain v db' cache' where run: "updateUser iam_up 1 2 ?p ?db Map.empty = (Inr v, db', cache')"
    using chk by (auto simp: updateUser_def update_user_finish_def)
  from admin_update_effective [OF ok _ run] run show ?thesis by simp
qed

lemma super_row:
  assumes "i \<in> super_ids db"
  shows "getAdminUserRow iam_up db i = Inr (''SUPER_ADMIN'', ''ACTIVE'')"
  using assms by (auto simp: super_ids_def getAdminUserRow_def shown_role_def)

abbreviation disable_super :: user_patch where
  "disable_super \<equiv> \<lparr>pt_role = ''SUPER_ADMIN'', pt_status = ''DISABLED''\<rparr>"

lemma disable_finish:
  "update_user_finish iam_up actor target disable_super (''SUPER_ADMIN'', ''ACTIVE'') db cache =
     (Inr \<lparr>av_id = target, av_email = [], av_display = [], av_role = ''SUPER_ADMIN'', av_status = ''DISABLED''\<rparr>,
      audit_changes iam_up actor target disable_super (''SUPER_ADMIN'', ''ACTIVE'') (set_status target ''DISABLED'' db),
      invalidateUserPermissions target cache)"
  by (simp add: update_user_finish_def update_user_tx_def)

lemma active_supers_audit [simp]: "active_supers (audit_changes flt a t p row db) = active_supers db"
proof -
  have "is_active_super (audit_changes flt a t p row db) = is_active_super db"
    by (simp add: fun_eq_iff is_active_super_def)
  then show ?thesis by (simp add: active_supers_def)
qed

lemma super_ids_audit [simp]: "super_ids (audit_changes flt a t p row db) = super_ids db"
  by (simp add: super_ids_def)

lemma super_ids_disable: "super_ids (set_status i ''DISABLED'' db) = super_ids db - {i}"
  by (auto simp: super_ids_def user_of_set_status)

text \<open>C26. Two updates at once can remove the last active super admin: the checks run outside the transaction, so when the two last
  active super admins disable each other and both check before either commits, both updates
  succeed and no active super admin is left.\<close>

theorem concurrent_updates_lose_all_supers:
  assumes ok: "iam_ok db" and two: "super_ids db = {a, b}" and ne: "a \<noteq> b"
  shows "\<exists>row1 row2 v1 db1 cache1 v2 db2 cache2.
    update_user_check iam_up db a b disable_super = Inr row1 \<and>
    update_user_check iam_up db b a disable_super = Inr row2 \<and>
    update_user_finish iam_up a b disable_super row1 db cache = (Inr v1, db1, cache1) \<and>
    update_user_finish iam_up b a disable_super row2 db1 cache1 = (Inr v2, db2, cache2) \<and>
    active_supers db2 = 0"
proof -
  have n: "active_supers db = 2" using ok two ne by (simp add: active_supers_card)
  have row: "getAdminUserRow iam_up db a = Inr (''SUPER_ADMIN'', ''ACTIVE'')"
    "getAdminUserRow iam_up db b = Inr (''SUPER_ADMIN'', ''ACTIVE'')"
    using two by (simp_all add: super_row)
  then have chk: "update_user_check iam_up db a b disable_super = Inr (''SUPER_ADMIN'', ''ACTIVE'')"
    "update_user_check iam_up db b a disable_super = Inr (''SUPER_ADMIN'', ''ACTIVE'')"
    using n ne by (simp_all add: update_user_check_def countActiveSuperAdmins_def)
  have "iam_ok (set_status a ''DISABLED'' (audit_changes iam_up x y p row (set_status b ''DISABLED'' db)))" for x y p row
    using ok by (simp add: iam_ok_set_status)
  then have "active_supers (set_status a ''DISABLED'' (audit_changes iam_up x y p row (set_status b ''DISABLED'' db))) = 0"
    for x y p row
    using two by (auto simp: active_supers_card super_ids_disable)
  then show ?thesis using chk by (simp add: disable_finish)
qed

abbreviation two_roots :: iam_db where
  "two_roots \<equiv> seed_iam [(1, demo_user ''root'' ''root@x'' ''ACTIVE''), (2, demo_user ''bob'' ''bob@x'' ''ACTIVE'')] [(1, 1), (2, 1)] 3"

lemma two_roots_ok: "iam_ok two_roots"
  by (simp add: iam_ok_def seed_iam_def seed_roles_def demo_user_def)

lemma two_roots_supers: "super_ids two_roots = {1, 2}"
  by (auto simp: super_ids_def role_of_user_def seed_iam_def seed_roles_def demo_user_def split: if_splits)

theorem concurrent_updates_lose_all_supers_witness:
  "\<exists>row1 row2 v1 db1 cache1 v2 db2 cache2.
    update_user_check iam_up two_roots 1 2 disable_super = Inr row1 \<and>
    update_user_check iam_up two_roots 2 1 disable_super = Inr row2 \<and>
    update_user_finish iam_up 1 2 disable_super row1 two_roots Map.empty = (Inr v1, db1, cache1) \<and>
    update_user_finish iam_up 2 1 disable_super row2 db1 cache1 = (Inr v2, db2, cache2) \<and>
    active_supers db2 = 0"
  by (rule concurrent_updates_lose_all_supers [OF two_roots_ok two_roots_supers]) simp

text \<open>A request to change a user that is not answered with 200 changes no table and no cached
  permission; one that is answered with 200 came from an identified caller other than the target.\<close>

theorem refused_update_changes_nothing:
  assumes "updateUserHandler flt ctx idp body db cache = (code, db', cache')"
  shows "(code \<noteq> 200 \<longrightarrow> db' = db \<and> cache' = cache) \<and>
    (code = 200 \<longrightarrow> (\<exists>actor target. ctx = CtxUser actor \<and> parse_int64 idp = Some target \<and> target \<noteq> actor)) \<and>
    code \<in> {200, 400, 401, 403, 404, 500, 503}"
proof -
  have refused: "(\<exists>e. updateUser flt a t p db cache = (Inl e, db, cache)) \<or>
      (\<exists>v db1 c1. updateUser flt a t p db cache = (Inr v, db1, c1) \<and> t \<noteq> a)" for a t p
    by (rule update_user_cases [of flt a t p db cache]) (auto dest: check_row(2))
  show ?thesis
  proof (cases "\<exists>actor target patch. ctx = CtxUser actor \<and> parse_int64 idp = Some target \<and> bind_patch body = Some patch")
    case True
    then obtain actor target patch
      where eqs: "ctx = CtxUser actor" "parse_int64 idp = Some target" "bind_patch body = Some patch" by blast
    from refused [of actor target patch] show ?thesis
    proof (elim disjE exE conjE)
      fix e
      assume "updateUser flt actor target patch db cache = (Inl e, db, cache)"
      with assms eqs have "code = admin_result_code (Inl e)" "db' = db" "cache' = cache"
        by (simp_all add: updateUserHandler_def actorID_def)
      then show ?thesis by (simp add: admin_result_code_def)
    next
      fix v db1 c1
      assume "updateUser flt actor target patch db cache = (Inr v, db1, c1)" "target \<noteq> actor"
      with assms eqs show ?thesis by (simp add: updateUserHandler_def actorID_def admin_result_code_def)
    qed
  next
    case False
    with assms show ?thesis
      by (cases ctx; cases "parse_int64 idp"; cases "bind_patch body")
        (simp_all add: updateUserHandler_def actorID_def)
  qed
qed

theorem refused_update_changes_nothing_witness:
  "\<exists>code db' cache'. updateUserHandler iam_up (CtxUser 1) ''1'' (Some disable_super) root_only Map.empty = (code, db', cache') \<and>
     (code \<noteq> 200 \<longrightarrow> db' = root_only)"
proof -
  obtain code db' cache' where
    run: "updateUserHandler iam_up (CtxUser 1) ''1'' (Some disable_super) root_only Map.empty = (code, db', cache')"
    by (metis prod_cases3)
  from refused_update_changes_nothing [OF this] run show ?thesis by blast
qed

end
