(* ===== verification/Auth.thy ===== *)
theory Auth
  imports Admin_Props
begin

text \<open>
  \<open>internal/middleware/auth.go\<close>, the routes of \<open>cmd/server/main.go\<close> with their guards, and
  \<open>GET /me\<close> (\<open>internal/handlers/iam.go\<close>). The two middlewares take their resolvers as
  arguments, as in the source; the wiring of \<open>main.go\<close> gives them the functions of \<open>Rbac\<close>. Status
  codes are numbers.
\<close>

section \<open>The middlewares\<close>

datatype identity_error = IdentityNotFound | IdentityFailed

definition identityMiddleware ::
  "(string \<Rightarrow> 's \<Rightarrow> (identity_error + (int \<times> string)) \<times> 's) option \<Rightarrow> string \<Rightarrow> 's \<Rightarrow> (nat + int) \<times> 's" where
  "identityMiddleware resolver header s =
     (case resolver of
        None \<Rightarrow> (Inl 501, s)
      | Some resolve \<Rightarrow>
          (let sub = trim_space header
           in if sub = [] then (Inl 401, s)
              else case resolve sub s of
                (Inl IdentityNotFound, s') \<Rightarrow> (Inl 401, s')
              | (Inl IdentityFailed, s') \<Rightarrow> (Inl 503, s')
              | (Inr (uid, status), s') \<Rightarrow> if status \<noteq> ''ACTIVE'' then (Inl 403, s') else (Inr uid, s')))"

text \<open>\<open>None\<close> lets the request through.\<close>

definition requirePermission ::
  "(int \<Rightarrow> 's \<Rightarrow> (iam_error + grant) \<times> 's) \<Rightarrow> string \<Rightarrow> string \<Rightarrow> ctx_user \<Rightarrow> 's \<Rightarrow> nat option \<times> 's" where
  "requirePermission check resource action ctx s =
     (case ctx of
        CtxMissing \<Rightarrow> (Some 401, s)
      | CtxOther \<Rightarrow> (Some 500, s)
      | CtxUser uid \<Rightarrow>
          (case check uid s of
             (Inl e, s') \<Rightarrow> (Some 503, s')
           | (Inr g, s') \<Rightarrow> (if perm_key (resource, action) \<in> set (snd g) then None else Some 403, s')))"

definition me :: "(int \<Rightarrow> 's \<Rightarrow> (iam_error + grant) \<times> 's) \<Rightarrow> ctx_user \<Rightarrow> 's \<Rightarrow> (nat + (int \<times> grant)) \<times> 's" where
  "me check ctx s =
     (case ctx of
        CtxMissing \<Rightarrow> (Inl 401, s)
      | CtxOther \<Rightarrow> (Inl 500, s)
      | CtxUser uid \<Rightarrow>
          (case check uid s of
             (Inl e, s') \<Rightarrow> (Inl 503, s')
           | (Inr g, s') \<Rightarrow> (Inr (uid, g), s')))"

section \<open>The wiring\<close>

record auth_state =
  as_db :: iam_db
  as_limiter :: jit_limiter
  as_cache :: perm_cache

text \<open>What the environment gives a request: configuration, failures, the address, the instants.\<close>

record auth_env =
  ae_cfg :: rbac_config
  ae_faults :: iam_faults
  ae_faults2 :: iam_faults
  ae_ip :: string
  ae_t0 :: instant
  ae_t1 :: instant

definition resolve_identity :: "iam_error + (int \<times> string) \<Rightarrow> identity_error + (int \<times> string)" where
  "resolve_identity r =
     (case r of Inl e \<Rightarrow> Inl (if e = UserNotFound then IdentityNotFound else IdentityFailed) | Inr x \<Rightarrow> Inr x)"

definition live_resolver :: "auth_env \<Rightarrow> string \<Rightarrow> auth_state \<Rightarrow> (identity_error + (int \<times> string)) \<times> auth_state" where
  "live_resolver env sub s =
     (case getOrProvisionUser (ae_cfg env) (ae_faults env) (ae_faults2 env) (ae_t0 env) sub (ae_ip env)
             (as_db s) (as_limiter s) of
        (r, db, l) \<Rightarrow> (resolve_identity r, s\<lparr>as_db := db, as_limiter := l\<rparr>))"

definition live_check :: "auth_env \<Rightarrow> int \<Rightarrow> auth_state \<Rightarrow> (iam_error + grant) \<times> auth_state" where
  "live_check env uid s =
     (case getUserPermissions (ae_cfg env) (ae_t0 env) (ae_t1 env)
             (fetchUserPermissions (ae_faults env) (as_db s) (as_db s) uid) (as_cache s) uid of
        (r, cache) \<Rightarrow> (r, s\<lparr>as_cache := cache\<rparr>))"

section \<open>Routes\<close>

datatype guard = Unguarded | SignedIn | Permission string string

definition routes :: "((string \<times> string) \<times> guard) list" where
  "routes =
     [((''GET'', ''/''), Unguarded), ((''GET'', ''/health''), Unguarded), ((''GET'', ''/readyz''), Unguarded),
      ((''GET'', ''/metrics''), Unguarded), ((''GET'', ''/me''), SignedIn),
      ((''GET'', ''/admin/users''), Permission ''iam'' ''manage''),
      ((''PATCH'', ''/admin/users/:id''), Permission ''iam'' ''manage''),
      ((''GET'', ''/admin/roles''), Permission ''iam'' ''manage''),
      ((''GET'', ''/admin/audit-log''), Permission ''iam'' ''manage''),
      ((''GET'', ''/rules/live-analysis''), Unguarded), ((''GET'', ''/rules/agg-analysis''), Unguarded),
      ((''GET'', ''/rules/anomaly-analysis''), Unguarded), ((''POST'', ''/rules/historical-test''), Unguarded),
      ((''POST'', ''/rules/historical-analysis''), Unguarded), ((''POST'', ''/rules/historical-breakdown''), Unguarded),
      ((''POST'', ''/rules''), Permission ''rules'' ''create''), ((''GET'', ''/rules''), Unguarded),
      ((''GET'', ''/rules/:rule_id''), Unguarded),
      ((''POST'', ''/rules/:rule_id/prod''), Permission ''rules'' ''publish''),
      ((''POST'', ''/rules/:rule_id/status''), Permission ''rules'' ''publish''),
      ((''PUT'', ''/rules/:rule_id''), Permission ''rules'' ''update''),
      ((''DELETE'', ''/rules/:rule_id''), Permission ''rules'' ''delete''),
      ((''GET'', ''/rules/:rule_id/live-results''), Unguarded), ((''GET'', ''/rules/:rule_id/top-groups''), Unguarded),
      ((''GET'', ''/rules/:rule_id/group-detail''), Unguarded), ((''GET'', ''/ws/live-analysis''), Unguarded),
      ((''GET'', ''/ws/anomaly-analysis''), Unguarded)]"

text \<open>The guard chain before a handler: the status it aborts with, or the context it passes on.\<close>

definition run_guard :: "auth_env \<Rightarrow> guard \<Rightarrow> string \<Rightarrow> auth_state \<Rightarrow> (nat + ctx_user) \<times> auth_state" where
  "run_guard env g header s =
     (case g of
        Unguarded \<Rightarrow> (Inr CtxMissing, s)
      | SignedIn \<Rightarrow>
          (case identityMiddleware (Some (live_resolver env)) header s of
             (Inl code, s') \<Rightarrow> (Inl code, s')
           | (Inr uid, s') \<Rightarrow> (Inr (CtxUser uid), s'))
      | Permission resource action \<Rightarrow>
          (case identityMiddleware (Some (live_resolver env)) header s of
             (Inl code, s') \<Rightarrow> (Inl code, s')
           | (Inr uid, s1) \<Rightarrow>
               (case requirePermission (live_check env) resource action (CtxUser uid) s1 of
                  (Some code, s') \<Rightarrow> (Inl code, s')
                | (None, s') \<Rightarrow> (Inr (CtxUser uid), s'))))"

section \<open>What a guard relies on\<close>

text \<open>
  A permission source answers checks and keeps an invariant under which an answer contains a key
  only if the user holds it.
\<close>

locale permission_source =
  fixes check :: "int \<Rightarrow> 's \<Rightarrow> (iam_error + grant) \<times> 's"
    and inv :: "'s \<Rightarrow> bool" and holds :: "'s \<Rightarrow> int \<Rightarrow> string \<Rightarrow> bool"
  assumes check_inv: "inv s \<Longrightarrow> inv (snd (check uid s))"
    and check_sound: "inv s \<Longrightarrow> fst (check uid s) = Inr g \<Longrightarrow> k \<in> set (snd g) \<Longrightarrow> holds (snd (check uid s)) uid k"
begin

lemma require_inv: "inv s \<Longrightarrow> inv (snd (requirePermission check res act ctx s))"
  using check_inv by (auto simp: requirePermission_def split: ctx_user.splits prod.splits sum.splits) (metis snd_conv)+

lemma me_inv: "inv s \<Longrightarrow> inv (snd (me check ctx s))"
  using check_inv by (auto simp: me_def split: ctx_user.splits prod.splits sum.splits) (metis snd_conv)+

lemma require_sound:
  assumes "inv s" and "requirePermission check res act ctx s = (None, s')"
  shows "\<exists>uid. ctx = CtxUser uid \<and> holds s' uid (perm_key (res, act))"
proof -
  from assms(2) obtain uid g where "ctx = CtxUser uid" "check uid s = (Inr g, s')" "perm_key (res, act) \<in> set (snd g)"
    by (auto simp: requirePermission_def split: ctx_user.splits prod.splits sum.splits if_splits)
  with check_sound [OF assms(1), of uid g] show ?thesis by simp
qed

end

text \<open>An identity source keeps the invariant and names only active users.\<close>

locale identity_source =
  fixes resolve :: "string \<Rightarrow> 's \<Rightarrow> (identity_error + (int \<times> string)) \<times> 's" and inv :: "'s \<Rightarrow> bool"
    and active :: "'s \<Rightarrow> int \<Rightarrow> bool"
  assumes resolve_inv: "inv s \<Longrightarrow> inv (snd (resolve sub s))"
    and resolve_active: "inv s \<Longrightarrow> fst (resolve sub s) = Inr (uid, ''ACTIVE'') \<Longrightarrow> active (snd (resolve sub s)) uid"
begin

lemma identity_inv: "inv s \<Longrightarrow> inv (snd (identityMiddleware (Some resolve) header s))"
  using resolve_inv [of s "trim_space header"]
  by (auto simp: identityMiddleware_def Let_def split: prod.splits sum.splits identity_error.splits)

lemma identity_active:
  assumes "inv s" and "identityMiddleware (Some resolve) header s = (Inr uid, s')"
  shows "active s' uid"
  using assms(2) resolve_active [OF assms(1), of "trim_space header" uid]
  by (auto simp: identityMiddleware_def Let_def split: prod.splits sum.splits identity_error.splits if_splits)

end

end
