(* ===== verification/Auth_Props.thy ===== *)
theory Auth_Props
  imports Auth
begin

text \<open>
  Who gets through which guard. The interfaces of \<open>Auth\<close> are interpreted on the permission cache
  and on provisioning under the invariant that the cache agrees with the tables, which holds as
  long as requests are answered one after the other and only this program writes the tables.
\<close>

section \<open>The join, resolved\<close>

lemma concat_pick:
  "distinct (map fst xs) \<Longrightarrow>
   concat (map (\<lambda>(k, v). if k \<noteq> x then [] else f v) xs) = (case map_of xs x of None \<Rightarrow> [] | Some v \<Rightarrow> f v)"
proof (induction xs)
  case (Cons p xs)
  obtain k v where p: "p = (k, v)" by (cases p)
  show ?case
  proof (cases "k = x")
    case True
    with Cons.prems p have "map_of xs x = None" by (simp add: map_of_eq_None_iff)
    with Cons True p show ?thesis by simp
  qed (use Cons p in simp)
qed simp

text \<open>The permissions of a role, each with the role's name.\<close>

definition rows_of_role :: "iam_db \<Rightarrow> int \<Rightarrow> string \<Rightarrow> (string \<times> (string \<times> string)) list" where
  "rows_of_role db r name =
     concat (map (\<lambda>(r'', p). if r'' \<noteq> r then []
       else concat (map (\<lambda>(p', ra). if p' \<noteq> p then [] else [(name, ra)]) (im_perms db))) (im_role_perms db))"

lemma permission_rows_role:
  assumes "iam_ok db"
  shows "permission_rows db uid =
    (case map_of (im_user_roles db) uid of None \<Rightarrow> []
     | Some r \<Rightarrow> (case map_of (im_roles db) r of None \<Rightarrow> [] | Some name \<Rightarrow> rows_of_role db r name))"
proof -
  note d = iam_okD(7,5) [OF assms]
  have "permission_rows db uid =
     concat (map (\<lambda>(u, r). if u \<noteq> uid then [] else
       concat (map (\<lambda>(r', name). if r' \<noteq> r then [] else rows_of_role db r name) (im_roles db))) (im_user_roles db))"
    unfolding permission_rows_def rows_of_role_def by (rule refl)
  also have "\<dots> = (case map_of (im_user_roles db) uid of None \<Rightarrow> [] | Some r \<Rightarrow>
       concat (map (\<lambda>(r', name). if r' \<noteq> r then [] else rows_of_role db r name) (im_roles db)))"
    by (rule concat_pick [OF d(1)])
  also have "\<dots> = (case map_of (im_user_roles db) uid of None \<Rightarrow> []
     | Some r \<Rightarrow> (case map_of (im_roles db) r of None \<Rightarrow> [] | Some name \<Rightarrow> rows_of_role db r name))"
    by (simp only: concat_pick [OF d(2)])
  finally show ?thesis .
qed

section \<open>The seeded permission matrix\<close>

definition seeded :: "iam_db \<Rightarrow> bool" where
  "seeded db \<longleftrightarrow> im_roles db = seed_roles \<and> im_perms db = seed_perms \<and> im_role_perms db = seed_role_perms"

lemma seed_role_perms_list:
  "seed_role_perms =
     [(1, 1), (1, 2), (1, 3), (1, 4), (1, 5), (1, 6), (1, 7), (1, 8), (1, 9), (1, 10),
      (2, 1), (2, 2), (2, 3), (2, 4), (2, 5), (2, 6), (2, 7), (2, 8), (2, 9),
      (3, 1), (3, 2), (3, 3), (3, 6), (3, 7), (3, 8), (3, 9),
      (4, 2), (4, 6), (4, 7), (4, 8), (4, 9)]"
  by (simp add: seed_role_perms_def seed_roles_def seed_perms_def)

lemma seed_perms_distinct: "distinct (map fst seed_perms)"
  by (simp add: seed_perms_def)

text \<open>The roles that hold a permission key.\<close>

definition holders :: "string \<Rightarrow> string set" where
  "holders k =
     (if k = ''iam:manage'' then {''SUPER_ADMIN''}
      else if k \<in> {''rules:publish'', ''rules:delete''} then {''SUPER_ADMIN'', ''RULE_MANAGER''}
      else if k \<in> {''rules:create'', ''rules:update''} then {''SUPER_ADMIN'', ''RULE_MANAGER'', ''RULE_EDITOR''}
      else if k \<in> {''rules:read'', ''live_analysis:read'', ''aggregated_analysis:read'',
                   ''historical_analysis:read'', ''historical_analysis:execute''}
      then {''SUPER_ADMIN'', ''RULE_MANAGER'', ''RULE_EDITOR'', ''READ_ONLY_ANALYST''} else {})"

definition keys_of_role :: "int \<Rightarrow> string list" where
  "keys_of_role r = concat (map (\<lambda>(r'', p). if r'' \<noteq> r then []
       else (case map_of seed_perms p of None \<Rightarrow> [] | Some ra \<Rightarrow> [perm_key ra])) seed_role_perms)"

lemma keys_of_role_eval:
  "keys_of_role 1 = [''rules:create'', ''rules:read'', ''rules:update'', ''rules:delete'', ''rules:publish'',
     ''live_analysis:read'', ''aggregated_analysis:read'', ''historical_analysis:read'',
     ''historical_analysis:execute'', ''iam:manage'']"
  "keys_of_role 2 = [''rules:create'', ''rules:read'', ''rules:update'', ''rules:delete'', ''rules:publish'',
     ''live_analysis:read'', ''aggregated_analysis:read'', ''historical_analysis:read'', ''historical_analysis:execute'']"
  "keys_of_role 3 = [''rules:create'', ''rules:read'', ''rules:update'',
     ''live_analysis:read'', ''aggregated_analysis:read'', ''historical_analysis:read'', ''historical_analysis:execute'']"
  "keys_of_role 4 = [''rules:read'',
     ''live_analysis:read'', ''aggregated_analysis:read'', ''historical_analysis:read'', ''historical_analysis:execute'']"
  by (simp_all add: keys_of_role_def seed_role_perms_list seed_perms_def perm_key_def)

lemma rows_of_role_seeded:
  assumes "seeded db"
  shows "map (perm_key \<circ> snd) (rows_of_role db r name) = keys_of_role r"
proof -
  have "rows_of_role db r name = concat (map (\<lambda>(r'', p). if r'' \<noteq> r then []
       else (case map_of seed_perms p of None \<Rightarrow> [] | Some ra \<Rightarrow> [(name, ra)])) seed_role_perms)"
    using assms unfolding rows_of_role_def seeded_def
    by (simp only: concat_pick [OF seed_perms_distinct])
  moreover have "map (perm_key \<circ> snd) (concat (map (\<lambda>(r'', p). if r'' \<noteq> r then []
       else (case map_of seed_perms p of None \<Rightarrow> [] | Some ra \<Rightarrow> [(name, ra)])) xs)) =
     concat (map (\<lambda>(r'', p). if r'' \<noteq> r then []
       else (case map_of seed_perms p of None \<Rightarrow> [] | Some ra \<Rightarrow> [perm_key ra])) xs)" for xs
    by (induction xs) (auto split: option.splits)
  ultimately show ?thesis by (simp add: keys_of_role_def)
qed

lemma seeded_holders:
  assumes ok: "iam_ok db" and seeded: "seeded db"
  shows "k \<in> set (snd (grant_of db uid)) \<longleftrightarrow> (\<exists>r \<in> holders k. role_of_user db uid = Some r)"
proof (cases "map_of (im_user_roles db) uid")
  case None
  then show ?thesis
    using permission_rows_role [OF ok, of uid] by (simp add: grant_of_def Let_def role_of_user_def)
next
  case (Some r)
  then have "r \<in> snd ` set (im_user_roles db)" by (metis map_of_SomeD image_eqI snd_conv)
  with iam_okD(9) [OF ok] seeded have "r \<in> {1, 2, 3, 4}" by (auto simp: seeded_def seed_roles_def)
  then obtain name where name: "map_of seed_roles r = Some name" by (auto simp: seed_roles_def)
  have "set (snd (grant_of db uid)) = set (map (perm_key \<circ> snd) (permission_rows db uid))"
    by (simp add: grant_of_def Let_def)
  also have "\<dots> = set (keys_of_role r)"
    using permission_rows_role [OF ok, of uid] Some seeded name rows_of_role_seeded [OF seeded, of r name]
    by (simp add: seeded_def)
  finally have keys: "set (snd (grant_of db uid)) = set (keys_of_role r)" .
  have role: "role_of_user db uid = Some name" using Some name seeded by (simp add: role_of_user_def seeded_def)
  have "k \<in> set (keys_of_role r) \<longleftrightarrow> name \<in> holders k"
    using \<open>r \<in> {1, 2, 3, 4}\<close> name by (elim insertE) (auto simp: keys_of_role_eval seed_roles_def holders_def)
  with keys role show ?thesis by simp
qed

section \<open>The permissions of a user depend on the role alone\<close>

lemma role_id_of:
  assumes ok: "iam_ok db" and r: "map_of (im_roles db) r = Some name"
  shows "role_id db name = Some r"
proof -
  from r have mem: "(r, name) \<in> set (im_roles db)" by (rule map_of_SomeD)
  then have "role_id db name \<noteq> None" by (auto simp: role_id_def find_None_iff)
  then obtain r' where r': "role_id db name = Some r'" by blast
  have "inj_on snd (set (im_roles db))" using iam_okD(6) [OF ok] by (simp add: distinct_map)
  from inj_onD [OF this _ mem role_id_mem [OF r']] have "r = r'" by simp
  with r' show ?thesis by simp
qed

lemma permission_rows_name:
  assumes ok: "iam_ok db"
  shows "permission_rows db uid =
    (case role_of_user db uid of None \<Rightarrow> [] | Some name \<Rightarrow> rows_of_role db (the (role_id db name)) name)"
  using permission_rows_role [OF ok, of uid] role_id_of [OF ok]
  by (cases "map_of (im_user_roles db) uid"; cases "role_of_user db uid")
    (auto simp: role_of_user_def split: option.splits)

lemma grant_of_frame:
  assumes "iam_ok db" and "iam_ok db'" and "role_of_user db' uid = role_of_user db uid"
    and "im_roles db' = im_roles db" "im_perms db' = im_perms db" "im_role_perms db' = im_role_perms db"
  shows "grant_of db' uid = grant_of db uid"
proof -
  have "role_id db' = role_id db" using assms by (simp add: fun_eq_iff role_id_def)
  moreover have "rows_of_role db' = rows_of_role db"
    by (intro ext) (simp only: rows_of_role_def assms)
  ultimately have "permission_rows db' uid = permission_rows db uid"
    unfolding permission_rows_name [OF assms(1)] permission_rows_name [OF assms(2)] assms(3) by (simp only:)
  then show ?thesis by (simp add: grant_of_def)
qed

section \<open>The cache agrees with the tables\<close>

definition user_active :: "iam_db \<Rightarrow> int \<Rightarrow> bool" where
  "user_active db uid \<longleftrightarrow> (\<exists>u. map_of (im_users db) uid = Some u \<and> us_status u = ''ACTIVE'')"

definition coherent :: "auth_state \<Rightarrow> bool" where
  "coherent s \<longleftrightarrow> iam_ok (as_db s) \<and>
     (\<forall>uid e. as_cache s uid = Some e \<longrightarrow> user_active (as_db s) uid \<and> ce_grant e = grant_of (as_db s) uid)"

definition user_holds :: "auth_state \<Rightarrow> int \<Rightarrow> string \<Rightarrow> bool" where
  "user_holds s uid k \<longleftrightarrow> user_active (as_db s) uid \<and> k \<in> set (snd (grant_of (as_db s) uid))"

lemma fetch_current:
  "fetchUserPermissions flt db db uid = Inr g \<Longrightarrow> user_active db uid \<and> g = grant_of db uid"
  by (auto simp: fetchUserPermissions_def user_active_def split: if_splits option.splits)

lemma live_check_db [simp]: "as_db (snd (live_check env uid s)) = as_db s"
  by (simp add: live_check_def split: prod.splits)

lemma live_check_coherent:
  assumes "coherent s"
  shows "coherent (snd (live_check env uid s)) \<and>
    (\<forall>g. fst (live_check env uid s) = Inr g \<longrightarrow> user_active (as_db s) uid \<and> g = grant_of (as_db s) uid)"
proof -
  have entry: "user_active (as_db s) x \<and> ce_grant e = grant_of (as_db s) x" if "as_cache s x = Some e" for x e
    using assms that by (simp add: coherent_def)
  have ok: "iam_ok (as_db s)" using assms by (simp add: coherent_def)
  let ?f = "fetchUserPermissions (ae_faults env) (as_db s) (as_db s) uid"
  show ?thesis
  proof (cases "cache_look (ae_cfg env) (ae_t0 env) (as_cache s) uid")
    case (Some g)
    then have "\<exists>e. as_cache s uid = Some e \<and> g = ce_grant e"
      by (auto simp: cache_look_def split: option.splits if_splits)
    with Some entry assms show ?thesis by (auto simp: live_check_def getUserPermissions_def)
  next
    case None
    show ?thesis
    proof (cases ?f)
      case (Inl e)
      with None entry ok show ?thesis
        by (auto simp: live_check_def getUserPermissions_def cache_settle_def coherent_def split: option.splits)
    next
      case (Inr g)
      with None entry ok fetch_current [OF Inr] show ?thesis
        by (auto simp: live_check_def getUserPermissions_def cache_settle_def coherent_def)
    qed
  qed
qed

lemma user_active_mem: "iam_ok db \<Longrightarrow> (uid, u) \<in> set (im_users db) \<Longrightarrow> us_status u = ''ACTIVE'' \<Longrightarrow> user_active db uid"
  by (auto simp: user_active_def dest: map_of_is_SomeI [OF iam_okD(1)])

lemma user_active_lt_next: "iam_ok db \<Longrightarrow> user_active db uid \<Longrightarrow> uid < im_next db"
  by (auto simp: user_active_def dest!: map_of_SomeD intro!: iam_okD(4) intro: rev_image_eqI)

lemma live_resolver_coherent:
  assumes "coherent s"
  shows "coherent (snd (live_resolver env sub s)) \<and>
    (\<forall>uid. fst (live_resolver env sub s) = Inr (uid, ''ACTIVE'') \<longrightarrow> user_active (as_db (snd (live_resolver env sub s))) uid)"
proof -
  have ok: "iam_ok (as_db s)" using assms by (simp add: coherent_def)
  note R = identity_cases [of "ae_cfg env" "ae_faults env" "ae_faults2 env" "ae_t0 env" sub "ae_ip env" "as_db s" "as_limiter s"]
  show ?thesis
  proof (rule R, goal_cases)
    case (1 r)
    then show ?thesis
      using assms user_active_mem [OF ok]
      by (cases r) (auto simp: live_resolver_def resolve_identity_def coherent_def)
  next
    case (2 r)
    then show ?thesis using assms by (auto simp: live_resolver_def resolve_identity_def coherent_def)
  next
    case (3 rid)
    let ?db = "recordAudit (ae_faults env) None ''user.jit_provision'' (show_int (im_next (as_db s)))
           [(''external_subject'', sub), (''source_ip'', ae_ip env)] (with_user sub rid (as_db s))"
    have ok': "iam_ok ?db" using with_user_ok [OF ok 3(3,4)] by simp
    have tabs: "im_roles ?db = im_roles (as_db s)" "im_perms ?db = im_perms (as_db s)"
      "im_role_perms ?db = im_role_perms (as_db s)" by (simp_all add: with_user_def)
    have old: "user_active ?db x \<and> grant_of ?db x = grant_of (as_db s) x" if "user_active (as_db s) x" for x
    proof
      have "x \<noteq> im_next (as_db s)" using user_active_lt_next [OF ok that] by simp
      then have "role_of_user ?db x = role_of_user (as_db s) x" by (simp add: role_of_with_user [OF ok 3(3)])
      from grant_of_frame [OF ok ok' this tabs] show "grant_of ?db x = grant_of (as_db s) x" .
      show "user_active ?db x"
        using that next_fresh(1) [OF ok]
        by (auto simp: user_active_def with_user_def map_add_def split: option.splits if_splits)
    qed
    have "user_active ?db (im_next (as_db s))"
      using next_fresh(1) [OF ok] by (simp add: user_active_def with_user_def new_user_def map_add_def)
    with 3 ok' old assms show ?thesis
      by (simp add: live_resolver_def resolve_identity_def coherent_def)
  qed
qed

interpretation live_permissions: permission_source "live_check env" coherent user_holds for env
proof unfold_locales
  fix s uid
  assume s: "coherent s"
  then show "coherent (snd (live_check env uid s))" by (simp add: live_check_coherent)
  fix g k
  assume "fst (live_check env uid s) = Inr g" and "k \<in> set (snd g)"
  with live_check_coherent [OF s, of env uid] show "user_holds (snd (live_check env uid s)) uid k"
    by (simp add: user_holds_def)
qed

interpretation live_identity: identity_source "live_resolver env" coherent "\<lambda>s uid. user_active (as_db s) uid" for env
  by unfold_locales (simp_all add: live_resolver_coherent)

lemma identity_users:
  "snd (identityMiddleware (Some (live_resolver env)) header s) = s \<or>
   snd (identityMiddleware (Some (live_resolver env)) header s) = snd (live_resolver env (trim_space header) s)"
  by (auto simp: identityMiddleware_def Let_def split: prod.splits sum.splits identity_error.splits)

lemma run_guard_coherent:
  assumes "coherent s"
  shows "coherent (snd (run_guard env g header s))"
proof (cases g)
  case (Permission res act)
  have "coherent (snd (identityMiddleware (Some (live_resolver env)) header s))"
    using assms by (rule live_identity.identity_inv)
  then have "coherent (snd (requirePermission (live_check env) res act c
      (snd (identityMiddleware (Some (live_resolver env)) header s))))" for c
    by (rule live_permissions.require_inv)
  with \<open>coherent (snd (identityMiddleware _ header s))\<close> show ?thesis
    using Permission by (auto simp: run_guard_def split: prod.splits sum.splits option.splits) (metis snd_conv)+
next
  case SignedIn
  then show ?thesis using live_identity.identity_inv [OF assms, of env header]
    by (auto simp: run_guard_def split: prod.splits sum.splits)
qed (use assms in \<open>simp add: run_guard_def\<close>)

lemma run_guard_holds:
  assumes "coherent s" and "run_guard env (Permission res act) header s = (Inr ctx, s')"
  shows "\<exists>uid. ctx = CtxUser uid \<and> user_holds s' uid (perm_key (res, act))"
proof -
  from assms(2) obtain uid s1 where i: "identityMiddleware (Some (live_resolver env)) header s = (Inr uid, s1)"
    and q: "requirePermission (live_check env) res act (CtxUser uid) s1 = (None, s')" and c: "ctx = CtxUser uid"
    by (auto simp: run_guard_def split: prod.splits sum.splits option.splits)
  from live_identity.identity_inv [OF assms(1), of env header] i have "coherent s1" by simp
  from live_permissions.require_sound [OF this q] c show ?thesis by blast
qed

section \<open>The system, one request at a time\<close>

text \<open>
  A request runs its guard; \<open>GET /me\<close> resolves the permissions of who is signed in; the admin route
  that changes a user runs the handler on what its guard lets through. The environment (failures,
  instants, address) is arbitrary each time.
\<close>

inductive auth_reach :: "auth_state \<Rightarrow> auth_state \<Rightarrow> bool" for s0 where
  Start: "auth_reach s0 s0"
| Guarded: "auth_reach s0 s \<Longrightarrow> auth_reach s0 (snd (run_guard env g header s))"
| Own_Permissions: "auth_reach s0 s \<Longrightarrow> run_guard env SignedIn header s = (Inr ctx, s1) \<Longrightarrow>
     auth_reach s0 (snd (me (live_check env') ctx s1))"
| Update: "auth_reach s0 s \<Longrightarrow> run_guard env (Permission ''iam'' ''manage'') header s = (Inr ctx, s1) \<Longrightarrow>
     updateUserHandler flt ctx idp body (as_db s1) (as_cache s1) = (code, db', cache') \<Longrightarrow>
     auth_reach s0 (s1\<lparr>as_db := db', as_cache := cache'\<rparr>)"

lemma handler_cases:
  assumes "updateUserHandler flt ctx idp body db cache = (code, db', cache')"
  shows "db' = db \<and> cache' = cache \<or>
    (\<exists>actor target patch v. ctx = CtxUser actor \<and> parse_int64 idp = Some target \<and> pt_role patch \<noteq> [] \<and>
       updateUser flt actor target patch db cache = (Inr v, db', cache'))"
proof (cases "\<exists>actor target patch. ctx = CtxUser actor \<and> parse_int64 idp = Some target \<and> bind_patch body = Some patch")
  case True
  then obtain actor target patch
    where eqs: "ctx = CtxUser actor" "parse_int64 idp = Some target" "bind_patch body = Some patch" by blast
  have "pt_role patch \<noteq> []" using eqs(3) by (auto simp: bind_patch_def split: option.splits if_splits)
  moreover obtain r where r: "updateUser flt actor target patch db cache = (r, db', cache')"
    using assms eqs by (auto simp: updateUserHandler_def actorID_def split: prod.splits)
  ultimately show ?thesis
    using eqs by (cases rule: update_user_cases [of flt actor target patch db cache]) auto
next
  case False
  with assms show ?thesis
    by (cases ctx; cases "parse_int64 idp"; cases "bind_patch body")
      (simp_all add: updateUserHandler_def actorID_def)
qed

lemma update_tables:
  assumes ok: "iam_ok db" and run: "updateUser flt actor target patch db cache = (Inr v, db', cache')"
  shows "iam_ok db'" and "im_roles db' = im_roles db" and "im_perms db' = im_perms db"
    and "im_role_perms db' = im_role_perms db" and "cache' = invalidateUserPermissions target cache"
    and "x \<noteq> target \<Longrightarrow> map_of (im_users db') x = map_of (im_users db) x \<and> role_of_user db' x = role_of_user db x"
proof -
  obtain row db1 where u: "update_user_check flt db actor target patch = Inr row"
      "update_user_tx flt target patch row db = Inr db1"
    and e: "db' = audit_changes flt actor target patch row db1" "cache' = invalidateUserPermissions target cache"
    using run by (cases rule: update_user_cases [of flt actor target patch db cache]) auto
  note T = update_tx_cases [OF ok check_row(1) [OF u(1)] u(2)]
  show "iam_ok db'" "im_roles db' = im_roles db" "im_perms db' = im_perms db"
    "im_role_perms db' = im_role_perms db" "cache' = invalidateUserPermissions target cache"
    using T(1-5) e by simp_all
  show "x \<noteq> target \<Longrightarrow> map_of (im_users db') x = map_of (im_users db) x \<and> role_of_user db' x = role_of_user db x"
    using T(7) e by simp
qed

lemma update_coherent:
  assumes "coherent s" and run: "updateUser flt actor target patch (as_db s) (as_cache s) = (Inr v, db', cache')"
  shows "coherent (s\<lparr>as_db := db', as_cache := cache'\<rparr>)"
proof -
  have ok: "iam_ok (as_db s)" using assms(1) by (simp add: coherent_def)
  note T = update_tables [OF ok run]
  have "user_active db' x \<and> ce_grant e = grant_of db' x" if c: "cache' x = Some e" for x e
  proof -
    from c T(5) have ne: "x \<noteq> target" and old: "as_cache s x = Some e"
      by (auto simp: invalidateUserPermissions_def split: if_splits)
    from old assms(1) have "user_active (as_db s) x" "ce_grant e = grant_of (as_db s) x" by (simp_all add: coherent_def)
    with T(6) [OF ne] grant_of_frame [OF ok T(1) _ T(2-4), of x] show ?thesis
      by (simp add: user_active_def)
  qed
  with T(1) show ?thesis by (simp add: coherent_def)
qed

text \<open>What every reachable state keeps.\<close>

definition auth_inv :: "auth_state \<Rightarrow> bool" where
  "auth_inv s \<longleftrightarrow> coherent s \<and> seeded (as_db s) \<and> 1 \<le> active_supers (as_db s)"

lemma run_guard_db:
  "as_db (snd (run_guard env g header s)) = as_db s \<or>
   as_db (snd (run_guard env g header s)) = as_db (snd (live_resolver env (trim_space header) s))"
proof -
  have q: "as_db (snd (requirePermission (live_check env) res act c t)) = as_db t" for res act c t
  proof -
    have "as_db t' = as_db t" if "live_check env u t = (r, t')" for u r t'
      using live_check_db [of env u t] that by simp
    then show ?thesis by (auto simp: requirePermission_def split: ctx_user.splits prod.splits sum.splits)
  qed
  obtain i t where t: "identityMiddleware (Some (live_resolver env)) header s = (i, t)" by fastforce
  with identity_users [of env header s] have "t = s \<or> t = snd (live_resolver env (trim_space header) s)" by auto
  moreover have "as_db (snd (run_guard env g header s)) \<in> {as_db s, as_db t}"
  proof (cases g)
    case (Permission res act)
    with t q [of res act _ t] show ?thesis
      by (auto simp: run_guard_def split: sum.splits prod.splits option.splits) (metis snd_conv)+
  qed (use t in \<open>auto simp: run_guard_def split: sum.splits\<close>)
  ultimately show ?thesis by auto
qed

lemma resolver_db:
  assumes ok: "iam_ok (as_db s)"
  shows "seeded (as_db (snd (live_resolver env sub s))) = seeded (as_db s) \<and>
    super_ids (as_db s) \<subseteq> super_ids (as_db (snd (live_resolver env sub s)))"
proof (rule identity_cases [of "ae_cfg env" "ae_faults env" "ae_faults2 env" "ae_t0 env" sub "ae_ip env" "as_db s" "as_limiter s"], goal_cases)
  case (3 rid)
  have "im_next (as_db s) \<notin> super_ids (as_db s)"
    using next_fresh(1) [OF ok] by (simp add: super_ids_def)
  then have "super_ids (as_db s) \<subseteq> super_ids (with_user sub rid (as_db s))"
    using next_fresh(1) [OF ok]
    by (auto simp: super_ids_def role_of_with_user [OF ok 3(3)])
      (auto simp: with_user_def map_add_def split: option.splits)
  with 3 show ?case
    by (simp add: live_resolver_def seeded_def) (simp add: with_user_def super_ids_def)
qed (simp_all add: live_resolver_def)

lemma active_supers_mono:
  assumes "iam_ok db" "iam_ok db'" "super_ids db \<subseteq> super_ids db'"
  shows "active_supers db \<le> active_supers db'"
  using assms by (simp add: active_supers_card card_mono super_ids_finite)

lemma run_guard_inv:
  assumes "auth_inv s"
  shows "auth_inv (snd (run_guard env g header s))"
proof -
  let ?s = "snd (run_guard env g header s)"
  have c: "coherent s" "iam_ok (as_db s)" using assms by (simp_all add: auth_inv_def coherent_def)
  have co: "coherent ?s" using c(1) by (rule run_guard_coherent)
  from run_guard_db [of env g header s] show ?thesis
  proof
    assume "as_db ?s = as_db s"
    with co assms show ?thesis by (simp add: auth_inv_def)
  next
    let ?sub = "trim_space header"
    assume db: "as_db ?s = as_db (snd (live_resolver env ?sub s))"
    have "iam_ok (as_db ?s)" using co by (simp add: coherent_def)
    with resolver_db [OF c(2), of env ?sub] db c(2) have "active_supers (as_db s) \<le> active_supers (as_db ?s)"
      by (simp add: active_supers_mono)
    with co resolver_db [OF c(2), of env ?sub] db assms show ?thesis by (simp add: auth_inv_def)
  qed
qed

lemma me_db [simp]: "as_db (snd (me (live_check env) ctx s)) = as_db s"
proof -
  have "as_db t = as_db s" if "live_check env uid s = (r, t)" for uid r t
    using live_check_db [of env uid s] that by simp
  then show ?thesis by (auto simp: me_def split: ctx_user.splits prod.splits sum.splits)
qed

lemma me_auth_inv: "auth_inv s \<Longrightarrow> auth_inv (snd (me (live_check env) ctx s))"
  by (simp add: auth_inv_def live_permissions.me_inv)

lemma auth_reach_inv:
  assumes "auth_reach s0 s" and "auth_inv s0"
  shows "auth_inv s"
  using assms
proof (induction rule: auth_reach.induct)
  case (Guarded s env g header)
  then show ?case by (simp add: run_guard_inv)
next
  case (Own_Permissions s env header ctx s1 env')
  have "auth_inv s1" using run_guard_inv [OF Own_Permissions.IH [OF Own_Permissions.prems], of env SignedIn header] Own_Permissions.hyps(2)
    by simp
  then show ?case by (rule me_auth_inv)
next
  case (Update s env header ctx s1 flt idp body code db' cache')
  have inv1: "auth_inv s1" using run_guard_inv [OF Update.IH [OF Update.prems], of env _ header] Update.hyps(2)
    by (metis snd_conv)
  then have ok: "iam_ok (as_db s1)" by (simp add: auth_inv_def coherent_def)
  from handler_cases [OF Update.hyps(3)] show ?case
  proof (elim disjE exE conjE)
    assume "db' = as_db s1" "cache' = as_cache s1"
    with inv1 show ?thesis by simp
  next
    fix actor target patch v
    assume run: "updateUser flt actor target patch (as_db s1) (as_cache s1) = (Inr v, db', cache')"
    from update_keeps_super [OF ok _ run] update_coherent [OF _ run] update_tables(2-4) [OF ok run] inv1
    show ?thesis by (simp add: auth_inv_def seeded_def)
  qed
qed simp

text \<open>C6. In every sequence of requests, whatever fails and whenever, starting with an empty or
  agreeing cache over the seeded roles and at least one active super admin: a guard lets a request
  through to its handler only if the caller is an active user whose role, as the tables have it at
  that moment, holds the permission (\<open>iam:manage\<close> only \<open>SUPER_ADMIN\<close>; publishing and deleting rules
  \<open>SUPER_ADMIN\<close> and \<open>RULE_MANAGER\<close>; creating and updating also \<open>RULE_EDITOR\<close>).\<close>

theorem guards_enforce_current_roles:
  assumes "auth_inv s0" and "auth_reach s0 s"
    and "run_guard env (Permission res act) header s = (Inr ctx, s')"
  shows "\<exists>uid. ctx = CtxUser uid \<and> user_active (as_db s') uid \<and>
    (\<exists>r \<in> holders (perm_key (res, act)). role_of_user (as_db s') uid = Some r)"
proof -
  have inv: "auth_inv s" using auth_reach_inv [OF assms(2,1)] .
  then have "coherent s" by (simp add: auth_inv_def)
  from run_guard_holds [OF this assms(3)] obtain uid
    where u: "ctx = CtxUser uid" "user_holds s' uid (perm_key (res, act))" by blast
  have "auth_inv s'" using run_guard_inv [OF inv, of env "Permission res act" header] assms(3) by simp
  then have "iam_ok (as_db s')" "seeded (as_db s')" by (simp_all add: auth_inv_def coherent_def)
  with u show ?thesis by (simp add: user_holds_def seeded_holders)
qed

abbreviation demo_auth :: auth_state where
  "demo_auth \<equiv> \<lparr>as_db = two_roots, as_limiter = new_limiter, as_cache = Map.empty\<rparr>"

abbreviation demo_auth_env :: auth_env where
  "demo_auth_env \<equiv> \<lparr>ae_cfg = demo_cfg, ae_faults = iam_up, ae_faults2 = iam_up, ae_ip = ''10.0.0.1'', ae_t0 = 0, ae_t1 = 0\<rparr>"

lemma demo_auth_inv: "auth_inv demo_auth"
  using two_roots_ok two_roots_supers
  by (simp add: auth_inv_def coherent_def active_supers_card) (simp add: seeded_def seed_iam_def)

lemma demo_root_guard:
  assumes "''SUPER_ADMIN'' \<in> holders (perm_key (res, act))"
  shows "fst (run_guard demo_auth_env (Permission res act) ''root'' demo_auth) = Inr (CtxUser 1)"
proof -
  have "role_of_user two_roots 1 = Some ''SUPER_ADMIN''"
    by (simp add: role_of_user_def seed_iam_def seed_roles_def)
  with assms have k: "perm_key (res, act) \<in> set (snd (grant_of two_roots 1))"
    using seeded_holders [OF two_roots_ok, of "perm_key (res, act)" 1] by (auto simp: seeded_def seed_iam_def)
  have t: "trim_space ''root'' = ''root''" by (rule trim_space_graphic) (simp_all add: is_graphic_def byte_of_def)
  have "getUserByExternalSubject iam_up two_roots ''root'' = Inr (1, ''ACTIVE'')"
    by (simp add: getUserByExternalSubject_def seed_iam_def demo_user_def)
  then have i: "identityMiddleware (Some (live_resolver demo_auth_env)) ''root'' demo_auth = (Inr 1, demo_auth)"
    by (simp add: identityMiddleware_def live_resolver_def getOrProvisionUser_def resolve_identity_def t)
  have "fetchUserPermissions iam_up two_roots two_roots 1 = Inr (grant_of two_roots 1)"
    by (simp add: fetchUserPermissions_def seed_iam_def demo_user_def)
  with i k show ?thesis
    by (simp add: run_guard_def requirePermission_def live_check_def getUserPermissions_def cache_look_def
        cache_settle_def split: prod.splits)
qed

lemma demo_root_passes:
  "fst (run_guard demo_auth_env (Permission ''iam'' ''manage'') ''root'' demo_auth) = Inr (CtxUser 1)"
  by (rule demo_root_guard) (simp add: holders_def perm_key_def)

theorem guards_enforce_current_roles_witness:
  "\<exists>uid. CtxUser 1 = CtxUser uid \<and>
    user_active (as_db (snd (run_guard demo_auth_env (Permission ''iam'' ''manage'') ''root'' demo_auth))) uid \<and>
    (\<exists>r \<in> holders (perm_key (''iam'', ''manage'')).
      role_of_user (as_db (snd (run_guard demo_auth_env (Permission ''iam'' ''manage'') ''root'' demo_auth))) uid = Some r)"
proof -
  have "run_guard demo_auth_env (Permission ''iam'' ''manage'') ''root'' demo_auth =
      (Inr (CtxUser 1), snd (run_guard demo_auth_env (Permission ''iam'' ''manage'') ''root'' demo_auth))"
    using demo_root_passes by (metis prod.collapse)
  from guards_enforce_current_roles [OF demo_auth_inv auth_reach.Start this] show ?thesis .
qed

text \<open>C8. In every such sequence at least one active super admin remains, and the identity tables
  stay consistent.\<close>

theorem super_admin_always_remains:
  assumes "auth_inv s0" and "auth_reach s0 s"
  shows "1 \<le> active_supers (as_db s) \<and> iam_ok (as_db s)"
  using auth_reach_inv [OF assms(2,1)] by (simp add: auth_inv_def coherent_def)

theorem super_admin_always_remains_witness:
  "1 \<le> active_supers (as_db (snd (run_guard demo_auth_env SignedIn ''eve'' demo_auth)))"
  using super_admin_always_remains [OF demo_auth_inv auth_reach.Guarded [OF auth_reach.Start]] by blast

section \<open>The Role Reference\<close>

lemma gather_same:
  assumes "name \<notin> ar_name ` set acc"
  shows "gather_roles descr (map (\<lambda>po. (name, po)) pos @ rest) (acc @ [\<lparr>ar_name = name, ar_description = d, ar_permissions = ks\<rparr>]) =
    gather_roles descr rest (acc @ [\<lparr>ar_name = name, ar_description = d, ar_permissions = ks @ List.map_filter (\<lambda>x. x) pos\<rparr>])"
proof (induction pos arbitrary: ks)
  case (Cons po pos)
  have "map (\<lambda>r. if ar_name r = name then r\<lparr>ar_permissions := ar_permissions r @ [k]\<rparr> else r) acc = acc" for k
    using assms by (intro map_idI) auto
  then show ?case
    using Cons.IH by (cases po) (simp_all add: Let_def map_filter_simps list_ex_iff)
qed (simp add: map_filter_simps)

lemma gather_block:
  assumes "name \<notin> ar_name ` set acc" and "pos \<noteq> []"
  shows "gather_roles descr (map (\<lambda>po. (name, po)) pos @ rest) acc =
    gather_roles descr rest
      (acc @ [\<lparr>ar_name = name, ar_description = descr name, ar_permissions = List.map_filter (\<lambda>x. x) pos\<rparr>])"
proof -
  obtain po ps where pos: "pos = po # ps" using assms(2) by (cases pos) auto
  have "gather_roles descr (map (\<lambda>po. (name, po)) pos @ rest) acc =
    gather_roles descr (map (\<lambda>po. (name, po)) pos @ rest)
      (acc @ [\<lparr>ar_name = name, ar_description = descr name, ar_permissions = []\<rparr>])"
    using assms(1) by (simp add: pos list_ex_iff image_iff Let_def cong: option.case_cong) metis
  then show ?thesis using gather_same [OF assms(1), of descr pos rest "descr name" "[]"] by simp
qed

definition role_keys :: "iam_db \<Rightarrow> int \<Rightarrow> string list" where
  "role_keys db r = concat (map (\<lambda>(r', p). if r' \<noteq> r then []
     else concat (map (\<lambda>(p', ra). if p' \<noteq> p then [] else [perm_key ra]) (im_perms db))) (im_role_perms db))"

lemma map_filter_Some: "List.map_filter (\<lambda>x. x) (map Some ks) = ks"
  by (induction ks) (simp_all add: map_filter_simps)

lemma role_rows_keys:
  "role_rows db = concat (map (\<lambda>(r, name).
     map (\<lambda>po. (name, po)) (if role_keys db r = [] then [None] else map Some (role_keys db r))) (sort_key fst (im_roles db)))"
proof -
  have "concat (map (\<lambda>(r', p). if r' \<noteq> r then []
        else concat (map (\<lambda>(p', ra). if p' \<noteq> p then [] else [Some (perm_key ra)]) ps)) rps) =
      map Some (concat (map (\<lambda>(r', p). if r' \<noteq> r then []
        else concat (map (\<lambda>(p', ra). if p' \<noteq> p then [] else [perm_key ra]) ps)) rps))" for r :: int and ps rps
  proof -
    have "concat (map (\<lambda>(p', ra). if p' \<noteq> p then [] else [Some (perm_key ra)]) ps) =
        map Some (concat (map (\<lambda>(p', ra). if p' \<noteq> p then [] else [perm_key ra]) ps))" for p
      by (induction ps) auto
    then show ?thesis by (induction rps) auto
  qed
  note eq = this
  show ?thesis by (simp only: role_rows_def role_keys_def Let_def eq map_is_Nil_conv)
qed

lemma gather_all:
  assumes "distinct (map snd rs)" and "\<forall>a \<in> set acc. ar_name a \<notin> snd ` set rs"
  shows "gather_roles descr (concat (map (\<lambda>(r, name).
      map (\<lambda>po. (name, po)) (if role_keys db r = [] then [None] else map Some (role_keys db r))) rs)) acc =
    acc @ map (\<lambda>(r, name). \<lparr>ar_name = name, ar_description = descr name, ar_permissions = role_keys db r\<rparr>) rs"
  using assms
proof (induction rs arbitrary: acc)
  case (Cons x rs)
  obtain r name where x: "x = (r, name)" by (cases x)
  have f: "List.map_filter (\<lambda>x. x) (if role_keys db r = [] then [None] else map Some (role_keys db r)) = role_keys db r"
    by (simp add: map_filter_Some map_filter_simps)
  have "name \<notin> ar_name ` set acc" using Cons.prems(2) x by auto
  note G = gather_block [OF this, of "if role_keys db r = [] then [None] else map Some (role_keys db r)", unfolded f]
  show ?case
    using Cons.IH [of "acc @ [\<lparr>ar_name = name, ar_description = descr name, ar_permissions = role_keys db r\<rparr>]"]
      Cons.prems x G by (auto simp: image_iff)
qed simp

text \<open>C34. The Role Reference cannot drift from enforcement: the permissions \<open>ListRoles\<close> shows for a
  user's role are exactly those permission resolution grants to that user.\<close>

theorem role_reference_agrees:
  assumes ok: "iam_ok db" and role: "role_of_user db uid = Some name"
  shows "\<exists>rs e. listRoles iam_up descr db = Inr rs \<and> e \<in> set rs \<and> ar_name e = name \<and>
    set (ar_permissions e) = set (snd (grant_of db uid))"
proof -
  let ?rs = "sort_key fst (im_roles db)"
  have d: "distinct (map snd ?rs)"
    using iam_okD(5,6) [OF ok] by (simp add: distinct_map)
  have l: "listRoles iam_up descr db = Inr (map (\<lambda>(r, name).
      \<lparr>ar_name = name, ar_description = descr name, ar_permissions = role_keys db r\<rparr>) ?rs)"
    using gather_all [OF d, of "[]" descr db] by (simp add: listRoles_def role_rows_keys)
  from role obtain r where r: "map_of (im_user_roles db) uid = Some r" "map_of (im_roles db) r = Some name"
    by (auto simp: role_of_user_def bind_eq_Some_conv)
  have "set (map (perm_key \<circ> snd) (rows_of_role db r name)) = set (role_keys db r)"
    by (auto simp: rows_of_role_def role_keys_def split: if_splits) force+
  then have "set (snd (grant_of db uid)) = set (role_keys db r)"
    using permission_rows_role [OF ok, of uid] r by (simp add: grant_of_def Let_def)
  moreover have "(r, name) \<in> set ?rs" using map_of_SomeD [OF r(2)] by simp
  ultimately show ?thesis using l by force
qed

theorem role_reference_agrees_witness:
  "\<exists>rs e. listRoles iam_up (\<lambda>n. n) two_roots = Inr rs \<and> e \<in> set rs \<and> ar_name e = ''SUPER_ADMIN'' \<and>
    set (ar_permissions e) = set (snd (grant_of two_roots 1))"
  by (rule role_reference_agrees [OF two_roots_ok]) (simp add: role_of_user_def seed_iam_def seed_roles_def)

end
