(* ===== verification/HttpMetrics.thy ===== *)
theory HttpMetrics
  imports Auth
begin

text \<open>
  \<open>internal/middleware/metrics.go\<close>: the request counter of every route, over the requests the
  process serves. The duration histogram has the same labels without the status and is left out.
\<close>

text \<open>A request, with the template of its route (\<open>c.FullPath()\<close>, empty if none matches); how it
  ends: with the status written, or by a panic of its handler, which \<open>gin.Recovery\<close>, further out,
  turns into an answer.\<close>

record http_request =
  rq_method :: string
  rq_path :: string
  rq_route :: string

datatype http_outcome = Answered nat | Panicked

type_synonym label = "string \<times> string \<times> string"

definition request_label :: "http_request \<Rightarrow> nat \<Rightarrow> label" where
  "request_label rq status =
     (let route = rq_route rq
      in (rq_method rq, if route = [] then ''unmatched'' else route, show_int (int status)))"

definition prometheusMetrics :: "http_request \<Rightarrow> http_outcome \<Rightarrow> (label \<Rightarrow> nat) \<Rightarrow> label \<Rightarrow> nat" where
  "prometheusMetrics rq out m =
     (if rq_path rq = ''/metrics'' then m
      else case out of
        Panicked \<Rightarrow> m
      | Answered status \<Rightarrow> (let l = request_label rq status in m(l := m l + 1)))"

definition http_counters :: "(http_request \<times> http_outcome) list \<Rightarrow> label \<Rightarrow> nat" where
  "http_counters rqs = fold (\<lambda>(rq, out). prometheusMetrics rq out) rqs (\<lambda>_. 0)"

section \<open>What is counted\<close>

definition counts_for :: "label \<Rightarrow> http_request \<times> http_outcome \<Rightarrow> bool" where
  "counts_for l r \<longleftrightarrow> rq_path (fst r) \<noteq> ''/metrics'' \<and> (\<exists>status. snd r = Answered status \<and> l = request_label (fst r) status)"

lemma prometheusMetrics_count: "prometheusMetrics rq out m l = m l + (if counts_for l (rq, out) then 1 else 0)"
  by (auto simp: prometheusMetrics_def counts_for_def Let_def split: http_outcome.split)

lemma http_counters_count: "http_counters rqs l = length (filter (counts_for l) rqs)"
proof -
  have "fold (\<lambda>(rq, out). prometheusMetrics rq out) rqs m l = m l + length (filter (counts_for l) rqs)" for m
    by (induction rqs arbitrary: m) (auto simp: prometheusMetrics_count)
  then show ?thesis by (simp add: http_counters_def)
qed

text \<open>The router sets the template of the route registered for the method.\<close>

definition routed :: "http_request \<Rightarrow> bool" where
  "routed rq \<longleftrightarrow> rq_route rq = [] \<or> (rq_method rq, rq_route rq) \<in> fst ` set routes"

text \<open>Each answered request other than a scrape is counted once, under its own label; a request
  whose handler panics is not counted. The path of a request never becomes a label: a label names a
  registered route with its method, or the placeholder.\<close>

theorem http_requests_counted:
  assumes "list_all (\<lambda>r. routed (fst r)) rqs"
  shows "http_counters rqs l = length (filter (counts_for l) rqs) \<and>
    (0 < http_counters rqs (method, route, status) \<longrightarrow>
       route = ''unmatched'' \<or> (method, route) \<in> fst ` set routes)"
proof -
  have "route = ''unmatched'' \<or> (method, route) \<in> fst ` set routes"
    if c: "0 < http_counters rqs (method, route, status)"
  proof -
    from c obtain r where r: "r \<in> set rqs" "counts_for (method, route, status) r"
      by (auto simp: http_counters_count filter_empty_conv)
    then have "routed (fst r)" using assms by (auto simp: list_all_iff)
    with r(2) show ?thesis
      by (auto simp: counts_for_def request_label_def routed_def Let_def split: if_splits)
  qed
  then show ?thesis by (simp add: http_counters_count)
qed

definition demo_get :: http_request where
  "demo_get = \<lparr>rq_method = ''GET'', rq_path = ''/rules/R7'', rq_route = ''/rules/:rule_id''\<rparr>"

theorem http_requests_counted_witness:
  "http_counters [(demo_get, Answered 200), (demo_get, Panicked), (demo_get, Answered 200)]
     (request_label demo_get 200) = 2"
proof -
  have "list_all (\<lambda>r. routed (fst r)) [(demo_get, Answered 200), (demo_get, Panicked), (demo_get, Answered 200)]"
    by (simp add: routed_def demo_get_def routes_def)
  from http_requests_counted [OF this, of "request_label demo_get 200"]
  show ?thesis by (auto simp: counts_for_def demo_get_def)
qed

section \<open>Methods\<close>

text \<open>The method is what the client sent, and a request no route matches is counted with it.\<close>

definition stray :: "nat \<Rightarrow> http_request" where
  "stray i = \<lparr>rq_method = show_nat i, rq_path = ''/'', rq_route = []\<rparr>"

lemma stray_methods_make_labels:
  "card {l. 0 < http_counters (map (\<lambda>i. (stray i, Answered 404)) [0..<n]) l} = n"
proof -
  let ?f = "\<lambda>i. request_label (stray i) 404"
  have "{l. 0 < http_counters (map (\<lambda>i. (stray i, Answered 404)) [0..<n]) l} = ?f ` {..<n}"
    by (auto simp: http_counters_count filter_empty_conv counts_for_def stray_def)
  moreover have "inj_on ?f {..<n}"
    by (intro inj_onI) (metis fst_conv http_request.select_convs(1) option.inject parse_show_nat request_label_def stray_def)
  ultimately show ?thesis by (simp add: card_image)
qed

end
