(* ===== verification/IcebergSchema.thy ===== *)
theory IcebergSchema
  imports GoText
begin

text \<open>
  The tables of constants the historical queries use: \<open>IcebergSchemaMapping\<close> and the column
  allow-list of \<open>internal/services/duckdb.go\<close>, the financial AUA codes of
  \<open>internal/services/financial_aua.go\<close>, and facts about them.
\<close>

section \<open>Field names and columns\<close>

text \<open>The mapping is one literal; its second half, from the kind of data on, is a list of its own here.\<close>

definition device_fields :: "(string \<times> string) list" where
  "device_fields = [
     (''_data.dataType'', ''datatype''),
     (''_data.skeyScheme'', ''skeyscheme''), (''_data.sskType'', ''ssktype''), (''_data.ki'', ''ki''),
     (''_data.kycFlag'', ''kycflag''), (''_data.actionCodes'', ''actioncodes''),
     (''_data.registeredDeviceSoftwareId'', ''registereddevicesoftwareid''),
     (''_data.registeredDeviceSoftwareVersion'', ''registereddevicesoftwareversion''),
     (''_data.deviceProviderId'', ''deviceproviderid''), (''_data.deviceCode'', ''devicecode''),
     (''_data.modelId'', ''modelid''), (''_data.certExpiryDate'', ''certexpirydate''),
     (''_data.subErrorCode'', ''suberrorcode''), (''_data.authenticationMode'', ''authenticationmode''),
     (''_data.faceUses'', ''faceuses''), (''_data.faceUsed'', ''faceused''),
     (''_data.faceMatchScore'', ''facematchscore''), (''_data.faceMatchThreshold'', ''facematchthreshold''),
     (''_data.faceMatchType'', ''facematchtype''), (''_data.faceFusionDone'', ''facefusiondone''),
     (''_data.faceMultimodalityFusionScore'', ''facemultimodalityfusionscore''),
     (''_data.faceMultimodalityFusionThreshold'', ''facemultimodalityfusionthreshold''),
     (''_data.faceSdkVendor'', ''facesdkvendor''), (''_data.faceSdkVersion'', ''facesdkversion''),
     (''_data.deviceMetaData'', ''devicemetadata''),
     (''_data.deepPrintGalleryType'', ''deepprintgallerytype''),
     (''_data.deepPrintGalleryVendor'', ''deepprintgalleryvendor''),
     (''_data.deepPrintSdkVendor'', ''deepprintsdkvendor''),
     (''_data.deepPrintSdkVersion'', ''deepprintsdkversion''),
     (''_data.deepPrintMatchScoreFinger1'', ''deepprintmatchscorefinger1''),
     (''_data.deepPrintMatchScoreFinger2'', ''deepprintmatchscorefinger2''),
     (''_data.deepPrintMatchIsPerfomed'', ''deepprintmatchisperfomed''),
     (''_data.deepPrintMatchResult'', ''deepprintmatchresult''), (''_data.serverId'', ''serverid'')]"

definition icebergSchemaMapping :: "(string \<times> string) list" where
  "icebergSchemaMapping = [
     (''_event_timestamp'', ''event_timestamp''), (''_event_id'', ''event_id''),
     (''_category'', ''category''), (''_event_type'', ''event_type''), (''_version'', ''version''),
     (''_data.authCode'', ''authcode''), (''_data.subRequestId'', ''subrequestid''),
     (''_data.aua'', ''aua''), (''_data.sa'', ''sa''), (''_data.asa'', ''asa''), (''_data.ver'', ''ver''),
     (''_data.tid'', ''tid''), (''_data.licenseId'', ''licenseid''),
     (''_data.reqDateTime'', ''reqdatetime''), (''_data.tknUsedFlag'', ''tknusedflag''),
     (''_data.tknType'', ''tkntype''), (''_data.pidTs'', ''pidts''), (''_data.pidVersion'', ''pidversion''),
     (''_data.piUsesFlag'', ''piusesflag''), (''_data.paUsesFlag'', ''pausesflag''),
     (''_data.pfaUsesFlag'', ''pfausesflag''), (''_data.bioUsesFlag'', ''biousesflag''),
     (''_data.btFMRUsesFlag'', ''btfmrusesflag''), (''_data.btFIRUsesFlag'', ''btfirusesflag''),
     (''_data.btIIRUsesFlag'', ''btiirusesflag''), (''_data.pinUsesFlag'', ''pinusesflag''),
     (''_data.otpUsesFlag'', ''otpusesflag''), (''_data.piUsedFlag'', ''piusedflag''),
     (''_data.paUsedFlag'', ''pausedflag''), (''_data.pfaUsedFlag'', ''pfausedflag''),
     (''_data.bioUsedFlag'', ''biousedflag''), (''_data.btFMRUsedFlag'', ''btfmrusedflag''),
     (''_data.btFIRUsedFlag'', ''btfirusedflag''), (''_data.btIIRUsedFlag'', ''btiirusedflag''),
     (''_data.pinUsedFlag'', ''pinusedflag''), (''_data.otpUsedFlag'', ''otpusedflag''),
     (''_data.otpIdentifier'', ''otpidentifier''), (''_data.lang'', ''lang''),
     (''_data.piNameUsedFlag'', ''pinameusedflag''), (''_data.piMs'', ''pims''), (''_data.piMv'', ''pimv''),
     (''_data.piMatchScore'', ''pimatchscore''), (''_data.piLNameUsedFlag'', ''pilnameusedflag''),
     (''_data.piLNameMs'', ''pilnamems''), (''_data.piLNameMv'', ''pilnamemv''),
     (''_data.piLNameMatchScore'', ''pilnamematchscore''), (''_data.piPhoneUsedFlag'', ''piphoneusedflag''),
     (''_data.piEmailUsedFlag'', ''piemailusedflag''), (''_data.piGenderUsedFlag'', ''pigenderusedflag''),
     (''_data.piGender'', ''pigender''), (''_data.piDOBUsedFlag'', ''pidobusedflag''),
     (''_data.piDOB'', ''pidob''), (''_data.pi_DOBTUsedFlag'', ''pi_dobtusedflag''),
     (''_data.piDOBT'', ''pidobt''), (''_data.piAgeUsed_flag'', ''piageused_flag''),
     (''_data.piAge'', ''piage''), (''_data.pfaAddressUsedFlag'', ''pfaaddressusedflag''),
     (''_data.pfaAddressMs'', ''pfaaddressms''), (''_data.pfaAddressMv'', ''pfaaddressmv''),
     (''_data.pfaMatchScore'', ''pfamatchscore''), (''_data.pfaLaddrUsedFlag'', ''pfaladdrusedflag''),
     (''_data.pfaLocalAddressMs'', ''pfalocaladdressms''),
     (''_data.pfaLocalAddressMv'', ''pfalocaladdressmv''),
     (''_data.pfaLocalAddressMatcScore'', ''pfalocaladdressmatcscore''), (''_data.paMs'', ''pams''),
     (''_data.paCareOfUsedFlag'', ''pacareofusedflag''), (''_data.paHouseUsedFlag'', ''pahouseusedflag''),
     (''_data.paStreetUsedFlag'', ''pastreetusedflag''), (''_data.paLmUsedFlag'', ''palmusedflag''),
     (''_data.paLOCUsedFlag'', ''palocusedflag''), (''_data.paVTCUsedFlag'', ''pavtcusedflag''),
     (''_data.paVTC'', ''pavtc''), (''_data.paPOUsedFlag'', ''papousedflag''), (''_data.paPO'', ''papo''),
     (''_data.paSubDistrictUsedFlag'', ''pasubdistrictusedflag''),
     (''_data.paSubDistrict'', ''pasubdistrict''), (''_data.paDistrictUsedFlag'', ''padistrictusedflag''),
     (''_data.paDistrict'', ''padistrict''), (''_data.paStateUsedFlag'', ''pastateusedflag''),
     (''_data.paState'', ''pastate''), (''_data.paPCUsedFlag'', ''papcusedflag''),
     (''_data.paPC'', ''papc''), (''_data.fmrCount'', ''fmrcount''), (''_data.firCount'', ''fircount''),
     (''_data.iirCount'', ''iircount''), (''_data.fingerMatchScore'', ''fingermatchscore''),
     (''_data.uidaiTFMR'', ''uidaitfmr''), (''_data.auaTFMR'', ''auatfmr''),
     (''_data.fingerMatchThreshold'', ''fingermatchthreshold''),
     (''_data.fmrGalleryType'', ''fmrgallerytype''), (''_data.fmrGalleryVendor'', ''fmrgalleryvendor''),
     (''_data.fmrSDKVendor'', ''fmrsdkvendor''), (''_data.fmrSDKVersion'', ''fmrsdkversion''),
     (''_data.firGalleryType'', ''firgallerytype''), (''_data.firGalleryVendor'', ''firgalleryvendor''),
     (''_data.firSDKVendor'', ''firsdkvendor''), (''_data.firSDKVersion'', ''firsdkversion''),
     (''_data.iirGalleryType'', ''iirgallerytype''), (''_data.iirGalleryVendor'', ''iirgalleryvendor''),
     (''_data.iirSDKVendor'', ''iirsdkvendor''), (''_data.iirSDKVersion'', ''iirsdkversion''),
     (''_data.authResult'', ''authresult''), (''_data.errorCode'', ''errorcode''),
     (''_data.errorClassification'', ''errorclassification''),
     (''_data.responseDateTime'', ''responsedatetime''), (''_data.authDuration'', ''authduration''),
     (''_data.fdc'', ''fdc''), (''_data.idc'', ''idc''), (''_data.udc'', ''udc''),
     (''_data.locationLat'', ''locationlat''), (''_data.locationLong'', ''locationlong''),
     (''_data.locationVTCCode'', ''locationvtccode''),
     (''_data.locationSubDistrictCode'', ''locationsubdistrictcode''),
     (''_data.locationDistrictCode'', ''locationdistrictcode''),
     (''_data.locationStateCode'', ''locationstatecode''), (''_data.locationPC'', ''locationpc''),
     (''_data.enrolmentReferenceId'', ''enrolmentreferenceid''),
     (''_data.residentGender'', ''residentgender''), (''_data.residentBirth_Day'', ''residentbirth_day''),
     (''_data.residentBirthMonth'', ''residentbirthmonth''),
     (''_data.residentBirthYear'', ''residentbirthyear''), (''_data.residentDOB'', ''residentdob''),
     (''_data.residentDOBT'', ''residentdobt''), (''_data.residentAge'', ''residentage''),
     (''_data.residentPincode'', ''residentpincode''), (''_data.residentVTCCode'', ''residentvtccode''),
     (''_data.residentVTCName'', ''residentvtcname''), (''_data.residentPOName'', ''residentponame''),
     (''_data.residentSubDistrictCode'', ''residentsubdistrictcode''),
     (''_data.residentSubDistrictName'', ''residentsubdistrictname''),
     (''_data.residentDistrictCode'', ''residentdistrictcode''),
     (''_data.residentDistrictName'', ''residentdistrictname''),
     (''_data.residentStateCode'', ''residentstatecode''),
     (''_data.residentStateName'', ''residentstatename''),
     (''_data.uidGenerationDate'', ''uidgenerationdate''), (''_data.txn'', ''txn''),
     (''_data.authType'', ''authtype''), (''_data.hashUID'', ''hashuid''),
     (''_data.locationAlt'', ''locationalt''), (''_data.lot'', ''lot''),
     (''_data.bfdDoneFlag'', ''bfddoneflag''), (''_data.fingerMatchingType'', ''fingermatchingtype''),
     (''_data.fingerFusionPerfomed'', ''fingerfusionperfomed''),
     (''_data.irisMatchScore'', ''irismatchscore''), (''_data.irisThreshold'', ''iristhreshold''),
     (''_data.irisMatchingType'', ''irismatchingtype''),
     (''_data.irisFusionPerfomed'', ''irisfusionperfomed''), (''_data.authXMLSize'', ''authxmlsize''),
     (''_data.pidSize'', ''pidsize'')]
     @ device_fields"

text \<open>The allow-list the source builds at start (and never consults).\<close>

definition allowedColumns :: "string list" where
  "allowedColumns = map snd icebergSchemaMapping
     @ [''event_timestamp'', ''event_id'', ''category'', ''event_type'', ''version'', ''__GLOBAL__'', ''window_start'']"

definition translateField :: "string \<Rightarrow> string" where
  "translateField f =
     (case map_of icebergSchemaMapping f of
        Some c \<Rightarrow> if c \<noteq> [] then c else replace_first ''_data.'' [] f
      | None \<Rightarrow> replace_first ''_data.'' [] f)"

section \<open>Financial AUA codes\<close>

definition financialAuaCodes :: "string list" where
  "financialAuaCodes = [
     ''0003520000'', ''0000980000'', ''0003410000'', ''0001500000'', ''0003370000'', ''0008500000'',
     ''0003200000'', ''0009600000'', ''0006500000'', ''0001060000'', ''0000050000'', ''0023000200'',
     ''0002670000'', ''0000180000'', ''0005700000'', ''0000320000'', ''0007700000'', ''0000810000'',
     ''0002740000'', ''0007500000'', ''0001260000'', ''0002800000'', ''0005800000'', ''0002570000'',
     ''0000700000'', ''0002880000'', ''0006400000'', ''0001590000'', ''0000420000'', ''0002400000'',
     ''0003360000'', ''0001450000'', ''0000230000'', ''0009800000'', ''0001800000'', ''0002100000'',
     ''0000600000'', ''0004000000'', ''0000470000'', ''0009400000'', ''0007800000'', ''0000550000'',
     ''0002000000'', ''0007200000'', ''0002890000'', ''0000760000'', ''0006200000'', ''0006900000'',
     ''0000110000'', ''0007100000'', ''0002600000'', ''0003340000'', ''0011000000'', ''0006100000'',
     ''0005200000'', ''0001700000'', ''0000580000'', ''0000770000'', ''0004300000'', ''0005400000'',
     ''0003100000'', ''0000410000'', ''0000070000'', ''0000590000'', ''0008700000'', ''0000250000'',
     ''0043000100'', ''0001900000'', ''0000080000'', ''0001400000'', ''0001940000'', ''0000310000'',
     ''0003010000'', ''0002530000'', ''0001080000'', ''0000920000'', ''0003170000'', ''0002900000'',
     ''0000190000'', ''0008800000'', ''0003600000'', ''0000120000'', ''0001100000'', ''0000170000'',
     ''0001200000'', ''0002300000'', ''0001600000'', ''0000040000'', ''0023000100'', ''0000220000'',
     ''0005500000'', ''0003070000'', ''0000060000'', ''0005600000'', ''0004900000'', ''0000280000'',
     ''0000200000'', ''0000680000'', ''0000620000'', ''0003250000'', ''0002500000'', ''0000630000'',
     ''0001110000'', ''0002260000'', ''0003320000'', ''0003210000'', ''0003180000'', ''0003190000'',
     ''0003090000'', ''0003120000'', ''0003220000'', ''0001160000'', ''0003420000'', ''0003450000'',
     ''0003470000'', ''0003550000'', ''0003560000'', ''0003570000'', ''0003580000'', ''0003610000'',
     ''0003670000'', ''0003690000'', ''0001780000'', ''0003810000'', ''0004010000'', ''0004040000'',
     ''0004160000'', ''0004180000'', ''0004250000'', ''0004270000'', ''0004310000'']"

section \<open>Facts\<close>

text \<open>A lower-case SQL identifier.\<close>

definition plain_ident :: "string \<Rightarrow> bool" where
  "plain_ident s \<longleftrightarrow> s \<noteq> [] \<and> list_all (\<lambda>c. is_lower c \<or> is_digit c \<or> c = CHR ''_'') s \<and> \<not> is_digit (hd s)"

lemma length_financialAuaCodes: "length financialAuaCodes = 131"
  by (simp add: financialAuaCodes_def)

end
