(* ===== verification/TimeFormat.thy ===== *)
theory TimeFormat
  imports GoTime
begin

text \<open>
  \<open>time.Time.Format\<close> for the layouts \<open>2006-01-02 15:04:05\<close> (with an optional \<open>.000\<close>), from the
  number of the day to the calendar date, and the round trip with the parser of \<open>GoTime\<close>.
\<close>

section \<open>Formatting\<close>

text \<open>\<open>t.UTC().Format(...)\<close> of an instant, to the second.\<close>

definition month_of :: "int \<Rightarrow> int \<Rightarrow> nat" where
  "month_of y yday = length (filter (\<lambda>m. days_before_month y m \<le> yday) [1..<13])"

definition civil_of_day :: "int \<Rightarrow> int \<times> nat \<times> nat" where
  "civil_of_day day =
     (let d = day + 719162;
          n400 = d div 146097; r400 = d mod 146097;
          n100 = min 3 (r400 div 36524); r100 = r400 - 36524 * n100;
          n4 = r100 div 1461; r4 = r100 mod 1461;
          n1 = min 3 (r4 div 365); yday = r4 - 365 * n1;
          y = 400 * n400 + 100 * n100 + 4 * n4 + n1 + 1;
          m = month_of y yday
      in (y, m, nat (yday - days_before_month y m) + 1))"

definition pad2 :: "nat \<Rightarrow> string" where
  "pad2 n = (if n < 10 then ''0'' else []) @ show_nat n"

definition pad4 :: "int \<Rightarrow> string" where
  "pad4 y = (let n = nat \<bar>y\<bar>; ds = show_nat n
     in (if y < 0 then ''-'' else []) @ replicate (4 - length ds) CHR ''0'' @ ds)"

definition format_datetime :: "instant \<Rightarrow> string" where
  "format_datetime t =
     (let secs = t div 1000000000; sod = nat (secs mod 86400);
          (y, m, d) = civil_of_day (secs div 86400)
      in pad4 y @ ''-'' @ pad2 m @ ''-'' @ pad2 d @ '' '' @ pad2 (sod div 3600) @ '':''
           @ pad2 (sod div 60 mod 60) @ '':'' @ pad2 (sod mod 60))"

definition format_millis :: "instant \<Rightarrow> string" where
  "format_millis t =
     (let ms = nat (t mod 1000000000 div 1000000)
      in format_datetime t @ ''.'' @ (if ms < 100 then ''0'' else []) @ pad2 ms)"

section \<open>The date of a day\<close>

text \<open>The year and the day in it, as \<open>civil_of_day\<close> computes them.\<close>

lemma year_cycles:
  fixes d :: int
  defines "a \<equiv> d div 146097" and "r400 \<equiv> d mod 146097"
  defines "b \<equiv> min 3 (r400 div 36524)"
  defines "r100 \<equiv> r400 - 36524 * b"
  defines "c \<equiv> r100 div 1461" and "r4 \<equiv> r100 mod 1461"
  defines "e \<equiv> min 3 (r4 div 365)"
  defines "yday \<equiv> r4 - 365 * e"
  shows "0 \<le> b \<and> b \<le> 3" and "0 \<le> c \<and> c \<le> 24" and "0 \<le> e \<and> e \<le> 3"
    and "d = 146097 * a + 36524 * b + 1461 * c + 365 * e + yday"
    and "0 \<le> yday \<and> yday \<le> 365" and "yday = 365 \<longrightarrow> e = 3 \<and> (c = 24 \<longrightarrow> b = 3)"
proof -
  have r400: "0 \<le> r400" "r400 \<le> 146096" by (simp_all add: r400_def)
  then show b: "0 \<le> b \<and> b \<le> 3" by (simp add: b_def)
  have r100: "0 \<le> r100" "r100 \<le> 36524" "r100 = 36524 \<longrightarrow> b = 3"
    using r400 by (simp_all add: r100_def b_def min_def) linarith+
  then show "0 \<le> c \<and> c \<le> 24" by (simp add: c_def) linarith
  have r4: "0 \<le> r4" "r4 \<le> 1460" by (simp_all add: r4_def)
  then show "0 \<le> e \<and> e \<le> 3" by (simp add: e_def)
  show "0 \<le> yday \<and> yday \<le> 365" using r4 by (simp add: yday_def e_def min_def) linarith
  have "d = 146097 * a + r400" by (simp add: a_def r400_def)
  moreover have "r400 = 36524 * b + r100" by (simp add: r100_def)
  moreover have "r100 = 1461 * c + r4" by (simp add: c_def r4_def)
  moreover have "r4 = 365 * e + yday" by (simp add: yday_def)
  ultimately show "d = 146097 * a + 36524 * b + 1461 * c + 365 * e + yday" by simp
  show "yday = 365 \<longrightarrow> e = 3 \<and> (c = 24 \<longrightarrow> b = 3)"
  proof
    assume "yday = 365"
    then have "r4 = 1460" and "e = 3" using r4 by (simp_all add: yday_def e_def min_def split: if_splits)
    moreover have "c = 24 \<longrightarrow> r100 = 35064 + r4" by (auto simp: c_def r4_def minus_mult_div_eq_mod [symmetric])
    ultimately show "e = 3 \<and> (c = 24 \<longrightarrow> b = 3)" using r100 by simp
  qed
qed

lemma year_start:
  fixes a b c e :: int
  assumes "0 \<le> b" "b \<le> 3" "0 \<le> c" "c \<le> 24" "0 \<le> e" "e \<le> 3"
  shows "days_before_year (400 * a + 100 * b + 4 * c + e + 1) = 146097 * a + 36524 * b + 1461 * c + 365 * e - 719162"
proof -
  let ?p = "400 * a + 100 * b + 4 * c + e"
  have "?p div 4 = 100 * a + 25 * b + c" "?p div 100 = 4 * a + b" "?p div 400 = a"
    using assms by (simp_all add: int_div_pos_eq [of ?p 4 _ e] int_div_pos_eq [of ?p 100 _ "4 * c + e"]
        int_div_pos_eq [of ?p 400 a "100 * b + 4 * c + e"])
  then show ?thesis by (simp add: days_before_year_def Let_def)
qed

lemma year_leap:
  fixes a b c :: int
  assumes "0 \<le> b" "b \<le> 3" "0 \<le> c" "c \<le> 24" "c = 24 \<longrightarrow> b = 3"
  shows "is_leap (400 * a + 100 * b + 4 * c + 3 + 1)"
proof -
  let ?y = "400 * a + 100 * b + 4 * c + 3 + 1"
  have 4: "?y mod 4 = 0" by (rule int_mod_pos_eq [of _ _ "100 * a + 25 * b + c + 1"]) simp_all
  show ?thesis
  proof (cases "c = 24")
    case True
    with assms(5) have "?y = 400 * (a + 1)" by simp
    then have "?y mod 400 = 0" by (simp only: mod_mult_self1_is_0)
    with 4 show ?thesis by (simp add: is_leap_def)
  next
    case False
    then have "?y mod 100 = 4 * c + 4"
      using assms by (intro int_mod_pos_eq [of _ _ "4 * a + b"]) simp_all
    with 4 assms(3) show ?thesis by (simp add: is_leap_def)
  qed
qed

lemma month_starts:
  "map (days_before_month y) [1..<13] =
     (if is_leap y then [0, 31, 60, 91, 121, 152, 182, 213, 244, 274, 305, 335]
      else [0, 31, 59, 90, 120, 151, 181, 212, 243, 273, 304, 334])"
  by (simp add: upt_rec days_before_month_def month_lengths_def take_Cons')

lemma month_next:
  assumes "1 \<le> m" "m \<le> 12"
  shows "days_before_month y (Suc m) = days_before_month y m + int (days_in y m)"
proof -
  have "m - 1 < length (month_lengths y)" using assms by (simp add: month_lengths_def)
  from take_Suc_conv_app_nth [OF this] have "take m (month_lengths y) = take (m - 1) (month_lengths y) @ [month_lengths y ! (m - 1)]"
    using assms(1) by simp
  then show ?thesis using assms by (simp add: days_before_month_def days_in_def)
qed

lemma year_length: "days_before_month y 13 = (if is_leap y then 366 else 365)"
  by (simp add: days_before_month_def month_lengths_def)

lemma months_sorted: "sorted (map (days_before_month y) [1..<13])"
  unfolding month_starts by simp

lemma count_le_bounds:
  fixes v :: int
  assumes s: "sorted xs" and k: "k = length (filter (\<lambda>x. x \<le> v) xs)"
  shows "0 < k \<Longrightarrow> xs ! (k - 1) \<le> v" and "k < length xs \<Longrightarrow> v < xs ! k"
proof -
  have "filter (\<lambda>x. x \<le> v) xs = takeWhile (\<lambda>x. x \<le> v) xs"
    using s
  proof (induction xs)
    case (Cons a xs)
    show ?case
    proof (cases "a \<le> v")
      case False
      with Cons.prems have "\<forall>x \<in> set xs. \<not> x \<le> v" by fastforce
      with False show ?thesis by (simp add: filter_empty_conv)
    qed (use Cons in simp)
  qed simp
  then have k: "k = length (takeWhile (\<lambda>x. x \<le> v) xs)" using k by simp
  then show "k < length xs \<Longrightarrow> v < xs ! k"
    using nth_length_takeWhile [of "\<lambda>x. x \<le> v" xs] by simp
  assume "0 < k"
  then have "takeWhile (\<lambda>x. x \<le> v) xs ! (k - 1) \<in> set (takeWhile (\<lambda>x. x \<le> v) xs)" using k by simp
  then have "takeWhile (\<lambda>x. x \<le> v) xs ! (k - 1) \<le> v" by (blast dest: set_takeWhileD)
  moreover have "takeWhile (\<lambda>x. x \<le> v) xs ! (k - 1) = xs ! (k - 1)"
    using \<open>0 < k\<close> k by (intro takeWhile_nth) simp
  ultimately show "xs ! (k - 1) \<le> v" by simp
qed

lemma month_of_bounds:
  assumes "0 \<le> yday" "yday \<le> 365" "yday = 365 \<longrightarrow> is_leap y"
  defines "m \<equiv> month_of y yday"
  shows "1 \<le> m \<and> m \<le> 12" and "days_before_month y m \<le> yday"
    and "yday < days_before_month y m + int (days_in y m)"
proof -
  let ?xs = "map (days_before_month y) [1..<13]"
  have m: "m = length (filter (\<lambda>x. x \<le> yday) ?xs)"
    by (simp add: m_def month_of_def filter_map o_def)
  have "0 \<in> set (filter (\<lambda>x. x \<le> yday) ?xs)" using assms(1) unfolding month_starts by simp
  then have "0 < m" unfolding m by (metis length_greater_0_conv list.set_cases list.distinct(1))
  moreover have "m \<le> length ?xs" unfolding m by (rule length_filter_le)
  ultimately show r: "1 \<le> m \<and> m \<le> 12" by simp
  have nth: "?xs ! i = days_before_month y (Suc i)" if "i < 12" for i
    using that by (simp del: upt_Suc)
  have "?xs ! (m - 1) = days_before_month y (Suc (m - 1))" by (rule nth) (use r in linarith)
  moreover have "Suc (m - 1) = m" using r by simp
  ultimately show "days_before_month y m \<le> yday"
    using count_le_bounds(1) [OF months_sorted m \<open>0 < m\<close>] by (simp only:)
  have "yday < days_before_month y (Suc m)"
  proof (cases "m = 12")
    case True
    with assms(2,3) show ?thesis using year_length [of y] by (auto split: if_splits)
  next
    case False
    with r have "m < 12" by simp
    then have "m < length ?xs" by simp
    from count_le_bounds(2) [OF months_sorted m this] nth [OF \<open>m < 12\<close>] show ?thesis by (simp only:)
  qed
  then show "yday < days_before_month y m + int (days_in y m)"
    using month_next [of m y] r by simp
qed

lemma civil_of_day_correct:
  assumes "civil_of_day day = (y, m, d)"
  shows "civil_days y m d = day" and "1 \<le> m \<and> m \<le> 12" and "1 \<le> d \<and> d \<le> days_in y m"
proof -
  define D where "D = day + 719162"
  define b where "b = min 3 (D mod 146097 div 36524)"
  define r100 where "r100 = D mod 146097 - 36524 * b"
  define e where "e = min 3 (r100 mod 1461 div 365)"
  define yday where "yday = r100 mod 1461 - 365 * e"
  note Y = year_cycles [of D, folded b_def, folded r100_def, folded e_def, folded yday_def]
  have t: "civil_of_day day =
      (let y = 400 * (D div 146097) + 100 * b + 4 * (r100 div 1461) + e + 1; m = month_of y yday
       in (y, m, nat (yday - days_before_month y m) + 1))"
    unfolding civil_of_day_def Let_def D_def b_def r100_def e_def yday_def by (rule refl)
  then have y: "y = 400 * (D div 146097) + 100 * b + 4 * (r100 div 1461) + e + 1"
    and m: "m = month_of y yday" and d: "d = nat (yday - days_before_month y m) + 1"
    unfolding assms Let_def by blast+
  have start: "days_before_year y + yday = day"
    using year_start [of b "r100 div 1461" e "D div 146097"] Y(1-4) by (simp add: y D_def)
  have leap: "yday = 365 \<longrightarrow> is_leap y"
    using year_leap [of b "r100 div 1461" "D div 146097"] Y(1,2,6) by (auto simp: y)
  note M = month_of_bounds [of yday y] Y(5) leap
  then show "1 \<le> m \<and> m \<le> 12" by (simp add: m)
  have lo: "days_before_month y m \<le> yday" and hi: "yday < days_before_month y m + int (days_in y m)"
    using M by (simp_all add: m)
  then show "1 \<le> d \<and> d \<le> days_in y m" by (simp add: d)
  show "civil_days y m d = day" using start lo by (simp add: civil_days_def d)
qed

section \<open>Reading a formatted instant\<close>

lemma zero_digit: "CHR ''0'' = digit_char 0"
proof -
  have "(of_char CHR ''0'' :: nat) = of_char (digit_char 0)" by (simp add: digit_char_def)
  then show ?thesis by (simp only: of_char_eq_iff)
qed

lemma pad2_digits:
  assumes "n < 100"
  shows "pad2 n = [digit_char (n div 10), digit_char (n mod 10)]"
proof -
  have "n div 10 < 10" using assms by simp
  then show ?thesis
    by (simp add: pad2_def show_nat.simps [of n] show_nat.simps [of "n div 10"] zero_digit)
qed

lemma getnum_pad2: "n < 100 \<Longrightarrow> getnum fixed (pad2 n @ s) = Some (n, s)"
  by (simp add: pad2_digits)

lemma get_ranged_pad2: "n < 100 \<Longrightarrow> ok n \<Longrightarrow> get_ranged fixed ok (pad2 n @ s) = Some (n, s)"
  by (simp add: get_ranged_def getnum_pad2)

lemma show_nat_length: "n < 10 ^ k \<Longrightarrow> 0 < k \<Longrightarrow> length (show_nat n) \<le> k"
proof (induction k arbitrary: n)
  case (Suc k)
  show ?case
  proof (cases "n < 10")
    case False
    with Suc.prems have "n div 10 < 10 ^ k" "0 < k" by (auto simp: less_mult_imp_div_less intro: gr0I)
    with Suc.IH [of "n div 10"] False show ?thesis by (simp add: show_nat.simps [of n])
  qed (simp add: show_nat.simps [of n])
qed simp

lemma pad4_digits:
  assumes "0 \<le> y" "y < 10000"
  shows "length (pad4 y) = 4" and "list_all is_digit (pad4 y)" and "parse_nat (pad4 y) = Some (nat y)"
proof -
  have l: "length (show_nat (nat y)) \<le> 4" using show_nat_length [of "nat y" 4] assms by simp
  have z: "is_digit CHR ''0''" "digit_val CHR ''0'' = 0"
    by (simp_all add: is_digit_def digit_val_def byte_of_def)
  show len: "length (pad4 y) = 4" using assms l by (simp add: pad4_def Let_def)
  show all: "list_all is_digit (pad4 y)"
    using assms show_nat_digits [of "nat y"] z by (auto simp: pad4_def Let_def list_all_iff)
  have f: "foldl (\<lambda>n c. 10 * n + digit_val c) 0 (replicate k CHR ''0'') = 0" for k
    by (induction k) (simp_all add: z)
  show "parse_nat (pad4 y) = Some (nat y)"
    using all len assms show_nat_value [of "nat y"] by (auto simp: parse_nat_def pad4_def Let_def f)
qed

lemma parse_year: "0 \<le> y \<Longrightarrow> y < 10000 \<Longrightarrow> parse_chunk LongYear (pad4 y @ s) (c, z) = Some ((c\<lparr>c_year := y\<rparr>, z), s)"
  using pad4_digits [of y] by simp

lemma take_spaces_space: "take_spaces (CHR '' '' # s) = take_spaces s"
  by (simp add: take_spaces_def)

lemma take_spaces_pad2: "n < 100 \<Longrightarrow> take_spaces (pad2 n @ s) = pad2 n @ s"
proof -
  assume n: "n < 100"
  have "digit_char (n div 10) \<noteq> CHR '' ''"
  proof
    assume "digit_char (n div 10) = CHR '' ''"
    then have "byte_of (digit_char (n div 10)) = 32" by (simp add: byte_of_def)
    with n show False by simp
  qed
  with n show ?thesis by (simp add: pad2_digits take_spaces_def)
qed

lemma parse_fields:
  "1 \<le> n \<and> n \<le> 12 \<Longrightarrow> parse_chunk ZeroMonth (pad2 n @ s) (c, z) = Some ((c\<lparr>c_month := n\<rparr>, z), s)"
  "n < 100 \<Longrightarrow> parse_chunk ZeroDay (pad2 n @ s) (c, z) = Some ((c\<lparr>c_day := n\<rparr>, z), s)"
  "n < 24 \<Longrightarrow> parse_chunk Hour24 (pad2 n @ s) (c, z) = Some ((c\<lparr>c_hour := n\<rparr>, z), s)"
  "n < 60 \<Longrightarrow> parse_chunk ZeroMin (pad2 n @ s) (c, z) = Some ((c\<lparr>c_min := n\<rparr>, z), s)"
  "n < 60 \<Longrightarrow> parse_chunk ZeroSec (pad2 n @ []) (c, z) = Some ((c\<lparr>c_sec := n, c_nano := 0\<rparr>, z), [])"
  by (simp_all add: get_ranged_pad2 parse_fraction_def del: append_Nil2)

lemma parse_lits:
  "parse_chunk (Lit CHR ''-'') (CHR ''-'' # s) (c, z) = Some ((c, z), s)"
  "parse_chunk (Lit CHR '':'') (CHR '':'' # s) (c, z) = Some ((c, z), s)"
  "n < 100 \<Longrightarrow> parse_chunk (Lit CHR '' '') (CHR '' '' # pad2 n @ s) (c, z) = Some ((c, z), pad2 n @ s)"
  by (simp_all add: take_spaces_space take_spaces_pad2)

lemma parse_step: "parse_chunk k s st = Some (st', r) \<Longrightarrow> parse_chunks (k # ks) s st = parse_chunks ks r st'"
  by simp

lemma parse_printed:
  assumes "0 \<le> y" "y < 10000" "1 \<le> m \<and> m \<le> 12" "m < 100" "d < 100" "h < 24" "mi < 60" "sec < 60"
  shows "parse_chunks layout_datetime (pad4 y @ CHR ''-'' # pad2 m @ CHR ''-'' # pad2 d @ CHR '' '' #
      pad2 h @ CHR '':'' # pad2 mi @ CHR '':'' # pad2 sec @ []) (zero_civil, z) =
    Some (\<lparr>c_year = y, c_month = m, c_day = d, c_hour = h, c_min = mi, c_sec = sec, c_nano = 0\<rparr>, z)"
proof -
  have h: "h < 100" using assms(6) by simp
  show ?thesis
    unfolding layout_datetime_def
    by (simp only: parse_step [OF parse_year [OF assms(1,2)]] parse_step [OF parse_lits(1)]
        parse_step [OF parse_fields(1) [OF assms(3)]] parse_step [OF parse_fields(2) [OF assms(5)]]
        parse_step [OF parse_lits(3) [OF h]] parse_step [OF parse_fields(3) [OF assms(6)]]
        parse_step [OF parse_lits(2)] parse_step [OF parse_fields(4) [OF assms(7)]]
        parse_step [OF parse_fields(5) [OF assms(8)]])
      (simp add: zero_civil_def)
qed

lemma hms_sum: "int (n div 3600) * 3600 + int (n div 60 mod 60) * 60 + int (n mod 60) = int n"
proof -
  have "n div 3600 = n div 60 div 60" using div_mult2_eq [of n 60 60] by simp
  moreover have "n div 60 div 60 * 60 + n div 60 mod 60 = n div 60" by (rule div_mult_mod_eq)
  moreover have "n div 60 * 60 + n mod 60 = n" by (rule div_mult_mod_eq)
  ultimately have "n div 3600 * 3600 + n div 60 mod 60 * 60 + n mod 60 = n" by linarith
  then have "int (n div 3600 * 3600 + n div 60 mod 60 * 60 + n mod 60) = int n" by (rule arg_cong)
  then show ?thesis by (simp only: of_nat_add of_nat_mult of_nat_numeral)
qed

lemma format_fields:
  assumes "civil_of_day (t div 1000000000 div 86400) = (y, m, d)" and "sod = nat (t div 1000000000 mod 86400)"
  shows "format_datetime t = pad4 y @ CHR ''-'' # pad2 m @ CHR ''-'' # pad2 d @ CHR '' '' #
      pad2 (sod div 3600) @ CHR '':'' # pad2 (sod div 60 mod 60) @ CHR '':'' # pad2 (sod mod 60) @ []"
  unfolding format_datetime_def Let_def assms prod.case by (simp only: append_Cons append_Nil append.assoc append_Nil2)

lemma days_in_le: "1 \<le> m \<and> m \<le> 12 \<Longrightarrow> days_in y m \<le> 31"
proof -
  assume m: "1 \<le> m \<and> m \<le> 12"
  then have "m - 1 < length (month_lengths y)" by (simp add: month_lengths_def, linarith)
  then have "month_lengths y ! (m - 1) \<in> set (month_lengths y)" by (rule nth_mem)
  moreover have "\<forall>x \<in> set (month_lengths y). x \<le> 31" by (simp add: month_lengths_def)
  ultimately show ?thesis using m by (simp add: days_in_def)
qed

lemma instant_fields:
  assumes "civil_days y m d = q div 86400" and "int n = q mod 86400"
  shows "instant_of 0 \<lparr>c_year = y, c_month = m, c_day = d, c_hour = n div 3600, c_min = n div 60 mod 60,
      c_sec = n mod 60, c_nano = 0\<rparr> = q * 1000000000"
proof -
  have "q div 86400 * 86400 + (int (n div 3600) * 3600 + int (n div 60 mod 60) * 60 + int (n mod 60)) = q"
    unfolding hms_sum assms(2) by (rule div_mult_mod_eq)
  then show ?thesis by (simp only: instant_of_def civil.select_convs assms(1)) (simp add: algebra_simps)
qed

lemma instant_of_zone: "instant_of z c = instant_of 0 c - z * 1000000000"
  by (simp add: instant_of_def algebra_simps)

text \<open>An instant between the years 0 and 9999, formatted as the wall-clock time of a zone and read
  back in that zone, is itself, to the second.\<close>

lemma format_parse_zone:
  assumes y: "civil_of_day ((t + z * 1000000000) div 1000000000 div 86400) = (y, m, d)" "0 \<le> y" "y < 10000"
  shows "time_parse layout_datetime z (format_datetime (t + z * 1000000000)) = Some (t - t mod 1000000000)"
proof -
  define t' where "t' = t + z * 1000000000"
  define q where "q = t' div 1000000000"
  define n where "n = nat (q mod 86400)"
  note y = y [folded t'_def]
  have n: "int n = q mod 86400" and "n < 86400" by (simp_all add: n_def nat_less_iff)
  then have hms: "n div 3600 < 24" "n div 60 mod 60 < 60" "n mod 60 < 60"
    by (simp_all add: less_mult_imp_div_less)
  note C = civil_of_day_correct [OF y(1)]
  have md: "m < 100" "d < 100" using C(2,3) days_in_le [OF C(2), of y] by linarith+
  note p = parse_printed [OF y(2,3) C(2) md hms, of z,
      folded format_fields [OF y(1) n_def [unfolded q_def]]]
  have "t' - t' mod 1000000000 = q * 1000000000" unfolding q_def by (rule minus_mod_eq_div_mult)
  moreover have "t' mod 1000000000 = t mod 1000000000" by (simp add: t'_def)
  ultimately have "t - t mod 1000000000 = q * 1000000000 - z * 1000000000" by (simp add: t'_def)
  then show ?thesis
    unfolding time_parse_def p [folded t'_def] t'_def [symmetric]
    using C(3) instant_fields [OF C(1) [folded q_def] n] instant_of_zone [of z]
    by (simp only: option.case prod.case civil.select_convs simp_thms if_True p)
qed

lemma format_parse_roundtrip:
  assumes y: "civil_of_day (t div 1000000000 div 86400) = (y, m, d)" "0 \<le> y" "y < 10000"
  shows "time_parse layout_datetime 0 (format_datetime t) = Some (t - t mod 1000000000)"
  using format_parse_zone [of t 0 y m d] assms by simp

text \<open>The printed form: 19 bytes, no letter in it.\<close>

lemma digit_char_not_T: "n < 10 \<Longrightarrow> digit_char n \<noteq> CHR ''T''"
proof
  assume n: "n < 10" and "digit_char n = CHR ''T''"
  then have "byte_of (digit_char n) = 84" by (simp add: byte_of_def)
  with n show False by simp
qed

lemma format_datetime_shape:
  assumes y: "civil_of_day (t div 1000000000 div 86400) = (y, m, d)" "0 \<le> y" "y < 10000"
  shows "length (format_datetime t) = 19" and "CHR ''T'' \<notin> set (format_datetime t)"
proof -
  define n where "n = nat (t div 1000000000 mod 86400)"
  have "n < 86400" by (simp add: n_def nat_less_iff)
  then have hms: "n div 3600 < 100" "n div 60 mod 60 < 100" "n mod 60 < 100"
    by (simp_all add: less_mult_imp_div_less order.strict_trans [of _ 60])
  note C = civil_of_day_correct [OF y(1)]
  have md: "m < 100" "d < 100" using C(2,3) days_in_le [OF C(2), of y] by linarith+
  have len: "length (pad2 k) = 2" and noT: "CHR ''T'' \<notin> set (pad2 k)" if "k < 100" for k
  proof -
    have "k div 10 < 10" using that by simp
    then show "length (pad2 k) = 2" "CHR ''T'' \<notin> set (pad2 k)"
      using that digit_char_not_T [of "k div 10"] digit_char_not_T [of "k mod 10"] by (auto simp: pad2_digits)
  qed
  have "\<not> is_digit CHR ''T''" by (simp add: is_digit_def byte_of_def)
  then have "CHR ''T'' \<notin> set (pad4 y)" using pad4_digits(2) [OF y(2,3)] by (auto simp: list_all_iff)
  then show "length (format_datetime t) = 19" and "CHR ''T'' \<notin> set (format_datetime t)"
    unfolding format_fields [OF y(1) n_def]
    using len noT md hms pad4_digits(1) [OF y(2,3)] by simp_all
qed

end
