(* ===== verification/Filters.thy ===== *)
theory Filters
  imports IcebergSchema TimeFormat
begin

text \<open>
  The filter and HAVING translators of \<open>internal/services/duckdb.go\<close>: identifiers, filter trees
  to SQL fragments with positional parameters, date values, HAVING expressions. What \<open>unicode\<close>
  and \<open>strings\<close> say about non-ASCII runes and how \<open>%v\<close> prints a float are parameters.
\<close>

section \<open>Layout of query texts\<close>

text \<open>A new line indented by blanks, or by tabs.\<close>

definition line_at :: "nat \<Rightarrow> string" where
  "line_at n = CHR 0x0A # replicate n CHR '' ''"

definition tab_at :: "nat \<Rightarrow> string" where
  "tab_at n = CHR 0x0A # replicate n CHR 0x09"

section \<open>Runes\<close>

text \<open>
  \<open>for _, r := range s\<close>: UTF-8 decoding; a byte that starts no well-formed sequence is the
  replacement rune and takes one byte.
\<close>

definition cont_byte :: "nat \<Rightarrow> nat \<Rightarrow> char \<Rightarrow> bool" where
  "cont_byte lo hi c \<longleftrightarrow> lo \<le> byte_of c \<and> byte_of c \<le> hi"

text \<open>The range of the second byte of a sequence, by its first.\<close>

definition second_lo :: "nat \<Rightarrow> nat" where
  "second_lo b = (if b = 0xE0 then 0xA0 else if b = 0xF0 then 0x90 else 0x80)"

definition second_hi :: "nat \<Rightarrow> nat" where
  "second_hi b = (if b = 0xED then 0x9F else if b = 0xF4 then 0x8F else 0xBF)"

text \<open>How many bytes follow a first byte: 4 where it starts no sequence.\<close>

definition tail_count :: "nat \<Rightarrow> nat" where
  "tail_count b =
     (if b < 0x80 then 0 else if 0xC2 \<le> b \<and> b \<le> 0xDF then 1 else if 0xE0 \<le> b \<and> b \<le> 0xEF then 2
      else if 0xF0 \<le> b \<and> b \<le> 0xF4 then 3 else 4)"

definition lead_bits :: "nat \<Rightarrow> nat \<Rightarrow> nat" where
  "lead_bits n b = (if n = 0 then b else if n = 1 then b - 0xC0 else if n = 2 then b - 0xE0 else b - 0xF0)"

text \<open>The rune at the front and the number of bytes after the first that it takes.\<close>

definition decode_rune :: "char \<Rightarrow> string \<Rightarrow> nat \<times> nat" where
  "decode_rune c cs =
     (let b = byte_of c; n = tail_count b; ts = take n cs
      in if n = 0 then (b, 0)
         else if n \<le> 3 \<and> length ts = n \<and> cont_byte (second_lo b) (second_hi b) (hd ts)
                 \<and> list_all (cont_byte 0x80 0xBF) (tl ts)
           then (foldl (\<lambda>v x. v * 64 + (byte_of x - 0x80)) (lead_bits n b) ts, n)
         else (0xFFFD, 0))"

function runes :: "string \<Rightarrow> nat list" where
  "runes [] = []"
| "runes (c # cs) = fst (decode_rune c cs) # runes (drop (snd (decode_rune c cs)) cs)"
  by pat_completeness auto
termination by (relation "measure length") auto

text \<open>What the library knows of Unicode: \<open>unicode.IsLetter\<close>, \<open>unicode.IsDigit\<close>,
  \<open>strings.ToLower\<close>, \<open>strings.ToUpper\<close>.\<close>

record unicode =
  un_letter :: "nat \<Rightarrow> bool"
  un_digit :: "nat \<Rightarrow> bool"
  un_lower :: "string \<Rightarrow> string"
  un_upper :: "string \<Rightarrow> string"

text \<open>On ASCII these agree with the ASCII tables, and no upper-case letter of ASCII is left by
  \<open>strings.ToLower\<close>.\<close>

definition unicode_ok :: "unicode \<Rightarrow> bool" where
  "unicode_ok u \<longleftrightarrow>
     (\<forall>c. is_ascii c \<longrightarrow> (un_letter u (byte_of c) \<longleftrightarrow> is_lower c \<or> is_upper c) \<and> (un_digit u (byte_of c) \<longleftrightarrow> is_digit c))
   \<and> (\<forall>s. list_all is_ascii s \<longrightarrow> un_lower u s = map ascii_lower s \<and> un_upper u s = map ascii_upper s)
   \<and> (\<forall>s. list_all (\<lambda>c. \<not> is_upper c) (un_lower u s))"

definition ascii_unicode :: unicode where
  "ascii_unicode = \<lparr>un_letter = (\<lambda>r. 65 \<le> r \<and> r \<le> 90 \<or> 97 \<le> r \<and> r \<le> 122),
     un_digit = (\<lambda>r. 48 \<le> r \<and> r \<le> 57), un_lower = map ascii_lower, un_upper = map ascii_upper\<rparr>"

section \<open>Identifiers\<close>

definition rune_underscore :: nat where
  "rune_underscore = 95"

definition validateIdentifier :: "unicode \<Rightarrow> string \<Rightarrow> string option" where
  "validateIdentifier u name =
     (let clean = trim_space (un_lower u name)
      in if clean = [] then None
         else case runes clean of
           [] \<Rightarrow> None
         | r # rs \<Rightarrow>
             if (un_letter u r \<or> r = rune_underscore)
                \<and> list_all (\<lambda>r. un_letter u r \<or> un_digit u r \<or> r = rune_underscore) rs
             then Some clean else None)"

section \<open>Date values\<close>

definition resolveDateFilterValue :: "(f64 \<Rightarrow> string) \<Rightarrow> gval \<Rightarrow> string \<Rightarrow> string option" where
  "resolveDateFilterValue ff raw fmt =
     (let val = trim_space (fmt_v ff raw)
      in if fmt = ''EPOCH_MILLIS'' then map_option (\<lambda>ms. format_millis (ms * 1000000)) (parse_int64 val)
         else if fmt = ''ISO_STRING'' \<or> fmt = [] then map_option format_millis (time_parse layout_RFC3339 0 val)
         else None)"

section \<open>Filter trees\<close>

definition op_sql :: "string \<Rightarrow> string option" where
  "op_sql opr = map_of [(''EQUALS'', ''=''), (''NOT_EQUALS'', ''!=''), (''GREATER_THAN'', ''>''),
     (''GREATER_THAN_EQUAL'', ''>=''), (''LESS_THAN'', ''<''), (''LESS_THAN_EQUAL'', ''<='')] opr"

definition date_op_sql :: "string \<Rightarrow> string option" where
  "date_op_sql opr = map_of [(''DATE_BEFORE'', ''<''), (''DATE_AFTER'', ''>''), (''DATE_EQUALS'', ''='')] opr"

text \<open>The templates \<open>prefix field suffix\<close> with one parameter, the value itself.\<close>

definition text_op :: "string \<Rightarrow> (string \<times> string) option" where
  "text_op opr = map_of
     [(''REGEX'', (''regexp_matches('', '', ?)'')),
      (''CONTAINS'', (''contains(CAST('', '' AS VARCHAR), CAST(? AS VARCHAR))'')),
      (''NOT_CONTAINS'', (''NOT contains(CAST('', '' AS VARCHAR), CAST(? AS VARCHAR))'')),
      (''STARTS_WITH'', (''starts_with(CAST('', '' AS VARCHAR), CAST(? AS VARCHAR))'')),
      (''ENDS_WITH'', (''ends_with(CAST('', '' AS VARCHAR), CAST(? AS VARCHAR))''))] opr"

definition in_sql :: "string \<Rightarrow> nat \<Rightarrow> string" where
  "in_sql field n = field @ '' IN ('' @ join '', '' (replicate n ''?'') @ '')''"

definition in_items :: "gval \<Rightarrow> gval list" where
  "in_items v =
     (case v of GList xs \<Rightarrow> xs
      | GStr s \<Rightarrow> map (\<lambda>p. GStr (trim_space p)) (split_on CHR '','' s)
      | _ \<Rightarrow> [])"

type_synonym sql = "string \<times> gval list"

definition no_sql :: sql where
  "no_sql = ([], [])"

definition field_condition :: "(f64 \<Rightarrow> string) \<Rightarrow> string \<Rightarrow> string \<Rightarrow> gval \<Rightarrow> string \<Rightarrow> sql" where
  "field_condition ff field opr val fmt =
     (case op_sql opr of
        Some s \<Rightarrow> (field @ '' '' @ s @ '' ?'', [val])
      | None \<Rightarrow>
         (if opr = ''IN'' then
            (let items = in_items val in if items = [] then no_sql else (in_sql field (length items), items))
          else case text_op opr of
            Some (pre, post) \<Rightarrow> (pre @ field @ post, [val])
          | None \<Rightarrow>
             (if opr = ''IS_NULL'' then (field @ '' IS NULL'', [])
              else if opr = ''IS_NOT_NULL'' then (field @ '' IS NOT NULL'', [])
              else case date_op_sql opr of
                None \<Rightarrow> no_sql
              | Some s \<Rightarrow>
                  (case resolveDateFilterValue ff val fmt of
                     None \<Rightarrow> no_sql
                   | Some r \<Rightarrow> (''try_cast('' @ field @ '' AS TIMESTAMP) '' @ s @ '' try_cast(? AS TIMESTAMP)'', [GStr r])))))"

definition condition_sql :: "unicode \<Rightarrow> (f64 \<Rightarrow> string) \<Rightarrow> row \<Rightarrow> sql" where
  "condition_sql u ff node =
     (let opr = row_str node ''operator''
      in if opr = ''IS_FINANCIAL_AUA'' then
           (case validateIdentifier u (translateField ''_data.aua'') of
              None \<Rightarrow> no_sql
            | Some f \<Rightarrow> (in_sql f (length financialAuaCodes), map GStr financialAuaCodes))
         else case validateIdentifier u (translateField (row_str node ''field'')) of
           None \<Rightarrow> no_sql
         | Some field \<Rightarrow> field_condition ff field opr (row_val node ''value'') (row_str node ''format''))"

text \<open>Parts of a group: none, one as it is, several in parentheses.\<close>

definition combine :: "string \<Rightarrow> sql list \<Rightarrow> sql" where
  "combine logic parts =
     (case parts of [] \<Rightarrow> no_sql
      | [p] \<Rightarrow> p
      | _ \<Rightarrow> (''('' @ join ('' '' @ logic @ '' '') (map fst parts) @ '')'', concat (map snd parts)))"

definition group_logic :: "row \<Rightarrow> string" where
  "group_logic node =
     (let l = row_str node ''logic'' in if l \<noteq> ''AND'' \<and> l \<noteq> ''OR'' then ''AND'' else l)"

definition group_conditions :: "row \<Rightarrow> row list" where
  "group_conditions node =
     (case as_list (row_val node ''conditions'') of None \<Rightarrow> [] | Some cs \<Rightarrow> List.map_filter as_map cs)"

lemma group_conditions_smaller: "c \<in> set (group_conditions node) \<Longrightarrow> size (GMap c) < size (GMap node)"
proof -
  assume "c \<in> set (group_conditions node)"
  then obtain cs where cs: "row_val node ''conditions'' = GList cs" and c: "GMap c \<in> set cs"
    by (cases "as_list (row_val node ''conditions'')")
      (auto simp: group_conditions_def as_list_Some_iff map_filter_def as_map_Some_iff)
  from cs have "map_of node ''conditions'' = Some (GList cs)"
    by (auto simp: row_val_def split: option.splits)
  then have "(''conditions'', GList cs) \<in> set node" by (rule map_of_SomeD)
  then have "size (GList cs) < size (GMap node)"
    by (induction node) (auto simp: less_Suc_eq)
  moreover from c have "size (GMap c) < size (GList cs)"
    by (induction cs) (auto simp: less_Suc_eq)
  ultimately show ?thesis by simp
qed

function parseFilterNode :: "unicode \<Rightarrow> (f64 \<Rightarrow> string) \<Rightarrow> row \<Rightarrow> sql" where
  "parseFilterNode u ff node =
     (if node = [] then no_sql
      else if row_str node ''type'' = ''group'' then
        combine (group_logic node)
          (filter (\<lambda>p. fst p \<noteq> []) (map (parseFilterNode u ff) (group_conditions node)))
      else if row_str node ''type'' = ''condition'' then condition_sql u ff node
      else no_sql)"
  by pat_completeness auto
termination
  by (relation "measure (\<lambda>(u, ff, node). size (GMap node))") (auto dest: group_conditions_smaller)

declare parseFilterNode.simps [simp del]

section \<open>HAVING expressions\<close>

text \<open>The character class of \<open>safeHavingPattern\<close>, and the class of white space in it.\<close>

definition re_space :: "char \<Rightarrow> bool" where
  "re_space c \<longleftrightarrow> byte_of c \<in> {9, 10, 12, 13, 32}"

definition having_char :: "char \<Rightarrow> bool" where
  "having_char c \<longleftrightarrow> re_space c \<or> is_lower c \<or> is_upper c \<or> is_digit c \<or> c \<in> set ''()_.><!=+-*/''"

text \<open>The language of the pattern: a run of such characters, then any number of a connective
  between white space and another run.\<close>

inductive having_pattern :: "string \<Rightarrow> bool" where
  Run: "s \<noteq> [] \<Longrightarrow> list_all having_char s \<Longrightarrow> having_pattern s"
| Connect: "having_pattern s \<Longrightarrow> sp1 \<noteq> [] \<Longrightarrow> list_all re_space sp1 \<Longrightarrow>
     k \<in> {''AND'', ''OR'', ''NOT''} \<Longrightarrow> sp2 \<noteq> [] \<Longrightarrow> list_all re_space sp2 \<Longrightarrow>
     t \<noteq> [] \<Longrightarrow> list_all having_char t \<Longrightarrow> having_pattern (s @ sp1 @ k @ sp2 @ t)"

definition safe_having :: "string \<Rightarrow> bool" where
  "safe_having s \<longleftrightarrow> s \<noteq> [] \<and> list_all having_char s"

definition ident_start :: "char \<Rightarrow> bool" where
  "ident_start c \<longleftrightarrow> is_lower c \<or> is_upper c \<or> c = CHR ''_''"

definition ident_char :: "char \<Rightarrow> bool" where
  "ident_char c \<longleftrightarrow> ident_start c \<or> is_digit c"

text \<open>\<open>identTokenPattern.FindAllString(s, -1)\<close>.\<close>

function ident_tokens :: "string \<Rightarrow> string list" where
  "ident_tokens [] = []"
| "ident_tokens (c # cs) =
     (if ident_start c then (c # takeWhile ident_char cs) # ident_tokens (dropWhile ident_char cs)
      else ident_tokens cs)"
  by pat_completeness auto
termination by (relation "measure length") (auto simp: length_dropWhile_le less_Suc_eq_le)

definition sql_keywords :: "string list" where
  "sql_keywords = [''AND'', ''OR'', ''NOT'', ''true'', ''false'', ''TRUE'', ''FALSE'',
     ''CASE'', ''WHEN'', ''THEN'', ''ELSE'', ''END'']"

text \<open>\<open>None\<close> is the error; the empty expression is accepted as it is. A nil map of aliases
  (\<open>None\<close>) switches the check of the identifiers off.\<close>

definition parseHavingExpression :: "unicode \<Rightarrow> string \<Rightarrow> string list option \<Rightarrow> string option" where
  "parseHavingExpression u expr aliases =
     (if expr = [] then Some []
      else let e1 = replace_all ''&&'' '' AND '' expr;
               e2 = replace_all ''||'' '' OR '' e1;
               e3 = replace_all ''=='' ''='' e2;
               cleaned = trim_space e3
           in if cleaned = [] then Some []
              else if \<not> safe_having cleaned then None
              else case aliases of
                None \<Rightarrow> Some cleaned
              | Some names \<Rightarrow>
                  (if list_all (\<lambda>tok. tok \<in> set sql_keywords \<or> un_upper u tok \<in> set sql_keywords
                        \<or> tok \<in> set names) (ident_tokens cleaned)
                   then Some cleaned else None))"

end
