(* ===== verification/DuckEngine.thy ===== *)
theory DuckEngine
  imports Filters
begin

text \<open>
  The DuckDB engine of \<open>internal/services/duckdb.go\<close>: one pinned, configured connection, one
  query slot. DuckDB itself (which statements it accepts, whether a handle can be opened) is a
  parameter; the model keeps the handles the program opened and has not closed, and the
  statements that succeeded on each connection.
\<close>

section \<open>Configuration of a connection\<close>

record s3_config =
  s3_endpoint :: string
  s3_access :: string
  s3_secret :: string

definition trim_prefix :: "string \<Rightarrow> string \<Rightarrow> string" where
  "trim_prefix s p = (case strip_prefix p s of None \<Rightarrow> s | Some r \<Rightarrow> r)"

definition has_prefix :: "string \<Rightarrow> string \<Rightarrow> bool" where
  "has_prefix s p \<longleftrightarrow> strip_prefix p s \<noteq> None"

abbreviation apos :: char where
  "apos \<equiv> CHR 0x27"

definition quoted :: "string \<Rightarrow> string" where
  "quoted s = apos # s @ [apos]"

definition sql_escape :: "string \<Rightarrow> string" where
  "sql_escape s = replace_all [apos] [apos, apos] s"

definition limit_stmts :: "string list" where
  "limit_stmts = [''SET memory_limit='' @ quoted ''600MB'', ''SET temp_directory='' @ quoted ''/tmp/duckdb'']"

definition s3_stmts :: "s3_config \<Rightarrow> string list" where
  "s3_stmts cfg =
     [''SET s3_endpoint='' @ quoted (trim_prefix (trim_prefix (s3_endpoint cfg) ''http://'') ''https://''),
      ''SET s3_access_key_id='' @ quoted (sql_escape (s3_access cfg)),
      ''SET s3_secret_access_key='' @ quoted (sql_escape (s3_secret cfg)),
      ''SET s3_url_style='' @ quoted ''path'',
      ''SET s3_use_ssl='' @ (if has_prefix (s3_endpoint cfg) ''http://'' then ''false'' else ''true'')]"

text \<open>
  \<open>exec hist stmt\<close>: does a statement succeed on a connection on which \<open>hist\<close> has succeeded? A
  run of statements stops at the first that fails; an extension is loaded from the cache, or
  installed and loaded. The result is the history and whether all went well.
\<close>

type_synonym exec = "string list \<Rightarrow> string \<Rightarrow> bool"

fun run_stmts :: "exec \<Rightarrow> string list \<Rightarrow> string list \<Rightarrow> string list \<times> bool" where
  "run_stmts exec [] hist = (hist, True)"
| "run_stmts exec (q # qs) hist =
     (if exec hist q then run_stmts exec qs (hist @ [q]) else (hist, False))"

definition load_ext :: "exec \<Rightarrow> string \<Rightarrow> string list \<Rightarrow> string list \<times> bool" where
  "load_ext exec ext hist =
     (if exec hist (''LOAD '' @ ext) then (hist @ [''LOAD '' @ ext], True)
      else run_stmts exec [''INSTALL '' @ ext, ''LOAD '' @ ext] hist)"

fun load_exts :: "exec \<Rightarrow> string list \<Rightarrow> string list \<Rightarrow> string list \<times> bool" where
  "load_exts exec [] hist = (hist, True)"
| "load_exts exec (e # es) hist =
     (case load_ext exec e hist of
        (hist', ok) \<Rightarrow> if ok then load_exts exec es hist' else (hist', False))"

definition configureDuckDBConn :: "exec \<Rightarrow> s3_config \<Rightarrow> string list \<times> bool" where
  "configureDuckDBConn exec cfg =
     (case run_stmts exec limit_stmts [] of
        (h1, ok1) \<Rightarrow>
          if \<not> ok1 then (h1, False)
          else case load_exts exec [''iceberg'', ''httpfs''] h1 of
            (h2, ok2) \<Rightarrow> if \<not> ok2 then (h2, False) else run_stmts exec (s3_stmts cfg) h2)"

section \<open>The pinned connection\<close>

datatype handle = Pool nat | Conn nat

record duck =
  dk_slot :: bool
  dk_conn :: "nat option"
  dk_pool :: "nat option"
  dk_handles :: "handle set"
  dk_hist :: "nat \<Rightarrow> string list"
  dk_fresh :: nat

definition duck0 :: duck where
  "duck0 = \<lparr>dk_slot = False, dk_conn = None, dk_pool = None, dk_handles = {}, dk_hist = (\<lambda>_. []), dk_fresh = 0\<rparr>"

text \<open>What an initialisation meets: whether \<open>sql.Open\<close> and \<open>db.Conn\<close> succeed, and DuckDB.\<close>

record init_env =
  ie_open :: bool
  ie_conn :: bool
  ie_exec :: exec

definition close_handle :: "handle \<Rightarrow> duck \<Rightarrow> duck" where
  "close_handle h dk = dk\<lparr>dk_handles := dk_handles dk - {h}\<rparr>"

definition initDuckDB :: "s3_config \<Rightarrow> init_env \<Rightarrow> duck \<Rightarrow> duck \<times> nat option" where
  "initDuckDB cfg ie dk =
     (case dk_conn dk of
        Some c \<Rightarrow> (dk, Some c)
      | None \<Rightarrow>
          if \<not> ie_open ie then (dk, None)
          else
            let n = dk_fresh dk;
                opened = dk\<lparr>dk_fresh := Suc n, dk_handles := insert (Pool n) (dk_handles dk)\<rparr>
            in if \<not> ie_conn ie then (close_handle (Pool n) opened, None)
               else
                 let pinned = opened\<lparr>dk_handles := insert (Conn n) (dk_handles opened)\<rparr>
                 in case configureDuckDBConn (ie_exec ie) cfg of
                      (hist, ok) \<Rightarrow>
                        (let dk' = pinned\<lparr>dk_hist := (dk_hist pinned)(n := hist)\<rparr>
                         in if \<not> ok then (close_handle (Pool n) (close_handle (Conn n) dk'), None)
                            else (dk'\<lparr>dk_pool := Some n, dk_conn := Some n\<rparr>, Some n)))"

definition resetDuckDB :: "duck \<Rightarrow> duck" where
  "resetDuckDB dk =
     (let d1 = (case dk_conn dk of None \<Rightarrow> dk | Some c \<Rightarrow> (close_handle (Conn c) dk)\<lparr>dk_conn := None\<rparr>)
      in case dk_pool d1 of None \<Rightarrow> d1 | Some p \<Rightarrow> (close_handle (Pool p) d1)\<lparr>dk_pool := None\<rparr>)"

text \<open>A failed query: the connection is dead (\<open>driver.ErrBadConn\<close>, \<open>sql.ErrConnDone\<close>) or not.\<close>

datatype query_error = BadConn | ConnDone | OtherError

definition maybeResetOnFatal :: "query_error option \<Rightarrow> duck \<Rightarrow> duck" where
  "maybeResetOnFatal err dk =
     (case err of None \<Rightarrow> dk | Some e \<Rightarrow> if e = BadConn \<or> e = ConnDone then resetDuckDB dk else dk)"

section \<open>The query slot\<close>

text \<open>
  \<open>acquireDuckDB\<close>: a free slot is taken at once; otherwise the request waits until the slot is
  free, its context is cancelled or 30 seconds have passed.
\<close>

datatype acquired = Got | Cancelled | Busy

definition take_slot :: "duck \<Rightarrow> duck" where
  "take_slot dk = dk\<lparr>dk_slot := True\<rparr>"

definition free_slot :: "duck \<Rightarrow> duck" where
  "free_slot dk = dk\<lparr>dk_slot := False\<rparr>"

definition acquireDuckDB :: "acquired \<Rightarrow> duck \<Rightarrow> duck \<times> acquired" where
  \<comment> \<open>with the way the wait ends, if there is one\<close>
  "acquireDuckDB waited dk =
     (if \<not> dk_slot dk then (take_slot dk, Got)
      else if waited = Got then (take_slot dk, Got) else (dk, waited))"

section \<open>Requests side by side\<close>

text \<open>
  Requests run concurrently, each going through its phases: waiting for the slot, holding it
  before and after the connection is there, leaving. A query is a step of the request that
  holds the connection; a query with a fatal error resets the engine, and the request leaves.
\<close>

datatype phase = Idle | Waiting | Holding | Using nat | Leaving

type_synonym system = "duck \<times> (nat \<Rightarrow> phase)"

inductive duck_step :: "s3_config \<Rightarrow> system \<Rightarrow> system \<Rightarrow> bool" for cfg where
  Enter: "pc r = Idle \<Longrightarrow> \<not> dk_slot dk \<Longrightarrow> duck_step cfg (dk, pc) (take_slot dk, pc(r := Holding))"
| Wait: "pc r = Idle \<Longrightarrow> dk_slot dk \<Longrightarrow> duck_step cfg (dk, pc) (dk, pc(r := Waiting))"
| Wake: "pc r = Waiting \<Longrightarrow> \<not> dk_slot dk \<Longrightarrow> duck_step cfg (dk, pc) (take_slot dk, pc(r := Holding))"
| Give_up: "pc r = Waiting \<Longrightarrow> duck_step cfg (dk, pc) (dk, pc(r := Idle))"
| Init: "pc r = Holding \<Longrightarrow> initDuckDB cfg ie dk = (dk', res) \<Longrightarrow>
     duck_step cfg (dk, pc) (dk', pc(r := (case res of None \<Rightarrow> Leaving | Some c \<Rightarrow> Using c)))"
| Query: "pc r = Using c \<Longrightarrow> duck_step cfg (dk, pc) (maybeResetOnFatal err dk,
     pc(r := (if err = None then Using c else Leaving)))"
| Finish: "pc r = Using c \<Longrightarrow> duck_step cfg (dk, pc) (dk, pc(r := Leaving))"
| Leave: "pc r = Leaving \<Longrightarrow> duck_step cfg (dk, pc) (free_slot dk, pc(r := Idle))"

definition duck_reachable :: "s3_config \<Rightarrow> system \<Rightarrow> bool" where
  "duck_reachable cfg s \<longleftrightarrow> (duck_step cfg)\<^sup>*\<^sup>* (duck0, \<lambda>_. Idle) s"

end
