(* ===== verification/HistoricalQuery.thy ===== *)
theory HistoricalQuery
  imports DuckEngine
begin

text \<open>
  Historical analysis of \<open>internal/services/duckdb.go\<close>: the time range, the SQL text and the
  parameters built from a rule, the rows of the answer, and the request through the engine's
  slot. The answer of DuckDB to a query is a parameter. A row of the answer is a Go map; it is
  modelled as an association list without duplicate names, whose order means nothing.
\<close>

section \<open>Time range\<close>

datatype hist_error = InvalidEnd | InvalidStart | RequestCancelled | EngineBusy | InitFailed
  | InvalidGroupKey string | InvalidAggField string | InvalidAlias string | QueryFailed | RowsFailed

definition parseIST :: "string \<Rightarrow> instant option" where
  "parseIST ts =
     (let f = replace_first ''T'' '' '' ts
      in time_parse layout_datetime ist_offset (if length f = 16 then f @ '':00'' else f))"

definition week :: duration where
  "week = 7 * 24 * 3600 * 1000000000"

definition time_range :: "instant \<Rightarrow> string \<Rightarrow> string \<Rightarrow> hist_error + (instant \<times> instant)" where
  "time_range now start_ts end_ts =
     (case (if end_ts = [] then Some now else parseIST end_ts) of
        None \<Rightarrow> Inl InvalidEnd
      | Some e \<Rightarrow>
          (case (if start_ts = [] then Some (e - week) else parseIST start_ts) of
             None \<Rightarrow> Inl InvalidStart
           | Some s \<Rightarrow> Inr (s, e)))"

section \<open>Query text\<close>

definition trim_right_slashes :: "string \<Rightarrow> string" where
  "trim_right_slashes s = rev (dropWhile (\<lambda>c. c = CHR ''/'') (rev s))"

text \<open>The pattern the path is checked against when the process starts. A path that does not match is
  logged and used all the same.\<close>

definition path_char :: "char \<Rightarrow> bool" where
  "path_char c \<longleftrightarrow> is_lower c \<or> is_upper c \<or> is_digit c \<or> c \<in> set ''._/-''"

definition icebergS3PathRegex :: "string \<Rightarrow> bool" where
  "icebergS3PathRegex s \<longleftrightarrow> take 5 s = ''s3://'' \<and> List.drop 5 s \<noteq> [] \<and> list_all path_char (List.drop 5 s)"

definition iceberg_source :: "string \<Rightarrow> string" where
  "iceberg_source path =
     ''('' @ line_at 8 @ ''SELECT * FROM iceberg_scan('' @ quoted (trim_right_slashes path) @ '', allow_moved_paths => true)''
     @ line_at 8 @ ''QUALIFY row_number() OVER (PARTITION BY event_timestamp, authCode ORDER BY input_kafka_timestamp DESC NULLS LAST) = 1''
     @ line_at 4 @ '') AS stream_data''"

definition sub_map :: "row \<Rightarrow> string \<Rightarrow> row" where
  "sub_map r k = (case as_map (row_val r k) of None \<Rightarrow> [] | Some m \<Rightarrow> m)"

definition sub_list :: "row \<Rightarrow> string \<Rightarrow> gval list" where
  "sub_list r k = (case as_list (row_val r k) of None \<Rightarrow> [] | Some xs \<Rightarrow> xs)"

fun group_columns :: "unicode \<Rightarrow> (f64 \<Rightarrow> string) \<Rightarrow> gval list \<Rightarrow> hist_error + string list" where
  "group_columns u ff [] = Inr []"
| "group_columns u ff (k # ks) =
     (case validateIdentifier u (translateField (fmt_v ff k)) of
        None \<Rightarrow> Inl (InvalidGroupKey (fmt_v ff k))
      | Some c \<Rightarrow> map_sum id (\<lambda>cs. c # cs) (group_columns u ff ks))"

definition key_part :: "string \<Rightarrow> string" where
  "key_part c = ''COALESCE(CAST('' @ c @ '' AS VARCHAR), '' @ quoted ''N/A'' @ '')''"

text \<open>The select and the \<open>GROUP BY\<close> of the grouping keys.\<close>

definition group_sql :: "unicode \<Rightarrow> (f64 \<Rightarrow> string) \<Rightarrow> row \<Rightarrow> hist_error + (string \<times> string)" where
  "group_sql u ff rule =
     (let keys = sub_list (sub_map rule ''grouping'') ''keys''
      in if length keys = 1 \<and> fmt_v ff (hd keys) = ''__GLOBAL__''
         then Inr (quoted ''__GLOBAL__'' @ '' as groupKey'', ''GROUP BY window_start'')
         else case group_columns u ff keys of
           Inl e \<Rightarrow> Inl e
         | Inr cs \<Rightarrow> Inr (join ('' || '' @ quoted ''|'' @ '' || '') (map key_part cs) @ '' as groupKey'',
             ''GROUP BY window_start, '' @ join '', '' cs))"

definition agg_select :: "unicode \<Rightarrow> string \<Rightarrow> string \<Rightarrow> string \<Rightarrow> string" where
  "agg_select u fn field alias =
     (let f = un_upper u fn
      in if f = ''COUNT_DISTINCT'' then ''COUNT(DISTINCT '' @ field @ '') as '' @ alias
         else if f \<in> {''SUM'', ''AVG'', ''MIN'', ''MAX''} then f @ ''('' @ field @ '') as '' @ alias
         else ''COUNT('' @ field @ '') as '' @ alias)"

text \<open>The selects of the aggregations, with the aliases.\<close>

fun agg_sql :: "unicode \<Rightarrow> gval list \<Rightarrow> hist_error + (string \<times> string) list" where
  "agg_sql u [] = Inr []"
| "agg_sql u (a # aggs) =
     (case as_map a of
        None \<Rightarrow> agg_sql u aggs
      | Some agg \<Rightarrow>
          (case validateIdentifier u (translateField (row_str agg ''field'')) of
             None \<Rightarrow> Inl (InvalidAggField (row_str agg ''field''))
           | Some field \<Rightarrow>
               (case validateIdentifier u (row_str agg ''alias'') of
                  None \<Rightarrow> Inl (InvalidAlias (row_str agg ''alias''))
                | Some alias \<Rightarrow>
                    map_sum id (\<lambda>qs. (agg_select u (row_str agg ''function'') field alias, alias) # qs)
                      (agg_sql u aggs))))"

definition window_seconds :: "row \<Rightarrow> int" where
  "window_seconds rule =
     (let ms = (case row_val (sub_map rule ''windowing'') ''size_ms'' of GFloat f \<Rightarrow> f64_to_int64 f | _ \<Rightarrow> 300000);
          s = go_div ms 1000
      in if s < 1 then 1 else s)"

definition where_filter :: "unicode \<Rightarrow> (f64 \<Rightarrow> string) \<Rightarrow> row \<Rightarrow> sql" where
  "where_filter u ff rule =
     (case parseFilterNode u ff (sub_map rule ''filters'') of
        (q, ps) \<Rightarrow> (if q = [] then [] else ''AND '' @ q, ps))"

definition threshold_col :: "unicode \<Rightarrow> row \<Rightarrow> string list \<Rightarrow> string" where
  "threshold_col u rule aliases =
     (case parseHavingExpression u (row_str (sub_map rule ''having_thresholds'') ''expression'') (Some aliases) of
        None \<Rightarrow> '', false as threshold_met''
      | Some h \<Rightarrow>
          if h = [] then '', false as threshold_met''
          else '', CASE WHEN ('' @ h @ '') THEN true ELSE false END as threshold_met'')"

definition window_field :: string where
  "window_field = ''event_timestamp''"

definition range_where :: "nat \<Rightarrow> string" where
  "range_where n =
     line_at n @ ''WHERE try_cast('' @ window_field @ '' AS TIMESTAMP) >= try_cast(? AS TIMESTAMP)''
     @ line_at n @ ''AND try_cast('' @ window_field @ '' AS TIMESTAMP) <= try_cast(? AS TIMESTAMP)''"

definition analysis_sql ::
  "unicode \<Rightarrow> (f64 \<Rightarrow> string) \<Rightarrow> string \<Rightarrow> row \<Rightarrow> string \<Rightarrow> string \<Rightarrow> hist_error + sql" where
  "analysis_sql u ff source rule start_str end_str =
     (case group_sql u ff rule of
        Inl e \<Rightarrow> Inl e
      | Inr (keys, grp) \<Rightarrow>
          (case agg_sql u (sub_list rule ''aggregations'') of
             Inl e \<Rightarrow> Inl e
           | Inr aggs \<Rightarrow>
               (let (whr, ps) = where_filter u ff rule
                in Inr (line_at 8 @ ''SELECT'' @ line_at 12 @ ''time_bucket(INTERVAL '' @ quoted (show_int (window_seconds rule) @ '' seconds'')
                        @ '', try_cast('' @ window_field @ '' AS TIMESTAMP)) as window_start,''
                        @ line_at 12 @ keys @ '','' @ line_at 12 @ join '', '' (map fst aggs)
                        @ line_at 12 @ threshold_col u rule (map snd aggs)
                        @ line_at 8 @ ''FROM '' @ source @ range_where 8 @ line_at 8 @ whr @ line_at 8 @ grp
                        @ line_at 8 @ ''ORDER BY window_start DESC'' @ line_at 8 @ ''LIMIT 5000'' @ line_at 8,
                      [GStr start_str, GStr end_str] @ ps))))"

section \<open>Rows\<close>

text \<open>A scanned value: a time, a pointer to one, anything else.\<close>

datatype cell = CTime instant | CTimePtr "instant option" | CVal gval

definition format_ist :: "instant \<Rightarrow> string" where
  "format_ist t = format_datetime (t + ist_offset * 1000000000)"

fun hist_cell :: "cell \<Rightarrow> gval" where
  "hist_cell (CTime t) = GStr (format_ist t)"
| "hist_cell (CTimePtr None) = GNil"
| "hist_cell (CTimePtr (Some t)) = GStr (format_ist t)"
| "hist_cell (CVal v) = v"

definition make_row :: "(cell \<Rightarrow> gval) \<Rightarrow> string list \<Rightarrow> cell list \<Rightarrow> row" where
  "make_row conv cols vals = fold (\<lambda>(c, v) r. row_set c (conv v) r) (zip cols vals) []"

text \<open>What a query answers: the columns (or an error), the rows (\<open>None\<close> for one that fails to scan),
  an error at the end of the rows.\<close>

record answer =
  an_cols :: "string list option"
  an_rows :: "cell list option list"
  an_err :: "query_error option"

type_synonym 'a database = "string \<Rightarrow> gval list \<Rightarrow> query_error + 'a"

text \<open>The answer to a query for labels and counts, and to one for a single row of sums: no row
  (\<open>None\<close>), a row that fails to scan (\<open>Some None\<close>) or its values.\<close>

record label_answer =
  la_rows :: "(string \<times> int) option list"
  la_err :: "query_error option"

type_synonym sums_answer = "gval list option option"

definition analysis_rows :: "answer \<Rightarrow> hist_error + row list" where
  "analysis_rows a =
     (case an_cols a of
        None \<Rightarrow> Inl RowsFailed
      | Some cols \<Rightarrow>
          if an_err a \<noteq> None then Inl RowsFailed
          else Inr (map (make_row hist_cell cols) (List.map_filter id (an_rows a))))"

section \<open>The request\<close>

record hist_env =
  he_now :: instant
  he_wait :: acquired
  he_init :: init_env
  he_db :: "answer database"
  he_labels :: "label_answer database"
  he_sums :: "sums_answer database"

record hist_config =
  hc_s3 :: s3_config
  hc_path :: string

record prepared =
  pr_source :: string
  pr_start :: string
  pr_end :: string

definition prepareIcebergQuery ::
  "hist_config \<Rightarrow> hist_env \<Rightarrow> string \<Rightarrow> string \<Rightarrow> duck \<Rightarrow> duck \<times> (hist_error + prepared)" where
  "prepareIcebergQuery cfg env start_ts end_ts dk =
     (case time_range (he_now env) start_ts end_ts of
        Inl e \<Rightarrow> (dk, Inl e)
      | Inr (s, e) \<Rightarrow>
          (case acquireDuckDB (he_wait env) dk of
             (dk1, Cancelled) \<Rightarrow> (dk1, Inl RequestCancelled)
           | (dk1, Busy) \<Rightarrow> (dk1, Inl EngineBusy)
           | (dk1, Got) \<Rightarrow>
               (case initDuckDB (hc_s3 cfg) (he_init env) dk1 of
                  (dk2, None) \<Rightarrow> (free_slot dk2, Inl InitFailed)
                | (dk2, Some c) \<Rightarrow>
                    (dk2, Inr \<lparr>pr_source = iceberg_source (hc_path cfg), pr_start = format_datetime s,
                       pr_end = format_datetime e\<rparr>))))"

text \<open>One query: a fatal error resets the engine.\<close>

definition run_query :: "'a database \<Rightarrow> string \<Rightarrow> gval list \<Rightarrow> duck \<Rightarrow> duck \<times> (hist_error + 'a)" where
  "run_query db q ps dk =
     (case db q ps of
        Inl err \<Rightarrow> (maybeResetOnFatal (Some err) dk, Inl QueryFailed)
      | Inr a \<Rightarrow> (dk, Inr a))"

definition runHistoricalAnalysis ::
  "unicode \<Rightarrow> (f64 \<Rightarrow> string) \<Rightarrow> hist_config \<Rightarrow> hist_env \<Rightarrow> row \<Rightarrow> string \<Rightarrow> string \<Rightarrow> duck \<Rightarrow>
    duck \<times> (hist_error + row list)" where
  "runHistoricalAnalysis u ff cfg env rule start_ts end_ts dk =
     (case prepareIcebergQuery cfg env start_ts end_ts dk of
        (dk1, Inl e) \<Rightarrow> (dk1, Inl e)
      | (dk1, Inr p) \<Rightarrow>
          (let (dk2, res) =
             (case analysis_sql u ff (pr_source p) rule (pr_start p) (pr_end p) of
                Inl e \<Rightarrow> (dk1, Inl e)
              | Inr (q, ps) \<Rightarrow>
                  (case run_query (he_db env) q ps dk1 of
                     (dk2, Inl e) \<Rightarrow> (dk2, Inl e)
                   | (dk2, Inr a) \<Rightarrow> (dk2, analysis_rows a)))
           in (free_slot dk2, res)))"

section \<open>Breakdown\<close>

definition modalityBreakdownCols :: "(string \<times> string) list" where
  "modalityBreakdownCols =
     (let dash = '' '' @ bytes [226, 128, 148] @ '' ''
      in [(''OTP'', ''otpusedflag''), (''PIN'', ''pinusedflag''),
          (''Biometric'' @ dash @ ''Fingerprint'', ''btfmrusedflag''), (''Biometric'' @ dash @ ''Iris'', ''btiirusedflag''),
          (''Face'', ''faceused''), (''Demographic'', ''piusedflag'')])"

definition base_where :: "string \<Rightarrow> string" where
  "base_where whr =
     tab_at 2 @ ''WHERE try_cast('' @ window_field @ '' AS TIMESTAMP) >= try_cast(? AS TIMESTAMP)''
     @ tab_at 2 @ ''AND try_cast('' @ window_field @ '' AS TIMESTAMP) <= try_cast(? AS TIMESTAMP)''
     @ tab_at 2 @ whr"

definition category_sql :: "string \<Rightarrow> string \<Rightarrow> string \<Rightarrow> string" where
  "category_sql col source whr =
     ''SELECT COALESCE('' @ col @ '', '' @ quoted ''UNKNOWN'' @ '') AS label, COUNT(*) AS count FROM '' @ source @ '' ''
     @ base_where whr @ ''  GROUP BY 1 ORDER BY count DESC LIMIT 10''"

definition modality_sql :: "string \<Rightarrow> string \<Rightarrow> string" where
  "modality_sql source whr =
     ''SELECT '' @ join '', '' (map (\<lambda>(l, c). ''CAST(COALESCE(SUM('' @ c @ ''),0) AS BIGINT) AS '' @ c) modalityBreakdownCols)
     @ '' FROM '' @ source @ '' '' @ base_where whr"

definition score_sql :: "string \<Rightarrow> string \<Rightarrow> string" where
  "score_sql source whr =
     tab_at 2 @ ''SELECT CAST(bucket_start AS VARCHAR) || '' @ quoted ''-'' @ '' || CAST(bucket_start + 10 AS VARCHAR) AS label, COUNT(*) AS count''
     @ tab_at 2 @ ''FROM ('' @ tab_at 3 @ ''SELECT FLOOR(fingermatchscore / 10) * 10 AS bucket_start''
     @ tab_at 3 @ ''FROM '' @ source @ tab_at 3 @ base_where whr @ tab_at 3 @ ''AND fingermatchscore IS NOT NULL''
     @ tab_at 2 @ '') t'' @ tab_at 2 @ ''GROUP BY bucket_start'' @ tab_at 2 @ ''ORDER BY bucket_start''"

definition label_row :: "string \<Rightarrow> int \<Rightarrow> gval" where
  "label_row l n = GMap [(''label'', GStr l), (''count'', GInt n)]"

text \<open>A slice of rows in JSON: a slice nothing was appended to is nil.\<close>

definition slice :: "gval list \<Rightarrow> gval" where
  "slice xs = (if xs = [] then GNil else GList xs)"

definition label_rows :: "label_answer \<Rightarrow> hist_error + gval" where
  "label_rows a =
     (case those (la_rows a) of
        None \<Rightarrow> Inl RowsFailed
      | Some rows \<Rightarrow>
          if la_err a \<noteq> None then Inl RowsFailed else Inr (slice (map (\<lambda>(l, n). label_row l n) rows)))"

text \<open>Without a row of sums nothing is reported: the list stays nil.\<close>

definition modality_rows :: "sums_answer \<Rightarrow> hist_error + gval" where
  "modality_rows a =
     (case a of
        None \<Rightarrow> Inr GNil
      | Some None \<Rightarrow> Inl RowsFailed
      | Some (Some vals) \<Rightarrow>
          Inr (slice (map (\<lambda>((l, c), v). label_row l (case v of GInt n \<Rightarrow> n | _ \<Rightarrow> 0)) (zip modalityBreakdownCols vals))))"

definition query_rows ::
  "'a database \<Rightarrow> ('a \<Rightarrow> hist_error + gval) \<Rightarrow> string \<Rightarrow> gval list \<Rightarrow> duck \<Rightarrow> duck \<times> (hist_error + gval)" where
  "query_rows db conv q ps dk =
     (case run_query db q ps dk of
        (dk', Inl e) \<Rightarrow> (dk', Inl e)
      | (dk', Inr a) \<Rightarrow> (dk', conv a))"

text \<open>The four queries in turn; the first failure ends the breakdown.\<close>

fun run_all :: "(string \<times> (duck \<Rightarrow> duck \<times> (hist_error + gval))) list \<Rightarrow> duck \<Rightarrow> duck \<times> (hist_error + row)" where
  "run_all [] dk = (dk, Inr [])"
| "run_all ((name, q) # qs) dk =
     (case q dk of
        (dk', Inl e) \<Rightarrow> (dk', Inl e)
      | (dk', Inr v) \<Rightarrow> (case run_all qs dk' of (dk'', r) \<Rightarrow> (dk'', map_sum id (\<lambda>kvs. (name, v) # kvs) r)))"

definition breakdown_queries ::
  "hist_env \<Rightarrow> string \<Rightarrow> string \<Rightarrow> gval list \<Rightarrow> (string \<times> (duck \<Rightarrow> duck \<times> (hist_error + gval))) list" where
  "breakdown_queries env source whr ps =
     [(''modality_mix'', query_rows (he_sums env) modality_rows (modality_sql source whr) ps),
      (''auth_outcome'', query_rows (he_labels env) label_rows (category_sql ''authresult'' source whr) ps),
      (''geo_hotspot'', query_rows (he_labels env) label_rows (category_sql ''locationstatecode'' source whr) ps),
      (''match_score_histogram'', query_rows (he_labels env) label_rows (score_sql source whr) ps)]"

definition runHistoricalBreakdown ::
  "unicode \<Rightarrow> (f64 \<Rightarrow> string) \<Rightarrow> hist_config \<Rightarrow> hist_env \<Rightarrow> row \<Rightarrow> string \<Rightarrow> string \<Rightarrow> duck \<Rightarrow>
    duck \<times> (hist_error + row)" where
  "runHistoricalBreakdown u ff cfg env rule start_ts end_ts dk =
     (case prepareIcebergQuery cfg env start_ts end_ts dk of
        (dk1, Inl e) \<Rightarrow> (dk1, Inl e)
      | (dk1, Inr p) \<Rightarrow>
          (let (whr, ps) = where_filter u ff rule;
               (dk2, res) = run_all (breakdown_queries env (pr_source p) whr
                 ([GStr (pr_start p), GStr (pr_end p)] @ ps)) dk1
           in (free_slot dk2, res)))"

end
