(* ===== verification/ClickHouse.thy ===== *)
theory ClickHouse
  imports Filters
begin

text \<open>
  \<open>internal/services/clickhouse.go\<close>: the shared connection pool with its retry and reset, the
  five queries, the conversion of their rows, the readiness check. What ClickHouse answers to a
  ping and to a query is a parameter (\<open>ch_env\<close>); the model keeps the pools that were opened and
  not closed, and the error counters.
\<close>

section \<open>State and environment\<close>

datatype ch_error = InvalidTable | Unavailable | BadRows

record ch_state =
  ch_db :: "nat option"
  ch_pools :: "nat set"
  ch_fresh :: nat
  ch_errors :: "(string \<times> string) list"

definition ch_start :: ch_state where
  "ch_start = \<lparr>ch_db = None, ch_pools = {}, ch_fresh = 0, ch_errors = []\<rparr>"

text \<open>A scanned value: a time with the offset of its zone, a pointer to one, a number of the
  driver's types, anything else.\<close>

datatype ch_val = ChTime instant int | ChTimePtr "(instant \<times> int) option" | ChInt64 int | ChUint64 int
  | ChInt32 int | ChUint32 int | ChFloat f64 | ChOther gval

text \<open>An answer: the columns, the rows (\<open>None\<close> for one that fails to scan), whether the iteration
  ends with an error. The rows of the ranking have four columns.\<close>

record ch_answer =
  ca_cols :: "string list"
  ca_rows :: "ch_val list option list"
  ca_failed :: bool

record group_row =
  gr_key :: gval
  gr_total :: ch_val
  gr_breached :: ch_val
  gr_last :: ch_val

record group_answer =
  ga_rows :: "group_row option list"
  ga_failed :: bool

record ch_env =
  ce_ping :: bool
  ce_pool_ping :: bool
  ce_err :: string
  ce_rows :: "string \<Rightarrow> gval list \<Rightarrow> ch_answer option"
  ce_groups :: "string \<Rightarrow> gval list \<Rightarrow> group_answer option"

section \<open>The pool\<close>

definition valid_table :: "string \<Rightarrow> bool" where
  "valid_table s \<longleftrightarrow> s \<noteq> [] \<and> ident_start (hd s) \<and> list_all ident_char (tl s)"

definition getClickHouseDB :: "string \<Rightarrow> ch_env \<Rightarrow> ch_state \<Rightarrow> ch_state \<times> (ch_error + nat)" where
  "getClickHouseDB table env st =
     (case ch_db st of
        Some d \<Rightarrow> (st, Inr d)
      | None \<Rightarrow>
          if \<not> valid_table table then (st, Inl InvalidTable)
          else
            let n = ch_fresh st;
                opened = st\<lparr>ch_fresh := Suc n, ch_pools := insert n (ch_pools st)\<rparr>
            in if \<not> ce_ping env then (opened, Inl Unavailable)
               else (opened\<lparr>ch_db := Some n\<rparr>, Inr n))"

definition closeClickHouse :: "ch_state \<Rightarrow> ch_state" where
  "closeClickHouse st =
     (case ch_db st of None \<Rightarrow> st | Some d \<Rightarrow> st\<lparr>ch_pools := ch_pools st - {d}, ch_db := None\<rparr>)"

definition resetClickHouseConn :: "ch_state \<Rightarrow> ch_state" where
  "resetClickHouseConn st =
     (case ch_db st of None \<Rightarrow> st | Some d \<Rightarrow> st\<lparr>ch_pools := ch_pools st - {d}\<rparr>)\<lparr>ch_db := None\<rparr>"

definition isReady :: "string \<Rightarrow> ch_env \<Rightarrow> ch_state \<Rightarrow> ch_state \<times> string option" where
  \<comment> \<open>the reason for not being ready, if any\<close>
  "isReady table env st =
     (case getClickHouseDB table env st of
        (st1, Inl InvalidTable) \<Rightarrow> (st1, Some ''clickhouse unavailable: invalid clickhouse table name'')
      | (st1, Inl _) \<Rightarrow>
          (st1, Some (''clickhouse unavailable: clickhouse is temporarily unavailable: '' @ ce_err env))
      | (st1, Inr d) \<Rightarrow>
          if ce_pool_ping env then (st1, None)
          else (resetClickHouseConn st1, Some (''clickhouse ping failed: '' @ ce_err env)))"

text \<open>A query: any error of it resets the pool and counts as an outage.\<close>

definition ask ::
  "string \<Rightarrow> ch_env \<Rightarrow> (string \<Rightarrow> gval list \<Rightarrow> 'a option) \<Rightarrow> string \<Rightarrow> gval list \<Rightarrow> ch_state \<Rightarrow>
    ch_state \<times> (ch_error + 'a)" where
  "ask table env db q args st =
     (case getClickHouseDB table env st of
        (st1, Inl e) \<Rightarrow> (st1, Inl e)
      | (st1, Inr d) \<Rightarrow>
          (case db q args of
             None \<Rightarrow> (resetClickHouseConn st1, Inl Unavailable)
           | Some a \<Rightarrow> (st1, Inr a)))"

section \<open>Rows\<close>

definition format_in_zone :: "instant \<Rightarrow> int \<Rightarrow> string" where
  "format_in_zone t z = format_datetime (t + z * 1000000000)"

fun ch_cell :: "ch_val \<Rightarrow> gval" where
  "ch_cell (ChTime t z) = GStr (format_in_zone t z)"
| "ch_cell (ChTimePtr None) = GNil"
| "ch_cell (ChTimePtr (Some (t, z))) = GStr (format_in_zone t z)"
| "ch_cell (ChInt64 n) = GInt n"
| "ch_cell (ChUint64 n) = GInt n"
| "ch_cell (ChInt32 n) = GInt n"
| "ch_cell (ChUint32 n) = GInt n"
| "ch_cell (ChFloat f) = GFloat f"
| "ch_cell (ChOther v) = v"

definition expand_json :: "(string \<Rightarrow> gval option) \<Rightarrow> string \<Rightarrow> row \<Rightarrow> row" where
  "expand_json jdec k row =
     (case as_str (row_val row k) of
        None \<Rightarrow> row
      | Some s \<Rightarrow> if s = [] then row else case jdec s of None \<Rightarrow> row | Some v \<Rightarrow> row_set k v row)"

definition ch_row :: "(string \<Rightarrow> gval option) \<Rightarrow> string list \<Rightarrow> ch_val list \<Rightarrow> row" where
  "ch_row jdec cols vals =
     expand_json jdec ''aggregationResults''
       (expand_json jdec ''aggResult'' (fold (\<lambda>(c, v) r. row_set c (ch_cell v) r) (zip cols vals) []))"

definition rowsToMaps :: "(string \<Rightarrow> gval option) \<Rightarrow> ch_answer \<Rightarrow> ch_error + row list" where
  "rowsToMaps jdec a =
     (case those (ca_rows a) of
        None \<Rightarrow> Inl BadRows
      | Some rows \<Rightarrow> if ca_failed a then Inl BadRows else Inr (map (ch_row jdec (ca_cols a)) rows))"

definition row_group :: "row \<Rightarrow> string" where
  "row_group r = (let rid = row_str r ''ruleId'' in if rid = [] then ''unknown'' else rid)"

fun group_by_rule :: "row list \<Rightarrow> (string \<rightharpoonup> row list) \<Rightarrow> (string \<rightharpoonup> row list)" where
  "group_by_rule [] g = g"
| "group_by_rule (r # rs) g = group_by_rule rs (g(row_group r \<mapsto> rows_at g (row_group r) @ [r]))"

fun toInt64 :: "ch_val \<Rightarrow> int" where
  "toInt64 (ChInt64 n) = n"
| "toInt64 (ChUint64 n) = wrap64 n"
| "toInt64 (ChInt32 n) = n"
| "toInt64 (ChUint32 n) = n"
| "toInt64 (ChFloat f) = f64_to_int64 f"
| "toInt64 _ = 0"

record group_summary =
  gs_key :: string
  gs_total :: int
  gs_breached :: int
  gs_rate :: f64
  gs_last :: string

text \<open>\<open>pct b n\<close> stands for \<open>float64(b) / float64(n) * 100\<close>.\<close>

definition summary :: "(f64 \<Rightarrow> string) \<Rightarrow> (int \<Rightarrow> int \<Rightarrow> f64) \<Rightarrow> group_row \<Rightarrow> group_summary" where
  "summary ff pct r =
     (let n = toInt64 (gr_total r); b = toInt64 (gr_breached r)
      in \<lparr>gs_key = fmt_v ff (gr_key r), gs_total = n, gs_breached = b,
          gs_rate = (if 0 < n then pct b n else 0),
          gs_last = (case gr_last r of ChTime t z \<Rightarrow> format_in_zone t z | _ \<Rightarrow> [])\<rparr>)"

definition group_rows ::
  "(f64 \<Rightarrow> string) \<Rightarrow> (int \<Rightarrow> int \<Rightarrow> f64) \<Rightarrow> group_answer \<Rightarrow> ch_error + group_summary list" where
  "group_rows ff pct a =
     (case those (ga_rows a) of
        None \<Rightarrow> Inl BadRows
      | Some rows \<Rightarrow> if ga_failed a then Inl BadRows else Inr (map (summary ff pct) rows))"

section \<open>Queries\<close>

fun more_placeholders :: "nat \<Rightarrow> string \<Rightarrow> string" where
  "more_placeholders 0 s = s"
| "more_placeholders (Suc n) s = more_placeholders n (s @ '', ?'')"

definition placeholders :: "nat \<Rightarrow> string" where
  "placeholders n = (if n = 0 then [] else more_placeholders (n - 1) ''?'')"

definition live_sql :: "string \<Rightarrow> string" where
  "live_sql table = ''SELECT * FROM '' @ table @ '' FINAL'' @ tab_at 2 @ ''WHERE ruleId = ?''
     @ tab_at 2 @ ''ORDER BY windowStart DESC'' @ tab_at 2 @ ''LIMIT ?''"

definition multi_sql :: "string \<Rightarrow> nat \<Rightarrow> string" where
  "multi_sql table n = ''SELECT * FROM '' @ table @ '' FINAL'' @ tab_at 3
     @ (if 0 < n then ''WHERE ruleId IN ('' @ placeholders n @ '')'' @ tab_at 3 @ ''AND '' else ''WHERE '')
     @ ''windowStart >= now() - INTERVAL ? HOUR'' @ tab_at 3 @ ''ORDER BY windowStart DESC'' @ tab_at 3 @ ''LIMIT 5000''"

definition between :: "nat \<Rightarrow> string" where
  "between n = tab_at n @ ''AND windowStart >= parseDateTimeBestEffort(?)''
     @ tab_at n @ ''AND windowStart <= parseDateTimeBestEffort(?)''"

definition agg_range_sql :: "string \<Rightarrow> nat \<Rightarrow> string" where
  "agg_range_sql table n = ''SELECT * FROM '' @ table @ '' FINAL'' @ tab_at 2 @ ''WHERE ruleId IN ('' @ placeholders n @ '')''
     @ between 2 @ tab_at 2 @ ''ORDER BY windowStart DESC'' @ tab_at 2 @ ''LIMIT 5000''"

definition top_groups_sql :: "string \<Rightarrow> string" where
  "top_groups_sql table = tab_at 2 @ ''SELECT'' @ tab_at 3 @ ''groupKey,'' @ tab_at 3 @ ''count() AS totalWindows,''
     @ tab_at 3 @ ''sum(thresholdBreached) AS breachedWindows,'' @ tab_at 3 @ ''max(windowEnd) AS lastSeen''
     @ tab_at 2 @ ''FROM '' @ table @ '' FINAL'' @ tab_at 2 @ ''WHERE ruleId = ?'' @ between 3
     @ tab_at 2 @ ''GROUP BY groupKey'' @ tab_at 2 @ ''ORDER BY breachedWindows DESC, totalWindows DESC''
     @ tab_at 2 @ ''LIMIT ? OFFSET ?''"

definition detail_sql :: "string \<Rightarrow> string" where
  "detail_sql table = ''SELECT * FROM '' @ table @ '' FINAL'' @ tab_at 2 @ ''WHERE ruleId = ? AND groupKey = ?''
     @ between 3 @ tab_at 2 @ ''ORDER BY windowStart DESC'' @ tab_at 2 @ ''LIMIT 2000''"

definition chErrorClass :: "ch_error \<Rightarrow> string" where
  "chErrorClass e = (if e = Unavailable then ''unavailable'' else ''query_error'')"

text \<open>The wrapper of every query counts its errors.\<close>

definition metered :: "string \<Rightarrow> ch_state \<times> (ch_error + 'a) \<Rightarrow> ch_state \<times> (ch_error + 'a)" where
  "metered name res =
     (case res of
        (st, Inl e) \<Rightarrow> (st\<lparr>ch_errors := ch_errors st @ [(name, chErrorClass e)]\<rparr>, Inl e)
      | (st, Inr a) \<Rightarrow> (st, Inr a))"

definition converted :: "('a \<Rightarrow> ch_error + 'b) \<Rightarrow> ch_state \<times> (ch_error + 'a) \<Rightarrow> ch_state \<times> (ch_error + 'b)" where
  "converted f res = (case res of (st, Inl e) \<Rightarrow> (st, Inl e) | (st, Inr a) \<Rightarrow> (st, f a))"

record ch_lib =
  cl_table :: string
  cl_json :: "string \<Rightarrow> gval option"
  cl_float :: "f64 \<Rightarrow> string"
  cl_pct :: "int \<Rightarrow> int \<Rightarrow> f64"

definition getLiveResults :: "ch_lib \<Rightarrow> ch_env \<Rightarrow> string \<Rightarrow> int \<Rightarrow> ch_state \<Rightarrow> ch_state \<times> (ch_error + row list)" where
  "getLiveResults lib env rid limit st =
     metered ''live_results'' (converted (rowsToMaps (cl_json lib))
       (ask (cl_table lib) env (ce_rows env) (live_sql (cl_table lib)) [GStr rid, GInt limit] st))"

definition getLiveResultsMulti ::
  "ch_lib \<Rightarrow> ch_env \<Rightarrow> string list \<Rightarrow> int \<Rightarrow> ch_state \<Rightarrow> ch_state \<times> (ch_error + (string \<rightharpoonup> row list))" where
  "getLiveResultsMulti lib env rids hours st =
     metered ''live_results_multi''
       (converted (\<lambda>a. map_sum id (\<lambda>rows. group_by_rule rows Map.empty) (rowsToMaps (cl_json lib) a))
         (ask (cl_table lib) env (ce_rows env) (multi_sql (cl_table lib) (length rids)) (map GStr rids @ [GInt hours]) st))"

definition getAggResults ::
  "ch_lib \<Rightarrow> ch_env \<Rightarrow> string list \<Rightarrow> string \<Rightarrow> string \<Rightarrow> ch_state \<Rightarrow> ch_state \<times> (ch_error + (string \<rightharpoonup> row list))" where
  "getAggResults lib env rids start_ts end_ts st =
     (if rids = [] then (st, Inr Map.empty)
      else metered ''agg_results''
        (converted (\<lambda>a. map_sum id (\<lambda>rows. group_by_rule rows Map.empty) (rowsToMaps (cl_json lib) a))
          (ask (cl_table lib) env (ce_rows env) (agg_range_sql (cl_table lib) (length rids))
            (map GStr rids @ [GStr start_ts, GStr end_ts]) st)))"

definition getTopGroups ::
  "ch_lib \<Rightarrow> ch_env \<Rightarrow> string \<Rightarrow> string \<Rightarrow> string \<Rightarrow> int \<Rightarrow> int \<Rightarrow> ch_state \<Rightarrow>
    ch_state \<times> (ch_error + group_summary list)" where
  "getTopGroups lib env rid start_ts end_ts limit offset st =
     metered ''top_groups'' (converted (group_rows (cl_float lib) (cl_pct lib))
       (ask (cl_table lib) env (ce_groups env) (top_groups_sql (cl_table lib))
         [GStr rid, GStr start_ts, GStr end_ts, GInt limit, GInt offset] st))"

definition getGroupDetail ::
  "ch_lib \<Rightarrow> ch_env \<Rightarrow> string \<Rightarrow> string \<Rightarrow> string \<Rightarrow> string \<Rightarrow> ch_state \<Rightarrow> ch_state \<times> (ch_error + row list)" where
  "getGroupDetail lib env rid key start_ts end_ts st =
     metered ''group_detail'' (converted (rowsToMaps (cl_json lib))
       (ask (cl_table lib) env (ce_rows env) (detail_sql (cl_table lib))
         [GStr rid, GStr key, GStr start_ts, GStr end_ts] st))"

end
