(* ===== verification/ConnPool.thy ===== *)
theory ConnPool
  imports Prelude
begin

text \<open>
  What the connection holders of MySQL, ClickHouse, DuckDB and Kafka share: a handle that is created
  on first use, kept, and dropped on a reset. \<open>handle\<close> is the handle in use, \<open>get\<close> returns it or tries
  to create it in an environment, \<open>reset\<close> drops it. Who resets, and when, is the business of each
  component: ClickHouse after any failed query or ping, DuckDB after an error that means a dead
  connection, MySQL only in its readiness check, the producer only at the end of the process.
\<close>

locale conn_pool =
  fixes handle :: "'s \<Rightarrow> nat option"
    and get :: "'e \<Rightarrow> 's \<Rightarrow> 's \<times> nat option"
    and reset :: "'s \<Rightarrow> 's"
  assumes get_kept: "handle s = Some d \<Longrightarrow> get e s = (s, Some d)"
    and get_result: "get e s = (s', r) \<Longrightarrow> handle s' = r"
    and reset_drops: "handle (reset s) = None"
begin

text \<open>Any number of callers that find a handle share it and leave the state as it is.\<close>

lemma gets_kept: "handle s = Some d \<Longrightarrow> fold (\<lambda>e s. fst (get e s)) es s = s"
  by (induction es) (simp_all add: get_kept)

text \<open>What a caller got, everybody gets, until somebody resets.\<close>

lemma get_shared: "get e s = (s', Some d) \<Longrightarrow> get e' s' = (s', Some d)"
  by (rule get_kept, rule get_result)

text \<open>What is in use is what the last caller got, or nothing if it was a reset.\<close>

lemma handle_of_last: "handle (case op of None \<Rightarrow> reset s | Some e \<Rightarrow> fst (get e s)) = (case op of None \<Rightarrow> None | Some e \<Rightarrow> snd (get e s))"
  by (cases op) (simp_all add: reset_drops get_result split: prod.split)

lemma handle_of_history:
  "ops \<noteq> [] \<Longrightarrow> handle (fold (\<lambda>op s. case op of None \<Rightarrow> reset s | Some e \<Rightarrow> fst (get e s)) ops s) =
    (case last ops of None \<Rightarrow> None
     | Some e \<Rightarrow> snd (get e (fold (\<lambda>op s. case op of None \<Rightarrow> reset s | Some e \<Rightarrow> fst (get e s)) (butlast ops) s)))"
  by (induction ops rule: rev_induct) (simp_all add: handle_of_last split: option.split)

end

end
