(* ===== verification/MySQL.thy ===== *)
theory MySQL
  imports ConnPool GoText
begin

text \<open>
  \<open>internal/services/mysql.go\<close>: the connection pool of the identity and rule tables, the readiness
  and schema checks, the errors tolerated as a missing table. What the server answers is a
  parameter.
\<close>

section \<open>Pool\<close>

record my_config =
  mc_user :: string
  mc_password :: string
  mc_host :: string
  mc_port :: int
  mc_database :: string

definition mysqlDSN :: "my_config \<Rightarrow> string" where
  "mysqlDSN c = mc_user c @ '':'' @ mc_password c @ ''@tcp('' @ mc_host c @ '':'' @ show_int (mc_port c) @ '')/''
     @ mc_database c @ ''?parseTime=true&charset=utf8mb4''"

record my_state =
  my_db :: "nat option"
  my_pools :: "nat set"
  my_fresh :: nat

definition my_start :: my_state where
  "my_start = \<lparr>my_db = None, my_pools = {}, my_fresh = 0\<rparr>"

text \<open>Whether the DSN opens, the first ping, the ping of a pool in use, the text of an error, the
  tables (\<open>None\<close> if the listing fails).\<close>

record my_env =
  me_open :: bool
  me_ping :: bool
  me_pool_ping :: bool
  me_err :: string
  me_tables :: "string list option"

definition getMySQLDB :: "my_env \<Rightarrow> my_state \<Rightarrow> my_state \<times> nat option" where
  "getMySQLDB env st =
     (case my_db st of
        Some d \<Rightarrow> (st, Some d)
      | None \<Rightarrow>
          if \<not> me_open env then (st, None)
          else
            let n = my_fresh st;
                opened = st\<lparr>my_fresh := Suc n, my_pools := insert n (my_pools st)\<rparr>
            in if \<not> me_ping env then (opened\<lparr>my_pools := my_pools opened - {n}\<rparr>, None)
               else (opened\<lparr>my_db := Some n\<rparr>, Some n))"

definition resetMySQLConn :: "my_state \<Rightarrow> my_state" where
  "resetMySQLConn st =
     (case my_db st of None \<Rightarrow> st | Some d \<Rightarrow> st\<lparr>my_pools := my_pools st - {d}\<rparr>)\<lparr>my_db := None\<rparr>"

definition closeMySQL :: "my_state \<Rightarrow> my_state" where
  "closeMySQL st = (case my_db st of None \<Rightarrow> st | Some d \<Rightarrow> st\<lparr>my_pools := my_pools st - {d}, my_db := None\<rparr>)"

definition isMySQLReady :: "my_env \<Rightarrow> my_state \<Rightarrow> my_state \<times> string option" where
  \<comment> \<open>the reason for not being ready, if any; a failed first ping is reported with its wrapping\<close>
  "isMySQLReady env st =
     (case getMySQLDB env st of
        (st1, None) \<Rightarrow> (st1, Some (if me_open env then ''mysql ping failed: '' @ me_err env else me_err env))
      | (st1, Some d) \<Rightarrow> if me_pool_ping env then (st1, None) else (resetMySQLConn st1, Some (me_err env)))"

text \<open>The numbers of the pool for the metrics: zero before the first use.\<close>

definition mysqlPoolStats :: "'a \<Rightarrow> (nat \<Rightarrow> 'a) \<Rightarrow> my_state \<Rightarrow> 'a" where
  "mysqlPoolStats zero stats st = (case my_db st of None \<Rightarrow> zero | Some d \<Rightarrow> stats d)"

section \<open>Schema\<close>

definition requiredTables :: "string list" where
  "requiredTables =
     [''users'', ''roles'', ''permissions'', ''user_roles'', ''role_permissions'', ''audit_log'',
      ''rules'', ''window_configs'', ''sink_configs'', ''aggregation_specs'', ''breach_conditions'']"

datatype schema_result = SchemaOk | MissingTables "string list" | SchemaUnknown

definition verifyMySQLSchema :: "my_env \<Rightarrow> my_state \<Rightarrow> my_state \<times> schema_result" where
  "verifyMySQLSchema env st =
     (case getMySQLDB env st of
        (st1, None) \<Rightarrow> (st1, SchemaUnknown)
      | (st1, Some d) \<Rightarrow>
          (st1, case me_tables env of
             None \<Rightarrow> SchemaUnknown
           | Some found \<Rightarrow>
               (let missing = filter (\<lambda>t. t \<notin> set found) requiredTables
                in if missing = [] then SchemaOk else MissingTables missing)))"

text \<open>The error numbers taken for a table or column that is not there; \<open>None\<close> is an error that is not
  the server's.\<close>

definition isMissingSchemaError :: "nat option \<Rightarrow> bool" where
  "isMissingSchemaError err \<longleftrightarrow> err = Some 1146 \<or> err = Some 1054"

section \<open>Properties\<close>

interpretation mysql: conn_pool my_db getMySQLDB resetMySQLConn
  by unfold_locales
    (auto simp: getMySQLDB_def resetMySQLConn_def Let_def split: option.splits if_splits)

definition my_inv :: "my_state \<Rightarrow> bool" where
  "my_inv st \<longleftrightarrow> my_pools st = set_option (my_db st) \<and> (\<forall>p \<in> my_pools st. p < my_fresh st)"

lemma my_inv_get: "my_inv st \<Longrightarrow> my_inv (fst (getMySQLDB env st))"
  by (auto simp: my_inv_def getMySQLDB_def Let_def split: option.split)

lemma my_inv_reset: "my_inv st \<Longrightarrow> my_inv (resetMySQLConn st)"
  by (auto simp: my_inv_def resetMySQLConn_def split: option.split)

lemma my_inv_close: "my_inv st \<Longrightarrow> my_inv (closeMySQL st)"
  by (auto simp: my_inv_def closeMySQL_def split: option.split)

lemma my_inv_ready: "my_inv st \<Longrightarrow> my_inv (fst (isMySQLReady env st))"
  using my_inv_get [of st env] by (auto simp: isMySQLReady_def my_inv_reset split: prod.split option.split)

lemma my_inv_verify: "my_inv st \<Longrightarrow> my_inv (fst (verifyMySQLSchema env st))"
  using my_inv_get [of st env] by (auto simp: verifyMySQLSchema_def split: prod.split option.split)

text \<open>The schema check passes exactly if every required table is there; otherwise it names the
  missing ones, all of them, in their order, and no other. Whatever it and the readiness check
  meet, at most the pool in use is open afterwards.\<close>

theorem schema_check_exact:
  assumes "my_inv st" and "my_db st \<noteq> None \<or> me_open env \<and> me_ping env" and "me_tables env = Some found"
  shows "(snd (verifyMySQLSchema env st) = SchemaOk \<longleftrightarrow> set requiredTables \<subseteq> set found) \<and>
    (\<forall>ms. snd (verifyMySQLSchema env st) = MissingTables ms \<longrightarrow>
       ms \<noteq> [] \<and> ms = filter (\<lambda>t. t \<notin> set found) requiredTables) \<and>
    my_pools (fst (verifyMySQLSchema env st)) = set_option (my_db (fst (verifyMySQLSchema env st))) \<and>
    my_pools (fst (isMySQLReady env st)) = set_option (my_db (fst (isMySQLReady env st)))"
proof -
  have "\<exists>st1 d. getMySQLDB env st = (st1, Some d)"
    using assms(2) by (cases "my_db st") (simp_all add: getMySQLDB_def Let_def)
  then obtain st1 d where "getMySQLDB env st = (st1, Some d)" by blast
  then have v: "snd (verifyMySQLSchema env st) =
      (let missing = filter (\<lambda>t. t \<notin> set found) requiredTables
       in if missing = [] then SchemaOk else MissingTables missing)"
    by (simp add: verifyMySQLSchema_def assms(3))
  have "my_inv (fst (verifyMySQLSchema env st))" "my_inv (fst (isMySQLReady env st))"
    using my_inv_verify my_inv_ready assms(1) by blast+
  then have "my_pools (fst (verifyMySQLSchema env st)) = set_option (my_db (fst (verifyMySQLSchema env st)))"
    "my_pools (fst (isMySQLReady env st)) = set_option (my_db (fst (isMySQLReady env st)))"
    unfolding my_inv_def by blast+
  moreover have "(filter (\<lambda>t. t \<notin> set found) requiredTables = []) = (set requiredTables \<subseteq> set found)"
    by (auto simp: filter_empty_conv)
  ultimately show ?thesis by (simp add: v Let_def)
qed

definition demo_my :: my_env where
  "demo_my = \<lparr>me_open = True, me_ping = True, me_pool_ping = True, me_err = [], me_tables = Some [''users'', ''rules'']\<rparr>"

theorem schema_check_exact_witness:
  "snd (verifyMySQLSchema demo_my my_start) \<noteq> SchemaOk"
proof -
  have i: "my_inv my_start" by (simp add: my_inv_def my_start_def)
  have t: "me_tables demo_my = Some [''users'', ''rules'']" by (simp add: demo_my_def)
  have "\<not> set requiredTables \<subseteq> set [''users'', ''rules'']" by (simp add: requiredTables_def)
  with schema_check_exact [OF i _ t] show ?thesis by (simp add: demo_my_def)
qed

end
