(* ===== verification/AnalysisHandlers.thy ===== *)
theory AnalysisHandlers
  imports HistoricalQuery ClickHouse MySQL LiveStore AnomalyStore WSManager RuleModel
begin

text \<open>
  \<open>internal/handlers/analysis.go\<close> and the read-only handlers of \<open>rules.go\<close>: query parameters with
  their defaults and limits, the calls into the stores, ClickHouse and DuckDB, and the status of
  the answer. A request has its query parameters (as \<open>gin\<close> decodes them) and, for a \<open>POST\<close>, the
  JSON document of its body, if it parses.
\<close>

section \<open>Parameters\<close>

type_synonym params = "string \<rightharpoonup> string"

definition param :: "params \<Rightarrow> string \<Rightarrow> string" where
  "param q k = (case q k of None \<Rightarrow> [] | Some s \<Rightarrow> s)"

definition param_or :: "params \<Rightarrow> string \<Rightarrow> string \<Rightarrow> string" where
  "param_or q k d = (case q k of None \<Rightarrow> d | Some s \<Rightarrow> s)"

definition id_list :: "params \<Rightarrow> string list" where
  "id_list q = filter (\<lambda>t. t \<noteq> []) (map trim_space (split_on CHR '','' (param q ''rule_ids'')))"

text \<open>A number within \<open>1..hi\<close>, the default otherwise.\<close>

definition limited :: "int \<Rightarrow> int \<Rightarrow> string \<Rightarrow> int" where
  "limited dflt hi s =
     (case parse_int64 s of None \<Rightarrow> dflt | Some n \<Rightarrow> if n \<le> 0 \<or> hi < n then dflt else n)"

definition offset_of :: "string \<Rightarrow> int" where
  "offset_of s = (case parse_int64 s of None \<Rightarrow> 0 | Some n \<Rightarrow> if n < 0 then 0 else n)"

text \<open>\<open>fmt.Sscanf(s, "%d", &n)\<close>: leading white space, a sign, digits; what follows is ignored.\<close>

definition sscanf_int :: "string \<Rightarrow> int option" where
  "sscanf_int s =
     (let t = trim_left_of (filter (\<lambda>e. e \<noteq> bytes [10]) space_encodings) s;
          sign = (if t \<noteq> [] \<and> (hd t = CHR ''-'' \<or> hd t = CHR ''+'') then [hd t] else []);
          ds = takeWhile is_digit (drop (length sign) t)
      in if ds = [] then None else parse_int64 (sign @ ds))"

text \<open>\<open>url.QueryUnescape\<close>.\<close>

definition hex_val :: "char \<Rightarrow> nat option" where
  "hex_val c =
     (if is_digit c then Some (byte_of c - 48)
      else if 97 \<le> byte_of c \<and> byte_of c \<le> 102 then Some (byte_of c - 87)
      else if 65 \<le> byte_of c \<and> byte_of c \<le> 70 then Some (byte_of c - 55) else None)"

fun query_unescape :: "string \<Rightarrow> string option" where
  "query_unescape [] = Some []"
| "query_unescape (c # s) =
     (if c = CHR ''%'' then
        (case s of
           a # b # r \<Rightarrow>
             (case (hex_val a, hex_val b) of
                (Some x, Some y) \<Rightarrow> map_option ((#) (char_of (16 * x + y))) (query_unescape r)
              | _ \<Rightarrow> None)
         | _ \<Rightarrow> None)
      else map_option ((#) (if c = CHR ''+'' then CHR '' '' else c)) (query_unescape s))"

definition time_param :: "params \<Rightarrow> string \<Rightarrow> string" where
  "time_param q k = trim_space (case query_unescape (param q k) of None \<Rightarrow> [] | Some s \<Rightarrow> s)"

section \<open>Answers\<close>

text \<open>Success, or a status with a detail; a retry hint goes with 503.\<close>

datatype 'a response = Success 'a | Failure nat bool string

fun status_of :: "'a response \<Rightarrow> nat" where
  "status_of (Success a) = 200"
| "status_of (Failure n retry d) = n"

definition bad_request :: "string \<Rightarrow> 'a response" where
  "bad_request d = Failure 400 False d"

definition respondHistoricalError :: "hist_error \<Rightarrow> 'a response" where
  "respondHistoricalError e =
     (if e = EngineBusy then Failure 503 True ''The historical query engine is busy. Please retry in a few seconds.''
      else Failure 500 False ''Internal server error'')"

definition respondClickHouseError :: "ch_error \<Rightarrow> 'a response" where
  "respondClickHouseError e =
     (if e = Unavailable then Failure 503 True ''The analytics store is temporarily unavailable. Please retry in a few seconds.''
      else Failure 500 False ''Internal server error'')"

definition respond :: "('e \<Rightarrow> 'b response) \<Rightarrow> ('a \<Rightarrow> 'b) \<Rightarrow> 's \<times> ('e + 'a) \<Rightarrow> 's \<times> 'b response" where
  "respond err ok res = (case res of (st, Inl e) \<Rightarrow> (st, err e) | (st, Inr a) \<Rightarrow> (st, Success (ok a)))"

section \<open>Live data\<close>

definition liveAnalysis :: "params \<Rightarrow> live_store \<Rightarrow> (string \<rightharpoonup> row list) response" where
  "liveAnalysis q ls = Success (ls_getAll ls (id_list q))"

definition anomalyAnalysis :: "params \<Rightarrow> anomaly_store option \<Rightarrow> (row list \<times> nat) response" where
  "anomalyAnalysis q store =
     (let limit = limited 100 500 (param_or q ''limit'' ''100''); ids = id_list q
      in case store of
           None \<Rightarrow> Success ([], 0)
         | Some s \<Rightarrow>
             (let rows = (if ids = [] then an_getRecent s [] limit
                          else concat (map (\<lambda>i. an_getRecent s i limit) ids))
              in Success (rows, length rows)))"

section \<open>ClickHouse\<close>

definition aggAnalysis ::
  "ch_lib \<Rightarrow> ch_env \<Rightarrow> params \<Rightarrow> ch_state \<Rightarrow> ch_state \<times> (string \<rightharpoonup> row list) response" where
  "aggAnalysis lib env q st =
     (let start = time_param q ''start_ts''; end' = time_param q ''end_ts''; ids = id_list q
      in if ids = [] then (st, bad_request ''Please select at least one rule to analyze.'')
         else if start = [] \<or> end' = [] then (st, bad_request ''Start and end timestamps are required.'')
         else respond respondClickHouseError id (getAggResults lib env ids start end' st))"

definition topGroupsAnalysis ::
  "ch_lib \<Rightarrow> ch_env \<Rightarrow> string \<Rightarrow> params \<Rightarrow> ch_state \<Rightarrow> ch_state \<times> (group_summary list \<times> int \<times> int) response" where
  "topGroupsAnalysis lib env rid q st =
     (let start = time_param q ''start_ts''; end' = time_param q ''end_ts''
      in if rid = [] then (st, bad_request ''rule_id is required.'')
         else if start = [] \<or> end' = [] then (st, bad_request ''Start and end timestamps are required.'')
         else
           let limit = limited 50 200 (param_or q ''limit'' ''50''); off = offset_of (param_or q ''offset'' ''0'')
           in respond respondClickHouseError (\<lambda>gs. (gs, limit, off))
                (getTopGroups lib env rid start end' limit off st))"

definition groupDetailAnalysis ::
  "ch_lib \<Rightarrow> ch_env \<Rightarrow> string \<Rightarrow> params \<Rightarrow> ch_state \<Rightarrow> ch_state \<times> row list response" where
  "groupDetailAnalysis lib env rid q st =
     (let start = time_param q ''start_ts''; end' = time_param q ''end_ts''; key = param q ''key''
      in if rid = [] \<or> key = [] then (st, bad_request ''rule_id and key are required.'')
         else if start = [] \<or> end' = [] then (st, bad_request ''Start and end timestamps are required.'')
         else respond respondClickHouseError id (getGroupDetail lib env rid key start end' st))"

definition liveResults ::
  "ch_lib \<Rightarrow> ch_env \<Rightarrow> string \<Rightarrow> params \<Rightarrow> ch_state \<Rightarrow> ch_state \<times> (string \<times> row list) response" where
  "liveResults lib env rid q st =
     (let n = (case q ''limit'' of None \<Rightarrow> 100 | Some s \<Rightarrow> (case sscanf_int s of None \<Rightarrow> 100 | Some n \<Rightarrow> n));
          limit = (if n \<le> 0 \<or> 1000 < n then 100 else n)
      in respond respondClickHouseError (\<lambda>rows. (rid, rows)) (getLiveResults lib env rid limit st))"

definition readyz :: "string \<Rightarrow> ch_env \<Rightarrow> live_store \<Rightarrow> ch_state \<Rightarrow> ch_state \<times> ls_stats response" where
  "readyz table env ls st =
     (case isReady table env st of
        (st1, None) \<Rightarrow> (st1, Success (ls_stats_of ls))
      | (st1, Some reason) \<Rightarrow> (st1, Failure 503 False reason))"

text \<open>Liveness: 200 whatever MySQL answers; the third part is its reason, \<open>ok\<close> if there is none.\<close>

definition health ::
  "my_env \<Rightarrow> live_store \<Rightarrow> ws_mgr \<Rightarrow> my_state \<Rightarrow> my_state \<times> (ls_stats \<times> nat \<times> string) response" where
  "health env ls m my =
     (case isMySQLReady env my of
        (my', reason) \<Rightarrow>
          (my', Success (ls_stats_of ls, connectionCount m, case reason of None \<Rightarrow> ''ok'' | Some r \<Rightarrow> r)))"

section \<open>Historical queries\<close>

text \<open>The body as a rule, and the rule as the dictionary the query is built from.\<close>

definition rule_dict :: "gval option \<Rightarrow> row response" where
  "rule_dict body =
     (case Option.bind body rule_of_json of
        None \<Rightarrow> bad_request ''Invalid request body''
      | Some rule \<Rightarrow>
          (case dict_of_json (rule_json rule) of
             None \<Rightarrow> Failure 500 False ''Failed to parse rule''
           | Some dict \<Rightarrow> Success dict))"

text \<open>The wall clock in India, to the second, as if it were UTC, and its printed form.\<close>

definition naive_ist :: "instant \<Rightarrow> instant" where
  "naive_ist now = (let t = now + ist_offset * 1000000000 in t - t mod 1000000000)"

definition format_T :: "instant \<Rightarrow> string" where
  "format_T t = replace_first '' '' ''T'' (format_datetime t)"

definition day :: duration where
  "day = 24 * 3600 * 1000000000"

record hist_lib =
  hl_unicode :: unicode
  hl_float :: "f64 \<Rightarrow> string"
  hl_cfg :: hist_config

definition historicalTest ::
  "hist_lib \<Rightarrow> hist_env \<Rightarrow> gval option \<Rightarrow> params \<Rightarrow> duck \<Rightarrow> duck \<times> row list response" where
  "historicalTest lib env body q dk =
     (let days = limited 7 90 (param_or q ''days_back'' ''7''); end' = naive_ist (he_now env); start = end' - days * day
      in case rule_dict body of
           Failure n r d \<Rightarrow> (dk, Failure n r d)
         | Success dict \<Rightarrow>
             respond respondHistoricalError id
               (runHistoricalAnalysis (hl_unicode lib) (hl_float lib) (hl_cfg lib) env dict (format_T start) (format_T end') dk))"

definition ranged ::
  "(row \<Rightarrow> string \<Rightarrow> string \<Rightarrow> duck \<Rightarrow> duck \<times> (hist_error + 'a)) \<Rightarrow> gval option \<Rightarrow> params \<Rightarrow> duck \<Rightarrow> duck \<times> 'a response" where
  "ranged run body q dk =
     (let start = time_param q ''start_ts''; end' = time_param q ''end_ts''
      in case Option.bind body rule_of_json of
           None \<Rightarrow> (dk, bad_request ''Invalid request body'')
         | Some _ \<Rightarrow>
             if start = [] \<or> end' = []
             then (dk, bad_request ''start_ts and end_ts are required query parameters'')
             else case rule_dict body of
               Failure n r d \<Rightarrow> (dk, Failure n r d)
             | Success dict \<Rightarrow> respond respondHistoricalError id (run dict start end' dk))"

definition historicalAnalysis ::
  "hist_lib \<Rightarrow> hist_env \<Rightarrow> gval option \<Rightarrow> params \<Rightarrow> duck \<Rightarrow> duck \<times> row list response" where
  "historicalAnalysis lib env = ranged (runHistoricalAnalysis (hl_unicode lib) (hl_float lib) (hl_cfg lib) env)"

definition historicalBreakdown ::
  "hist_lib \<Rightarrow> hist_env \<Rightarrow> gval option \<Rightarrow> params \<Rightarrow> duck \<Rightarrow> duck \<times> row response" where
  "historicalBreakdown lib env = ranged (runHistoricalBreakdown (hl_unicode lib) (hl_float lib) (hl_cfg lib) env)"

end
