(* ===== verification/FloatInt.thy ===== *)
theory FloatInt
  imports RuleModel
begin

text \<open>Integers of up to 53 bits pass through \<open>float64\<close> unchanged.\<close>

lemma bit_length_bounds: "0 < n \<Longrightarrow> 2 ^ (bit_length n - 1) \<le> n \<and> n < 2 ^ bit_length n \<and> 0 < bit_length n"
proof (induction n rule: bit_length.induct)
  case (1 n)
  have b: "bit_length n = Suc (bit_length (n div 2))" using 1(2) by (simp add: bit_length.simps [of n])
  show ?case
  proof (cases "n div 2 = 0")
    case True
    then have "n = 1" using 1(2) by linarith
    then show ?thesis using b by (simp add: bit_length.simps [of 0])
  next
    case False
    with 1 have i: "2 ^ (bit_length (n div 2) - 1) \<le> n div 2" "n div 2 < 2 ^ bit_length (n div 2)" "0 < bit_length (n div 2)" by auto
    then obtain k where k: "bit_length (n div 2) = Suc k" by (cases "bit_length (n div 2)") auto
    with i have "2 ^ Suc k \<le> n" "n < 2 ^ Suc (Suc k)" by (simp_all add: less_mult_imp_div_less)
    then show ?thesis using b k by simp
  qed
qed

lemma f64_of_int_exact:
  assumes "0 < n" and "n < 2 ^ 53"
  shows "f64_to_int64 (f64_of_int n) = n"
proof -
  define a where "a = nat n"
  define k where "k = bit_length a"
  have a: "0 < a" "int a = n" "\<bar>n\<bar> = n" using assms(1) by (simp_all add: a_def)
  note b = bit_length_bounds [OF a(1), folded k_def]
  have "a < 2 ^ 53" unfolding a_def using assms by (simp add: nat_less_iff)
  with b have "2 ^ (k - 1) < (2::nat) ^ 53" by linarith
  then have "k - 1 < 53" by (rule power_less_imp_less_exp [rotated]) simp
  then have k: "1 \<le> k" "k \<le> 53" using b by linarith+
  define m where "m = a * 2 ^ (53 - k)"
  have "2 ^ (k - 1) * 2 ^ (53 - k) \<le> m" unfolding m_def using b by simp
  moreover have "(2::nat) ^ (k - 1) * 2 ^ (53 - k) = 2 ^ 52" using k by (simp add: power_add [symmetric])
  moreover have "m < 2 ^ k * 2 ^ (53 - k)" unfolding m_def using b by simp
  moreover have "(2::nat) ^ k * 2 ^ (53 - k) = 2 ^ 53" using k by (simp add: power_add [symmetric])
  ultimately have m: "2 ^ 52 \<le> m" "m < 2 ^ 53" by simp_all
  define f where "f = f64_of_int n"
  define x where "x = (k + 1022) * 2 ^ 52 + (m - 2 ^ 52)"
  have nz: "n \<noteq> 0" "\<not> n < 0" using assms(1) by simp_all
  have f: "f = word_of_int (int x)"
    unfolding f_def f64_of_int_def Let_def x_def using nz k(2) by (simp add: a(3) a_def [symmetric] k_def [symmetric] m_def)
  have md: "m - 2 ^ 52 < 2 ^ 52" using m by simp
  have "(k + 1022) * 2 ^ 52 \<le> 1075 * 2 ^ 52" using k(2) by simp
  then have "x < 2 ^ 63" using md unfolding x_def by simp
  then have "int x < int (2 ^ 63)" by (simp only: of_nat_less_iff)
  then have lt: "int x < 2 ^ 63" by (simp only: of_nat_power of_nat_numeral)
  have u: "uint f = int x"
    unfolding f using lt by (simp only: uint_word_of_int) (simp add: take_bit_int_eq_self)
  have neg: "\<not> f64_neg f" unfolding f64_neg_def u using lt by simp
  have "x div 2 ^ 52 = k + 1022" unfolding x_def using md by simp
  then have "uint f div 2 ^ 52 = int (k + 1022)" unfolding u by (metis of_nat_div of_nat_numeral of_nat_power)
  then have e: "f64_exp f = k + 1022" using k(2) by (simp add: f64_exp_def)
  have "x mod 2 ^ 52 = m - 2 ^ 52" unfolding x_def by (simp only: mod_mult_self3 mod_less [OF md])
  then have fr: "f64_frac f = int (m - 2 ^ 52)" unfolding f64_frac_def u by (metis of_nat_mod of_nat_numeral of_nat_power)
  have mant: "2 ^ 52 + f64_frac f = int m" using fr m(1) by simp
  have "f64_trunc f = Some n"
  proof (cases "k = 53")
    case True
    then have "m = a" by (simp add: m_def)
    then show ?thesis using e mant neg True a(2) by (simp add: f64_trunc_def Let_def)
  next
    case False
    then have k': "\<not> 1075 \<le> k + 1022" "1075 - (k + 1022) = 53 - k" using k(2) by linarith+
    have "int m div 2 ^ (53 - k) = int a" unfolding m_def by simp
    then show ?thesis using e mant neg k' a(2) by (simp add: f64_trunc_def Let_def)
  qed
  moreover have "int64_range n" using assms by (simp add: int64_range_def)
  ultimately show ?thesis by (simp add: f64_to_int64_def f_def)
qed

end
