(* ===== verification/DuckEngine_Props.thy ===== *)
theory DuckEngine_Props
  imports DuckEngine ConnPool
begin

text \<open>
  What the engine guarantees: a connection that serves queries has run the whole configuration;
  one request at a time is past the slot; the connection it uses is pinned, open and not closed
  under it; no handle leaks; a credential cannot break out of its SQL literal.
\<close>

section \<open>Configuration\<close>

lemma run_stmts_ok: "run_stmts exec qs hist = (h, True) \<Longrightarrow> h = hist @ qs"
proof (induction qs arbitrary: hist)
  case (Cons q qs)
  then show ?case using Cons.IH [of "hist @ [q]"] by (simp split: if_splits)
qed simp

definition configured :: "s3_config \<Rightarrow> string list \<Rightarrow> bool" where
  "configured cfg h \<longleftrightarrow> (\<exists>e1 e2. h = limit_stmts @ e1 @ e2 @ s3_stmts cfg \<and>
     e1 \<noteq> [] \<and> e2 \<noteq> [] \<and> last e1 = ''LOAD iceberg'' \<and> last e2 = ''LOAD httpfs'')"

lemma load_ext_ok:
  assumes "load_ext exec ext hist = (h, True)"
  obtains e where "h = hist @ e" "e \<noteq> []" "last e = ''LOAD '' @ ext"
  using assms by (auto simp: load_ext_def split: if_splits)

lemma configure_ok:
  assumes "configureDuckDBConn exec cfg = (h, True)"
  shows "configured cfg h"
proof -
  obtain h2 where l: "load_exts exec [''iceberg'', ''httpfs''] limit_stmts = (h2, True)"
    and s: "run_stmts exec (s3_stmts cfg) h2 = (h, True)"
    using assms by (auto simp: configureDuckDBConn_def split: prod.splits if_splits dest: run_stmts_ok)
  from l obtain h1 where 1: "load_ext exec ''iceberg'' limit_stmts = (h1, True)"
    and 2: "load_ext exec ''httpfs'' h1 = (h2, True)"
    by (auto split: prod.splits if_splits)
  from load_ext_ok [OF 1] obtain e1 where e1: "h1 = limit_stmts @ e1" "e1 \<noteq> []" "last e1 = ''LOAD iceberg''" by auto
  from load_ext_ok [OF 2] obtain e2 where e2: "h2 = h1 @ e2" "e2 \<noteq> []" "last e2 = ''LOAD httpfs''" by auto
  have "h = limit_stmts @ e1 @ e2 @ s3_stmts cfg" using run_stmts_ok [OF s] e1(1) e2(1) by simp
  with e1(2,3) e2(2,3) show ?thesis unfolding configured_def by blast
qed

section \<open>The connection as a shared handle\<close>

lemma init_result: "initDuckDB cfg ie dk = (dk', r) \<Longrightarrow> dk_conn dk' = r"
  by (cases "configureDuckDBConn (ie_exec ie) cfg")
    (auto simp: initDuckDB_def close_handle_def Let_def split: option.splits if_splits)

lemma reset_conn [simp]: "dk_conn (resetDuckDB dk) = None"
  by (simp add: resetDuckDB_def close_handle_def Let_def split: option.split)

interpretation duckdb: conn_pool dk_conn "initDuckDB cfg" resetDuckDB
proof
  show "initDuckDB cfg e s = (s, Some d)" if "dk_conn s = Some d" for s :: duck and d e
    using that by (simp add: initDuckDB_def)
qed (simp_all add: init_result)

section \<open>The invariant\<close>

definition handles_of :: "nat option \<Rightarrow> handle set" where
  "handles_of c = (case c of None \<Rightarrow> {} | Some n \<Rightarrow> {Pool n, Conn n})"

definition conn_inv :: "s3_config \<Rightarrow> duck \<Rightarrow> bool" where
  "conn_inv cfg dk \<longleftrightarrow> dk_pool dk = dk_conn dk \<and> dk_handles dk = handles_of (dk_conn dk) \<and>
     (\<forall>c. dk_conn dk = Some c \<longrightarrow> configured cfg (dk_hist dk c))"

definition inside :: "phase \<Rightarrow> bool" where
  "inside p \<longleftrightarrow> p \<noteq> Idle \<and> p \<noteq> Waiting"

definition slot_inv :: "system \<Rightarrow> bool" where
  "slot_inv s \<longleftrightarrow> (\<forall>r q. inside (snd s r) \<and> inside (snd s q) \<longrightarrow> r = q) \<and>
     (dk_slot (fst s) \<longleftrightarrow> (\<exists>r. inside (snd s r)))"

definition using_inv :: "system \<Rightarrow> bool" where
  "using_inv s \<longleftrightarrow> (\<forall>r c. snd s r = Using c \<longrightarrow> dk_conn (fst s) = Some c)"

lemma inside_simps [simp]:
  "\<not> inside Idle" "\<not> inside Waiting" "inside Holding" "inside (Using c)" "inside Leaving"
  by (simp_all add: inside_def)

lemma init_inv:
  assumes "conn_inv cfg dk" and "initDuckDB cfg ie dk = (dk', res)"
  shows "conn_inv cfg dk' \<and> dk_slot dk' = dk_slot dk \<and> (\<forall>c. res = Some c \<longrightarrow> dk_conn dk' = Some c)"
proof (cases "dk_conn dk")
  case None
  obtain h ok where c: "configureDuckDBConn (ie_exec ie) cfg = (h, ok)" by (cases "configureDuckDBConn (ie_exec ie) cfg")
  then have "ok \<Longrightarrow> configured cfg h" using configure_ok by simp
  with None c assms show ?thesis
    by (auto simp: initDuckDB_def conn_inv_def handles_of_def close_handle_def Let_def split: if_splits)
qed (use assms in \<open>simp add: initDuckDB_def\<close>)

lemma reset_inv: "conn_inv cfg dk \<Longrightarrow> conn_inv cfg (resetDuckDB dk) \<and> dk_slot (resetDuckDB dk) = dk_slot dk"
  by (auto simp: resetDuckDB_def conn_inv_def handles_of_def close_handle_def Let_def split: option.splits)

lemma maybe_reset_inv:
  "conn_inv cfg dk \<Longrightarrow> conn_inv cfg (maybeResetOnFatal err dk) \<and> dk_slot (maybeResetOnFatal err dk) = dk_slot dk"
  by (auto simp: maybeResetOnFatal_def reset_inv split: option.split)

lemma slot_only_inv [simp]:
  "conn_inv cfg (take_slot dk) = conn_inv cfg dk" "conn_inv cfg (free_slot dk) = conn_inv cfg dk"
  "dk_conn (take_slot dk) = dk_conn dk" "dk_conn (free_slot dk) = dk_conn dk"
  "dk_slot (take_slot dk)" "\<not> dk_slot (free_slot dk)"
  by (simp_all add: conn_inv_def take_slot_def free_slot_def)

text \<open>A request that moves within the slot, enters it or leaves it.\<close>

lemma slot_inv_move:
  assumes "slot_inv (dk, pc)" and "inside (pc r)" and "inside p" and "dk_slot dk' = dk_slot dk"
  shows "slot_inv (dk', pc(r := p))"
  using assms by (auto simp: slot_inv_def)

text \<open>A request that moves outside the slot.\<close>

lemma slot_inv_outside:
  assumes "slot_inv (dk, pc)" and "\<not> inside (pc r)" and "\<not> inside p"
  shows "slot_inv (dk, pc(r := p))"
proof -
  have "inside ((pc(r := p)) q) \<longleftrightarrow> inside (pc q)" for q using assms(2,3) by simp
  with assms(1) show ?thesis unfolding slot_inv_def by (simp del: fun_upd_apply)
qed

lemma using_inv_move:
  assumes "slot_inv (dk, pc)" and "inside (pc r)" and "\<And>c. p = Using c \<Longrightarrow> dk_conn dk' = Some c"
  shows "using_inv (dk', pc(r := p))"
proof -
  have "pc q \<noteq> Using c" if "q \<noteq> r" for q c
    using assms(1,2) that inside_simps(4) [of c] by (auto simp: slot_inv_def)
  then show ?thesis using assms(3) by (auto simp: using_inv_def)
qed

definition duck_inv :: "s3_config \<Rightarrow> system \<Rightarrow> bool" where
  "duck_inv cfg s \<longleftrightarrow> conn_inv cfg (fst s) \<and> slot_inv s \<and> using_inv s"

lemma duck_inv_move:
  assumes "slot_inv (dk, pc)" and "inside (pc r)" and "inside p" and "dk_slot dk' = dk_slot dk"
    and "conn_inv cfg dk'" and "\<And>c. p = Using c \<Longrightarrow> dk_conn dk' = Some c"
  shows "duck_inv cfg (dk', pc(r := p))"
  unfolding duck_inv_def fst_conv
  using slot_inv_move [OF assms(1-4)] using_inv_move [OF assms(1,2,6)] assms(5) by blast

lemma duck_step_inv: "duck_step cfg s s' \<Longrightarrow> duck_inv cfg s \<Longrightarrow> duck_inv cfg s'"
proof (induction rule: duck_step.induct)
  case (Enter pc r dk)
  then show ?case by (auto simp: duck_inv_def slot_inv_def using_inv_def)
next
  case (Wait pc r dk)
  then show ?case using slot_inv_outside [of dk pc r Waiting] by (auto simp: duck_inv_def using_inv_def)
next
  case (Wake pc r dk)
  then show ?case by (auto simp: duck_inv_def slot_inv_def using_inv_def)
next
  case (Give_up pc r dk)
  then show ?case using slot_inv_outside [of dk pc r Idle] by (auto simp: duck_inv_def using_inv_def)
next
  case (Init pc r ie dk dk' res)
  then have i: "conn_inv cfg dk" "slot_inv (dk, pc)" by (simp_all add: duck_inv_def)
  from init_inv [OF i(1) Init(2)] show ?case
    by (intro duck_inv_move [OF i(2)]) (auto simp: Init(1) split: option.splits)
next
  case (Query pc r c dk err)
  then have i: "conn_inv cfg dk" "slot_inv (dk, pc)" "dk_conn dk = Some c" by (auto simp: duck_inv_def using_inv_def)
  from maybe_reset_inv [OF i(1), of err] i(3) show ?case
    by (intro duck_inv_move [OF i(2)]) (auto simp: Query(1) maybeResetOnFatal_def split: if_splits)
next
  case (Finish pc r c dk)
  then show ?case by (intro duck_inv_move [of dk]) (auto simp: duck_inv_def)
next
  case (Leave pc r dk)
  then show ?case by (auto simp: duck_inv_def slot_inv_def using_inv_def)
qed

lemma duck_inv_start: "duck_inv cfg (duck0, \<lambda>_. Idle)"
  by (simp add: duck_inv_def conn_inv_def slot_inv_def using_inv_def duck0_def handles_of_def)

lemma reachable_inv: "duck_reachable cfg s \<Longrightarrow> duck_inv cfg s"
  unfolding duck_reachable_def
  by (induction rule: rtranclp_induct) (blast intro: duck_inv_start duck_step_inv)+

text \<open>C13. Whatever order concurrent historical queries, failures and resets come in: at most one
  request is past the query slot; the connection it uses is the pinned one, still open, on which
  the limits, both extensions and the S3 settings have been applied, in that order; apart from the
  pinned connection and its pool no handle stays open; and the slot is free when nobody is past it.\<close>

theorem one_query_on_configured_connection:
  assumes "duck_reachable cfg (dk, pc)"
  shows "(\<forall>r q. inside (pc r) \<and> inside (pc q) \<longrightarrow> r = q) \<and>
    (\<forall>r c. pc r = Using c \<longrightarrow> dk_conn dk = Some c \<and> Conn c \<in> dk_handles dk \<and> configured cfg (dk_hist dk c)) \<and>
    dk_handles dk = handles_of (dk_conn dk) \<and>
    ((\<forall>r. \<not> inside (pc r)) \<longrightarrow> \<not> dk_slot dk)"
  using reachable_inv [OF assms]
  by (auto simp: duck_inv_def conn_inv_def slot_inv_def using_inv_def handles_of_def)

definition healthy :: init_env where
  "healthy = \<lparr>ie_open = True, ie_conn = True, ie_exec = (\<lambda>_ _. True)\<rparr>"

lemma run_stmts_all: "run_stmts (\<lambda>_ _. True) qs hist = (hist @ qs, True)"
  by (induction qs arbitrary: hist) simp_all

lemma healthy_init: "dk_conn dk = None \<Longrightarrow> \<exists>dk'. initDuckDB cfg healthy dk = (dk', Some (dk_fresh dk))"
  by (simp add: initDuckDB_def healthy_def configureDuckDBConn_def run_stmts_all load_ext_def Let_def)

text \<open>A dead connection does not wedge the service: after the query that found it dead, the next
  request gets a new one.\<close>

lemma broken_connection_replaced:
  "err \<in> {BadConn, ConnDone} \<Longrightarrow>
    \<exists>dk'. initDuckDB cfg healthy (maybeResetOnFatal (Some err) dk) = (dk', Some (dk_fresh dk))"
  using healthy_init [of "maybeResetOnFatal (Some err) dk" cfg]
  by (auto simp: maybeResetOnFatal_def resetDuckDB_def close_handle_def Let_def split: option.splits)

lemma some_request_served: "\<exists>dk. duck_reachable cfg (dk, (\<lambda>_. Idle)(r := Using 0))"
proof -
  let ?idle = "\<lambda>_. Idle" and ?dk = "take_slot duck0"
  have f: "dk_conn ?dk = None" "dk_fresh ?dk = 0" by (simp_all add: take_slot_def duck0_def)
  obtain dk where dk: "initDuckDB cfg healthy ?dk = (dk, Some 0)"
    using healthy_init [OF f(1), of cfg] unfolding f(2) by blast
  have 1: "duck_step cfg (duck0, ?idle) (?dk, ?idle(r := Holding))"
    by (rule duck_step.Enter) (simp_all add: duck0_def)
  have 2: "duck_step cfg (?dk, ?idle(r := Holding)) (dk, ?idle(r := Using 0))"
    using duck_step.Init [OF _ dk, of "?idle(r := Holding)" r] by simp
  have "duck_reachable cfg (dk, ?idle(r := Using 0))"
    unfolding duck_reachable_def
    by (rule rtranclp.rtrancl_into_rtrancl, rule r_into_rtranclp, rule 1, rule 2)
  then show ?thesis by blast
qed

theorem one_query_on_configured_connection_witness:
  "\<exists>dk. duck_reachable \<lparr>s3_endpoint = ''http://s3'', s3_access = ''k'', s3_secret = ''s''\<rparr> (dk, (\<lambda>_. Idle)(7 := Using 0)) \<and>
    Conn 0 \<in> dk_handles dk"
proof -
  let ?cfg = "\<lparr>s3_endpoint = ''http://s3'', s3_access = ''k'', s3_secret = ''s''\<rparr>"
  show ?thesis
  proof (rule exE [OF some_request_served [of ?cfg 7]])
    fix dk
    assume r: "duck_reachable ?cfg (dk, (\<lambda>_. Idle)(7 := Using 0))"
    have "Conn 0 \<in> dk_handles dk" 
      using one_query_on_configured_connection [OF r, THEN conjunct2, THEN conjunct1, rule_format, OF fun_upd_same]
      by blast
    then show ?thesis by (intro exI conjI) (rule r)
  qed
qed

section \<open>Credentials\<close>

text \<open>How SQL reads a literal: up to the first quote that is not doubled.\<close>

fun read_literal :: "string \<Rightarrow> string \<times> string" where
  "read_literal [] = ([], [])"
| "read_literal [c] = (if c = apos then ([], []) else ([c], []))"
| "read_literal (c # d # s) =
     (if c = apos then (if d = apos then (case read_literal s of (t, r) \<Rightarrow> (apos # t, r)) else ([], d # s))
      else (case read_literal (d # s) of (t, r) \<Rightarrow> (c # t, r)))"

lemma sql_escape_simps [simp]:
  "sql_escape [] = []" "sql_escape (c # s) = (if c = apos then apos # apos # sql_escape s else c # sql_escape s)"
  by (simp_all add: sql_escape_def replace_all_Cons)

lemma read_literal_other: "c \<noteq> apos \<Longrightarrow> s \<noteq> [] \<Longrightarrow>
    read_literal (c # s) = (case read_literal s of (t, r) \<Rightarrow> (c # t, r))"
  by (cases s) auto

text \<open>A credential is set as it is configured: whatever characters the S3 keys have, the literal
  of the \<open>SET\<close> statement ends where the statement ends and reads back as the key.\<close>

theorem credentials_stay_literals:
  "read_literal (sql_escape key @ [apos]) = (key, []) \<and>
   ''SET s3_secret_access_key='' @ apos # sql_escape (s3_secret cfg) @ [apos] \<in> set (s3_stmts cfg) \<and>
   ''SET s3_access_key_id='' @ apos # sql_escape (s3_access cfg) @ [apos] \<in> set (s3_stmts cfg)"
proof -
  have 1: "read_literal (sql_escape key @ [apos]) = (key, [])"
  proof (induction key)
    case (Cons c key)
    then show ?case by (cases "c = apos") (simp_all add: read_literal_other)
  qed simp
  have 2: "''SET s3_secret_access_key='' @ apos # sql_escape (s3_secret cfg) @ [apos] \<in> set (s3_stmts cfg)"
    and 3: "''SET s3_access_key_id='' @ apos # sql_escape (s3_access cfg) @ [apos] \<in> set (s3_stmts cfg)"
    by (simp_all add: s3_stmts_def quoted_def)
  show ?thesis by (rule conjI [OF 1 conjI [OF 2 3]])
qed

end
