(* ===== verification/Filters_Props.thy ===== *)
theory Filters_Props
  imports Filters
begin

text \<open>
  What the translators guarantee: the SQL text of a filter consists of harmless characters and
  has exactly one placeholder per parameter, whatever the filter tree; an accepted HAVING
  expression consists of harmless characters, keywords and known aliases; dates written by the
  program read back as the instant they stand for.
\<close>

section \<open>Identifiers\<close>

lemma byte_of_lt [simp]: "byte_of c < 256"
  by (simp add: byte_of_def of_char_def)

lemma byte_of_eq_iff: "byte_of c = byte_of d \<longleftrightarrow> c = d"
  by (simp add: byte_of_def)

lemma cont_not_ascii: "cont_byte lo hi c \<Longrightarrow> 128 \<le> lo \<Longrightarrow> \<not> is_ascii c"
  by (simp add: cont_byte_def is_ascii_def)

lemma second_lo_ge [simp]: "128 \<le> second_lo b"
  by (simp add: second_lo_def)

lemma decode_tail: "list_all (\<lambda>c. \<not> is_ascii c) (take (snd (decode_rune x cs)) cs)"
proof -
  have "list_all (\<lambda>c. \<not> is_ascii c) ts"
    if "cont_byte (second_lo b) (second_hi b) (hd ts)" "list_all (cont_byte 128 191) (tl ts)" for b and ts :: string
    using that by (cases ts) (auto simp: list_all_iff dest: cont_not_ascii)
  from this [of "byte_of x" "take (tail_count (byte_of x)) cs"] show ?thesis
    by (auto simp: decode_rune_def Let_def)
qed

lemma runes_ascii: "c \<in> set s \<Longrightarrow> is_ascii c \<Longrightarrow> byte_of c \<in> set (runes s)"
proof (induction s rule: runes.induct)
  case (2 x cs)
  let ?k = "snd (decode_rune x cs)"
  show ?case
  proof (cases "c = x")
    case True
    with 2 show ?thesis by (simp add: decode_rune_def is_ascii_def tail_count_def)
  next
    case False
    with 2 have c: "c \<in> set cs" by simp
    have "c \<notin> set (take ?k cs)" using decode_tail [of x cs] 2(3) by (auto simp: list_all_iff)
    with c have "c \<in> set (drop ?k cs)" by (metis append_take_drop_id set_append Un_iff)
    with 2 show ?thesis by simp
  qed
qed simp

text \<open>A byte of a validated identifier: a letter, a digit, an underscore, or part of a non-ASCII rune.\<close>

definition ident_byte :: "char \<Rightarrow> bool" where
  "ident_byte c \<longleftrightarrow> \<not> is_ascii c \<or> ident_char c"

lemma validated_bytes:
  assumes u: "unicode_ok u" and v: "validateIdentifier u name = Some f"
  shows "f \<noteq> []" and "list_all ident_byte f"
proof -
  from v have f: "f = trim_space (un_lower u name)" "f \<noteq> []"
    and all: "\<forall>r \<in> set (runes f). un_letter u r \<or> un_digit u r \<or> r = rune_underscore"
    by (auto simp: validateIdentifier_def Let_def list_all_iff split: if_splits list.splits)
  show "f \<noteq> []" by (rule f)
  have "ident_byte c" if "c \<in> set f" for c
  proof (cases "is_ascii c")
    case True
    have "byte_of c = rune_underscore \<Longrightarrow> c = CHR ''_''"
      using byte_of_eq_iff [of c "CHR ''_''"] by (simp add: rune_underscore_def byte_of_def)
    with all runes_ascii [OF that True] u True show ?thesis
      by (auto simp: unicode_ok_def ident_byte_def ident_char_def ident_start_def)
  qed (simp add: ident_byte_def)
  then show "list_all ident_byte f" by (simp add: list_all_iff)
qed

section \<open>Fragments\<close>

definition sql_char :: "char \<Rightarrow> bool" where
  "sql_char c \<longleftrightarrow> ident_byte c \<or> c \<in> set '' ()?=<>!,''"

definition qmarks :: "string \<Rightarrow> nat" where
  "qmarks s = length (filter (\<lambda>c. c = CHR ''?'') s)"

lemma qmarks_simps [simp]:
  "qmarks [] = 0" "qmarks (c # s) = (if c = CHR ''?'' then Suc (qmarks s) else qmarks s)"
  "qmarks (s @ t) = qmarks s + qmarks t"
  by (simp_all add: qmarks_def)

lemma qmarks_replicate: "c \<noteq> CHR ''?'' \<Longrightarrow> qmarks (replicate n c) = 0"
  by (induction n) simp_all

lemma qmarks_line [simp]: "qmarks (line_at n) = 0" "qmarks (tab_at n) = 0"
  by (simp_all add: line_at_def tab_at_def qmarks_replicate)

lemma qmarks_0_iff: "qmarks s = 0 \<longleftrightarrow> CHR ''?'' \<notin> set s"
  by (auto simp: qmarks_def filter_empty_conv)

definition well_formed :: "sql \<Rightarrow> bool" where
  "well_formed q \<longleftrightarrow> qmarks (fst q) = length (snd q) \<and> list_all sql_char (fst q)"

lemma ident_byte_sql: "list_all ident_byte f \<Longrightarrow> list_all sql_char f \<and> qmarks f = 0"
proof
  assume f: "list_all ident_byte f"
  then show "list_all sql_char f" by (auto simp: list_all_iff sql_char_def)
  have "CHR ''?'' \<notin> set f"
    using f by (auto simp: list_all_iff ident_byte_def is_ascii_def ident_char_def ident_start_def
        is_lower_def is_upper_def is_digit_def byte_of_def)
  then show "qmarks f = 0" by (auto simp: qmarks_def filter_empty_conv)
qed

lemma qmarks_join: "qmarks sep = 0 \<Longrightarrow> qmarks (join sep ps) = (\<Sum>p \<leftarrow> ps. qmarks p)"
  by (induction sep ps rule: join.induct) simp_all

lemma all_join: "list_all P sep \<Longrightarrow> \<forall>p \<in> set ps. list_all P p \<Longrightarrow> list_all P (join sep ps)"
  by (induction sep ps rule: join.induct) simp_all

lemma well_formed_no_sql [simp]: "well_formed no_sql"
  by (simp add: well_formed_def no_sql_def)

lemmas char_simps = sql_char_def ident_byte_def is_ascii_def ident_char_def ident_start_def
  is_lower_def is_upper_def is_digit_def byte_of_def

lemma well_formed_in:
  assumes "list_all ident_byte f" and "items \<noteq> []"
  shows "well_formed (in_sql f (length items), items)"
proof -
  have "qmarks (join '', '' (replicate n ''?'')) = n" for n
    by (simp add: qmarks_join sum_list_replicate)
  moreover have "list_all sql_char (join '', '' (replicate n ''?''))" for n
    by (rule all_join) (auto simp: char_simps)
  ultimately show ?thesis
    using ident_byte_sql [OF assms(1)] by (simp add: well_formed_def in_sql_def) (simp add: char_simps)
qed

lemma op_sql_ok: "op_sql opr = Some s \<Longrightarrow> list_all sql_char s \<and> qmarks s = 0"
  by (auto simp: op_sql_def char_simps split: if_splits)

lemma date_op_sql_ok: "date_op_sql opr = Some s \<Longrightarrow> list_all sql_char s \<and> qmarks s = 0"
  by (auto simp: date_op_sql_def char_simps split: if_splits)

lemma text_op_ok:
  "text_op opr = Some (pre, post) \<Longrightarrow> list_all sql_char pre \<and> list_all sql_char post \<and> qmarks pre + qmarks post = 1"
  by (auto simp: text_op_def char_simps split: if_splits)

lemma well_formed_field:
  assumes f: "list_all ident_byte f"
  shows "well_formed (field_condition ff f opr val fmt)"
proof -
  note [simp] = ident_byte_sql [OF f]
  have lits: "list_all sql_char '' ''" "list_all sql_char '' ?''" "list_all sql_char '' IS NULL''"
    "list_all sql_char '' IS NOT NULL''" "list_all sql_char ''try_cast(''" "list_all sql_char '' AS TIMESTAMP) ''"
    "list_all sql_char '' try_cast(? AS TIMESTAMP)''"
    by (simp_all add: char_simps)
  consider (cmp) t where "op_sql opr = Some t" | (list) "op_sql opr = None" "opr = ''IN''"
    | (tmpl) pre post where "op_sql opr = None" "opr \<noteq> ''IN''" "text_op opr = Some (pre, post)"
    | (rest) "op_sql opr = None" "opr \<noteq> ''IN''" "text_op opr = None"
    by (cases "op_sql opr"; cases "opr = ''IN''"; cases "text_op opr") auto
  then show ?thesis
  proof cases
    case (cmp t)
    then show ?thesis using op_sql_ok [OF cmp] lits(1,2) by (simp add: field_condition_def well_formed_def)
  next
    case list
    then show ?thesis using well_formed_in [OF f, of "in_items val"] by (simp add: field_condition_def Let_def)
  next
    case (tmpl pre post)
    then show ?thesis using text_op_ok [OF tmpl(3)] by (simp add: field_condition_def well_formed_def)
  next
    case rest
    have "well_formed (''try_cast('' @ f @ '' AS TIMESTAMP) '' @ t @ '' try_cast(? AS TIMESTAMP)'', [GStr r])"
      if "date_op_sql opr = Some t" for t r
      using date_op_sql_ok [OF that] lits(5-7) by (simp add: well_formed_def)
    moreover have "well_formed (f @ '' IS NULL'', [])" "well_formed (f @ '' IS NOT NULL'', [])"
      using lits(3,4) by (simp_all add: well_formed_def)
    ultimately show ?thesis using rest by (simp add: field_condition_def split: option.split)
  qed
qed

lemma well_formed_condition:
  assumes u: "unicode_ok u"
  shows "well_formed (condition_sql u ff node)"
proof -
  have "financialAuaCodes \<noteq> []" using length_financialAuaCodes by force
  then have "well_formed (in_sql f (length financialAuaCodes), map GStr financialAuaCodes)"
    if "validateIdentifier u n = Some f" for f n
    using well_formed_in [OF validated_bytes(2) [OF u that], of "map GStr financialAuaCodes"] by simp
  then show ?thesis
    using validated_bytes(2) [OF u]
    by (auto simp: condition_sql_def Let_def simp del: length_financialAuaCodes split: option.splits
        intro: well_formed_field)
qed

lemma well_formed_combine:
  assumes "\<forall>p \<in> set ps. well_formed p" and "logic \<in> {''AND'', ''OR''}"
  shows "well_formed (combine logic ps)"
proof (cases "2 \<le> length ps")
  case False
  with assms(1) show ?thesis by (cases ps; cases "tl ps") (auto simp: combine_def)
next
  case True
  then obtain p q r where ps: "ps = p # q # r" by (cases ps; cases "tl ps") auto
  have sep: "qmarks ('' '' @ logic @ '' '') = 0" "list_all sql_char ('' '' @ logic @ '' '')"
    using assms(2) by (auto simp: char_simps)
  have par: "list_all sql_char ''(''" "list_all sql_char '')''" by (simp_all add: char_simps)
  have "(\<Sum>s \<leftarrow> map fst ps. qmarks s) = length (concat (map snd ps))"
    using assms(1) by (induction ps) (simp_all add: well_formed_def)
  moreover have "\<forall>s \<in> set (map fst ps). list_all sql_char s"
    using assms(1) by (auto simp: well_formed_def)
  ultimately have "well_formed (''('' @ join ('' '' @ logic @ '' '') (map fst ps) @ '')'', concat (map snd ps))"
    unfolding well_formed_def using sep par by (simp add: qmarks_join all_join del: append_Cons)
  then show ?thesis by (simp add: combine_def ps)
qed

lemma sql_char_iff:
  "sql_char c \<longleftrightarrow> \<not> is_ascii c \<or> is_lower c \<or> is_upper c \<or> is_digit c \<or> c \<in> set ''_ ()?=<>!,''"
proof -
  have "c \<in> set ''_ ()?=<>!,'' \<longleftrightarrow> c = CHR ''_'' \<or> c \<in> set '' ()?=<>!,''" by (simp only: list.set insert_iff)
  then show ?thesis
    unfolding sql_char_def ident_byte_def ident_char_def ident_start_def by blast
qed

lemma group_logic_cases: "group_logic node \<in> {''AND'', ''OR''}"
  by (simp add: group_logic_def Let_def)

lemma ascii_lower_not_upper: "\<not> is_upper (ascii_lower c)"
proof (cases "is_upper c")
  case True
  then have "byte_of (char_of (byte_of c + 32)) = byte_of c + 32"
    by (simp add: byte_of_def is_upper_def of_char_of take_bit_eq_mod)
  with True show ?thesis by (simp add: ascii_lower_def is_upper_def)
qed (simp add: ascii_lower_def)

lemma ascii_unicode_ok: "unicode_ok ascii_unicode"
proof -
  have "list_all (\<lambda>c. \<not> is_upper c) (map ascii_lower s)" for s
    by (simp add: list_all_iff ascii_lower_not_upper)
  then show ?thesis
    unfolding unicode_ok_def ascii_unicode_def is_lower_def is_upper_def is_digit_def by auto
qed

lemma parse_filter_well_formed: "unicode_ok u \<Longrightarrow> well_formed (parseFilterNode u ff node)"
proof (induction u ff node rule: parseFilterNode.induct)
  case (1 u ff node)
  let ?parts = "filter (\<lambda>p. fst p \<noteq> []) (map (parseFilterNode u ff) (group_conditions node))"
  show ?case
  proof (cases "node \<noteq> [] \<and> row_str node ''type'' = ''group''")
    case True
    then have "\<forall>p \<in> set ?parts. well_formed p" using 1 by auto
    from well_formed_combine [OF this group_logic_cases] True show ?thesis
      by (simp add: parseFilterNode.simps [of u ff node])
  next
    case False
    then show ?thesis using well_formed_condition [OF 1(2)]
      by (auto simp: parseFilterNode.simps [of u ff node])
  qed
qed

text \<open>C11. Whatever the filter tree of a request holds, its SQL text contains only letters, digits,
  underscores, bytes of non-ASCII runes, blanks and the characters \<open>()?=<>!,\<close> (no quotes, semicolons,
  comments or operators of its own), and it has exactly one placeholder for each parameter, so that
  values reach the database as parameters only.\<close>

theorem filter_text_carries_no_values:
  assumes "unicode_ok u" and "parseFilterNode u ff node = (txt_sql, params)"
  shows "length (filter (\<lambda>c. c = CHR ''?'') txt_sql) = length params \<and>
    (\<forall>c \<in> set txt_sql. \<not> is_ascii c \<or> is_lower c \<or> is_upper c \<or> is_digit c \<or> c \<in> set ''_ ()?=<>!,'')"
  using parse_filter_well_formed [OF assms(1), of ff node] assms(2)
  unfolding well_formed_def qmarks_def list_all_iff Ball_def sql_char_iff by simp

abbreviation drop_table_filter :: row where
  "drop_table_filter \<equiv> [(''type'', GStr ''condition''), (''operator'', GStr ''EQUALS''),
     (''field'', GStr ''_data.aua''), (''value'', GStr ''x; DROP TABLE y'')]"

theorem filter_text_carries_no_values_witness:
  "\<exists>txt_sql params. parseFilterNode ascii_unicode (\<lambda>_. []) drop_table_filter = (txt_sql, params) \<and>
    length (filter (\<lambda>c. c = CHR ''?'') txt_sql) = length params"
proof -
  obtain txt_sql params where p: "parseFilterNode ascii_unicode (\<lambda>_. []) drop_table_filter = (txt_sql, params)"
    by (cases "parseFilterNode ascii_unicode (\<lambda>_. []) drop_table_filter")
  from filter_text_carries_no_values [OF ascii_unicode_ok p] p show ?thesis by blast
qed

section \<open>Numbers as date values\<close>

lemma strip_graphic:
  assumes "strip_one es s = Some r" and "\<forall>e \<in> set es. \<forall>x \<in> set e. \<not> is_graphic x"
    and "c \<in> set s" and "is_graphic c"
  shows "c \<in> set r"
proof -
  from assms(1) obtain e where "e \<in> set es" "s = e @ r"
    by (auto simp: strip_one_def strip_prefix_Some filter_eq_Cons_iff split: list.splits)
  with assms(2-4) show ?thesis by auto
qed

lemma trim_left_keeps:
  assumes "\<forall>e \<in> set es. \<forall>x \<in> set e. \<not> is_graphic x" and "c \<in> set s" and "is_graphic c"
  shows "c \<in> set (trim_left_of es s)"
  using assms
proof (induction es s rule: trim_left_of.induct)
  case (1 es s)
  show ?case
  proof (cases "strip_one es s")
    case None
    with 1 show ?thesis by (simp add: trim_left_of.simps [of es s])
  next
    case (Some r)
    with 1 strip_graphic [OF Some] show ?thesis by (simp add: trim_left_of.simps [of es s])
  qed
qed

lemma spaces_not_graphic: "\<forall>e \<in> set space_encodings. \<forall>x \<in> set e. \<not> is_graphic x"
  by (simp add: space_encodings_def bytes_def is_graphic_def byte_of_def)

lemma trim_space_keeps: "c \<in> set s \<Longrightarrow> is_graphic c \<Longrightarrow> c \<in> set (trim_space s)"
proof -
  assume c: "c \<in> set s" "is_graphic c"
  from trim_left_keeps [OF spaces_not_graphic c] have 1: "c \<in> set (rev (trim_left_of space_encodings s))" by simp
  have "\<forall>e \<in> set (map rev space_encodings). \<forall>x \<in> set e. \<not> is_graphic x" using spaces_not_graphic by simp
  from trim_left_keeps [OF this 1 c(2)] show ?thesis by (simp add: trim_space_def Let_def)
qed

lemma parse_nat_digits: "parse_nat s = Some n \<Longrightarrow> c \<in> set s \<Longrightarrow> is_digit c"
  by (auto simp: parse_nat_def list_all_iff split: if_splits)

lemma parse_int64_chars:
  assumes "parse_int64 s = Some n" and "c \<in> set s"
  shows "is_digit c \<or> c = CHR ''-'' \<or> c = CHR ''+''"
proof (cases s)
  case (Cons x xs)
  with assms show ?thesis
    by (auto simp: parse_int64_def Let_def dest: parse_nat_digits split: if_splits option.splits)
qed (use assms in simp)

definition and_group :: "row list \<Rightarrow> row" where
  "and_group cs = [(''type'', GStr ''group''), (''logic'', GStr ''AND''), (''conditions'', GList (map GMap cs))]"

definition epoch_condition :: "string \<Rightarrow> string \<Rightarrow> f64 \<Rightarrow> row" where
  "epoch_condition opr f x = [(''type'', GStr ''condition''), (''operator'', GStr opr), (''field'', GStr f),
     (''value'', GFloat x), (''format'', GStr ''EPOCH_MILLIS'')]"

lemma parse_and_group:
  "parseFilterNode u ff (and_group cs) =
     combine ''AND'' (filter (\<lambda>p. fst p \<noteq> []) (map (parseFilterNode u ff) cs))"
proof -
  have "List.map_filter as_map (map GMap cs) = cs" by (induction cs) (simp_all add: map_filter_simps)
  then show ?thesis
    by (simp add: parseFilterNode.simps [of u ff "and_group cs"])
      (simp add: and_group_def group_logic_def group_conditions_def row_str_def row_val_def)
qed

text \<open>A date condition in \<open>EPOCH_MILLIS\<close> whose value is a JSON number that prints in exponent
  form (Go's \<open>%v\<close> does so from a million on, hence for every present date) is dropped
  without an error: a group of it and further conditions is a group of those conditions alone, so
  the query matches more rows than the filter says.\<close>

theorem numeric_epoch_condition_dropped:
  assumes opr: "opr \<in> {''DATE_BEFORE'', ''DATE_AFTER'', ''DATE_EQUALS''}" and e: "CHR ''e'' \<in> set (ff x)"
  shows "parseFilterNode u ff (and_group (epoch_condition opr f x # others)) =
    parseFilterNode u ff (and_group others)"
proof -
  have g: "is_graphic CHR ''e''" "\<not> is_digit CHR ''e''" by (simp_all add: is_graphic_def is_digit_def byte_of_def)
  have "parse_int64 (trim_space (ff x)) = None"
  proof (cases "parse_int64 (trim_space (ff x))")
    case (Some n)
    from parse_int64_chars [OF this trim_space_keeps [OF e g(1)]] g(2) show ?thesis by simp
  qed simp
  then have r: "resolveDateFilterValue ff (GFloat x) ''EPOCH_MILLIS'' = None"
    by (simp add: resolveDateFilterValue_def)
  have "field_condition ff field opr (GFloat x) ''EPOCH_MILLIS'' = no_sql" for field
    using opr r by (auto simp: field_condition_def op_sql_def text_op_def date_op_sql_def)
  then have "condition_sql u ff (epoch_condition opr f x) = no_sql"
    using opr by (auto simp: condition_sql_def epoch_condition_def row_str_def row_val_def split: option.splits)
  then have "parseFilterNode u ff (epoch_condition opr f x) = no_sql"
    by (simp add: parseFilterNode.simps [of u ff "epoch_condition opr f x"])
      (simp add: epoch_condition_def row_str_def row_val_def)
  then show ?thesis by (simp add: parse_and_group no_sql_def)
qed

theorem numeric_epoch_condition_dropped_witness:
  "parseFilterNode ascii_unicode (\<lambda>_. ''1.7833284e+12'')
     (and_group [epoch_condition ''DATE_AFTER'' ''_data.x'' 0x4279F36F08590000]) =
   parseFilterNode ascii_unicode (\<lambda>_. ''1.7833284e+12'') (and_group [])"
  by (rule numeric_epoch_condition_dropped) simp_all

section \<open>HAVING expressions\<close>

text \<open>The second half of the pattern adds nothing to the first.\<close>

lemma keyword_chars: "k \<in> {''AND'', ''OR'', ''NOT''} \<Longrightarrow> list_all having_char k"
  by (elim insertE emptyE) (simp_all add: having_char_def is_upper_def byte_of_def)

lemma spaces_chars: "list_all re_space s \<Longrightarrow> list_all having_char s"
  by (simp add: list_all_iff having_char_def)

lemma having_pattern_iff: "having_pattern s \<longleftrightarrow> safe_having s"
proof
  assume "having_pattern s"
  then show "safe_having s"
  proof induction
    case (Connect s sp1 k sp2 t)
    then show ?case using keyword_chars [of k] spaces_chars [of sp1] spaces_chars [of sp2]
      by (simp only: safe_having_def list_all_append append_is_Nil_conv) simp
  qed (simp add: safe_having_def)
qed (simp add: safe_having_def Run)

definition ident_of :: "string \<Rightarrow> bool" where
  "ident_of s \<longleftrightarrow> s \<noteq> [] \<and> ident_start (hd s) \<and> list_all ident_char s"

lemma ident_tokens_ident: "t \<in> set (ident_tokens s) \<Longrightarrow> ident_of t"
proof (induction s rule: ident_tokens.induct)
  case (2 c cs)
  have "list_all ident_char (takeWhile ident_char cs)" by (auto simp: list_all_iff dest: set_takeWhileD)
  then show ?case using 2 by (auto simp: ident_of_def ident_char_def split: if_splits)
qed simp

text \<open>Every maximal run of identifier characters that does not start with a digit is a token.\<close>

lemma ident_tokens_complete:
  assumes "\<forall>x \<in> set pre. \<not> ident_char x" and "ident_of t" and "post = [] \<or> \<not> ident_char (hd post)"
  shows "ident_tokens (pre @ t @ post) = t # ident_tokens post"
  using assms(1)
proof (induction pre)
  case Nil
  obtain c cs where t: "t = c # cs" "ident_start c" "list_all ident_char cs"
    using assms(2) by (cases t) (auto simp: ident_of_def)
  have "takeWhile ident_char (cs @ post) = cs" "dropWhile ident_char (cs @ post) = post"
    using t(3) assms(3) by (auto simp: list_all_iff takeWhile_append dropWhile_append takeWhile_eq_Nil_iff
        dropWhile_eq_self_iff)
  with t show ?case by simp
next
  case (Cons x pre)
  then have "\<not> ident_start x" by (simp add: ident_char_def)
  with Cons show ?case by simp
qed

text \<open>C36. An accepted HAVING expression contains only white space, letters, digits and
  \<open>()_.><!=+-*/\<close>, so neither quotes nor a statement separator, and every identifier in it is a
  keyword, in any case, or one of the aggregations' aliases: no column or function name passes.\<close>

theorem having_expression_safe:
  assumes "parseHavingExpression u expr (Some aliases) = Some h" and "h \<noteq> []"
  shows "having_pattern h \<and> (\<forall>c \<in> set h. c \<notin> set [CHR 0x22, CHR '';'', CHR ''['', CHR 0x27, CHR 0x5C, CHR 0x00]) \<and>
    (\<forall>t \<in> set (ident_tokens h). t \<in> set aliases \<or> t \<in> set sql_keywords \<or> un_upper u t \<in> set sql_keywords)"
proof -
  from assms have s: "safe_having h"
    and t: "\<forall>t \<in> set (ident_tokens h). t \<in> set sql_keywords \<or> un_upper u t \<in> set sql_keywords \<or> t \<in> set aliases"
    by (auto simp: parseHavingExpression_def Let_def list_all_iff split: if_splits)
  have "c \<notin> set [CHR 0x22, CHR '';'', CHR ''['', CHR 0x27, CHR 0x5C, CHR 0x00]" if "having_char c" for c
    using that by (auto simp: having_char_def re_space_def is_lower_def is_upper_def is_digit_def byte_of_def)
  with s t show ?thesis by (auto simp: having_pattern_iff safe_having_def list_all_iff)
qed

lemma having_example:
  "parseHavingExpression ascii_unicode ''cnt>5&&s<2'' (Some [''cnt'', ''s'']) = Some ''cnt>5 AND s<2''"
proof -
  have 1: "replace_all ''&&'' '' AND '' ''cnt>5&&s<2'' = ''cnt>5 AND s<2''"
    and 2: "replace_all ''||'' '' OR '' ''cnt>5 AND s<2'' = ''cnt>5 AND s<2''"
    and 3: "replace_all ''=='' ''='' ''cnt>5 AND s<2'' = ''cnt>5 AND s<2''"
    by (simp_all add: replace_all_Cons)
  have 4: "trim_space ''cnt>5 AND s<2'' = ''cnt>5 AND s<2''"
    by (rule trim_space_graphic) (simp_all add: is_graphic_def byte_of_def)
  have 5: "safe_having ''cnt>5 AND s<2''"
    by (simp add: safe_having_def having_char_def re_space_def is_lower_def is_upper_def is_digit_def byte_of_def)
  have 6: "ident_tokens ''cnt>5 AND s<2'' = [''cnt'', ''AND'', ''s'']"
    by (simp add: ident_start_def ident_char_def is_lower_def is_upper_def is_digit_def byte_of_def)
  have 7: "list_all (\<lambda>tok. tok \<in> set sql_keywords \<or> un_upper ascii_unicode tok \<in> set sql_keywords
      \<or> tok \<in> set [''cnt'', ''s'']) [''cnt'', ''AND'', ''s'']"
    by (simp add: sql_keywords_def)
  show ?thesis
    unfolding parseHavingExpression_def Let_def 1 2 3 4 6 using 5 7 by simp
qed

theorem having_expression_safe_witness:
  "parseHavingExpression ascii_unicode ''cnt>5&&s<2'' (Some [''cnt'', ''s'']) = Some ''cnt>5 AND s<2'' \<and>
   having_pattern ''cnt>5 AND s<2''"
  using having_example having_expression_safe [OF having_example] by simp

end
