(* ===== verification/HistoricalQuery_Props.thy ===== *)
theory HistoricalQuery_Props
  imports HistoricalQuery DuckEngine_Props Filters_Props
begin

text \<open>
  What historical analysis guarantees: a query binds exactly its parameters, whatever the rule; a
  request leaves the engine as it should be, however it ends; times shown are times accepted;
  the rule's own clock does not matter. And what it does not do: see the mixed-case aliases.
\<close>

section \<open>Placeholders\<close>

lemma qmarks_0_ident: "list_all ident_byte c \<Longrightarrow> qmarks c = 0"
  using ident_byte_sql by simp

lemma qmarks_quoted [simp]: "qmarks (quoted s) = qmarks s"
  by (simp add: quoted_def)

lemma trim_right_slashes_subset: "set (trim_right_slashes s) \<subseteq> set s"
  by (auto simp: trim_right_slashes_def dest: set_dropWhileD)

lemma qmarks_iceberg:
  assumes "CHR ''?'' \<notin> set path"
  shows "qmarks (iceberg_source path) = 0"
proof -
  have "qmarks (trim_right_slashes path) = 0"
    using assms trim_right_slashes_subset by (auto simp: qmarks_0_iff)
  then show ?thesis by (simp add: iceberg_source_def)
qed

lemma path_regex_chars:
  assumes "icebergS3PathRegex path"
  shows "set path \<subseteq> {c. path_char c} \<union> set ''s3://''"
proof -
  have "set path = set (take 5 path) \<union> set (List.drop 5 path)"
    by (metis append_take_drop_id set_append)
  with assms show ?thesis unfolding icebergS3PathRegex_def list_all_iff by (simp only:) blast
qed

text \<open>A path of the expected form stays inside its literal and adds no placeholder; the default is one.\<close>

lemma path_regex_excludes:
  assumes "icebergS3PathRegex path" "\<not> path_char c" "c \<notin> set ''s3://''"
  shows "c \<notin> set (trim_right_slashes path)"
  using path_regex_chars [OF assms(1)] trim_right_slashes_subset assms(2,3) by blast

lemma valid_path_stays_in_its_literal:
  assumes "icebergS3PathRegex path"
  shows "apos \<notin> set (trim_right_slashes path)" "qmarks (iceberg_source path) = 0"
proof -
  have "\<not> path_char apos" "\<not> path_char (CHR ''?'')" by code_simp+
  then have no: "apos \<notin> set (trim_right_slashes path)" "CHR ''?'' \<notin> set (trim_right_slashes path)"
    using path_regex_excludes [OF assms] by simp_all
  show "apos \<notin> set (trim_right_slashes path)" by (rule no(1))
  from no(2) show "qmarks (iceberg_source path) = 0" by (simp add: iceberg_source_def qmarks_0_iff)
qed

lemma default_path_valid:
  "icebergS3PathRegex ''s3://warehouse/stream_auth.db/auth_txn_raw_union_v1''"
  by code_simp

text \<open>And a path that was only reported: its quote ends the literal, the rest of it is SQL.\<close>

lemma reported_path_leaves_its_literal:
  "let path = ''s3://a'' @ apos # '') --'';
       q = ''('' @ line_at 8 @ ''SELECT * FROM iceberg_scan('' @ quoted ''s3://a'' @ '') --''
   in \<not> icebergS3PathRegex path \<and> take (length q) (iceberg_source path) = q"
  by code_simp

lemma group_columns_idents:
  "unicode_ok u \<Longrightarrow> group_columns u ff ks = Inr cs \<Longrightarrow> \<forall>c \<in> set cs. list_all ident_byte c"
proof (induction ks arbitrary: cs)
  case (Cons k ks)
  from Cons.prems(2) obtain c cs' where "validateIdentifier u (translateField (fmt_v ff k)) = Some c"
    "group_columns u ff ks = Inr cs'" "cs = c # cs'"
    by (cases "group_columns u ff ks") (auto split: option.splits)
  with Cons validated_bytes(2) show ?case by auto
qed simp

lemma qmarks_key_part: "qmarks (key_part c) = qmarks c"
  by (simp add: key_part_def)

lemma group_sql_qmarks:
  assumes u: "unicode_ok u" and g: "group_sql u ff rule = Inr (keys, grp)"
  shows "qmarks keys = 0" "qmarks grp = 0"
proof -
  let ?ks = "sub_list (sub_map rule ''grouping'') ''keys''"
  have "qmarks keys = 0 \<and> qmarks grp = 0"
  proof (cases "length ?ks = 1 \<and> fmt_v ff (hd ?ks) = ''__GLOBAL__''")
    case True
    then show ?thesis using g by (auto simp: group_sql_def Let_def)
  next
    case False
    then obtain cs where cs: "group_columns u ff ?ks = Inr cs"
      and keys: "keys = join ('' || '' @ quoted ''|'' @ '' || '') (map key_part cs) @ '' as groupKey''"
      and grp: "grp = ''GROUP BY window_start, '' @ join '', '' cs"
      using g unfolding group_sql_def Let_def by (auto split: sum.splits if_splits)
    have 0: "\<forall>c \<in> set cs. qmarks c = 0" using group_columns_idents [OF u cs] qmarks_0_ident by blast
    have "qmarks (join ('' || '' @ quoted ''|'' @ '' || '') (map key_part cs)) = 0"
      using 0 by (subst qmarks_join) (simp_all add: qmarks_key_part comp_def)
    moreover have "qmarks (join '', '' cs) = 0" using 0 by (subst qmarks_join) simp_all
    ultimately show ?thesis by (simp add: keys grp)
  qed
  then show "qmarks keys = 0" "qmarks grp = 0" by simp_all
qed

lemma agg_select_qmarks:
  "list_all ident_byte f \<Longrightarrow> list_all ident_byte a \<Longrightarrow> qmarks (agg_select u fn f a) = 0"
  using qmarks_0_ident [of f] qmarks_0_ident [of a] by (auto simp: agg_select_def Let_def)

lemma agg_sql_cases:
  assumes "agg_sql u (a # aggs) = Inr qs"
  obtains "as_map a = None" "agg_sql u aggs = Inr qs"
  | agg f al qs' where "as_map a = Some agg" "validateIdentifier u (translateField (row_str agg ''field'')) = Some f"
      "validateIdentifier u (row_str agg ''alias'') = Some al" "agg_sql u aggs = Inr qs'"
      "qs = (agg_select u (row_str agg ''function'') f al, al) # qs'"
  using assms by (cases "agg_sql u aggs") (auto split: option.splits)

lemma agg_sql_qmarks:
  "unicode_ok u \<Longrightarrow> agg_sql u aggs = Inr qs \<Longrightarrow> \<forall>q \<in> set qs. qmarks (fst q) = 0"
proof (induction aggs arbitrary: qs)
  case (Cons a aggs)
  from Cons.prems(2) show ?case
  proof (cases rule: agg_sql_cases)
    case 1
    with Cons show ?thesis by blast
  next
    case (2 agg f al qs')
    with Cons.IH [OF Cons.prems(1) 2(4)] agg_select_qmarks validated_bytes(2) [OF Cons.prems(1)]
    show ?thesis by auto
  qed
qed simp

lemma digit_not_qmark: "is_digit c \<Longrightarrow> c \<noteq> CHR ''?''"
  by (auto simp: is_digit_def byte_of_def)

lemma qmarks_show_int: "qmarks (show_int n) = 0"
proof -
  have d: "qmarks (show_nat k) = 0" for k
    using show_nat_digits [of k] digit_not_qmark by (auto simp: qmarks_0_iff list_all_iff)
  show ?thesis by (simp add: show_int_def d)
qed

lemma threshold_qmarks: "qmarks (threshold_col u rule aliases) = 0"
proof (cases "parseHavingExpression u (row_str (sub_map rule ''having_thresholds'') ''expression'') (Some aliases)")
  case (Some h)
  show ?thesis
  proof (cases "h = []")
    case False
    with Some have "safe_having h"
      by (auto simp: parseHavingExpression_def Let_def split: if_splits)
    then have "CHR ''?'' \<notin> set h"
      by (auto simp: safe_having_def list_all_iff having_char_def re_space_def is_lower_def is_upper_def
          is_digit_def byte_of_def)
    then show ?thesis using Some by (simp add: threshold_col_def qmarks_0_iff [symmetric])
  qed (simp add: threshold_col_def Some)
qed (simp add: threshold_col_def)

lemma where_filter_qmarks:
  assumes "unicode_ok u" and "where_filter u ff rule = (whr, ps)"
  shows "qmarks whr = length ps"
proof -
  obtain q where p: "parseFilterNode u ff (sub_map rule ''filters'') = (q, ps)"
    and w: "whr = (if q = [] then [] else ''AND '' @ q)"
    using assms(2) by (auto simp: where_filter_def split: prod.splits)
  have "qmarks q = length ps" using parse_filter_well_formed [OF assms(1), of ff "sub_map rule ''filters''"] p
    by (simp add: well_formed_def)
  with w show ?thesis by (cases "q = []") auto
qed

lemma qmarks_range: "qmarks (range_where n) = 2" "qmarks (base_where w) = 2 + qmarks w"
  by (simp_all add: range_where_def base_where_def window_field_def)

lemma analysis_sql_parts:
  assumes "analysis_sql u ff source rule st en = Inr (q, ps)"
  obtains keys grp aggs whr ps' where "group_sql u ff rule = Inr (keys, grp)"
    "agg_sql u (sub_list rule ''aggregations'') = Inr aggs" "where_filter u ff rule = (whr, ps')"
    "ps = [GStr st, GStr en] @ ps'"
    "q = line_at 8 @ ''SELECT'' @ line_at 12 @ ''time_bucket(INTERVAL '' @ quoted (show_int (window_seconds rule) @ '' seconds'')
       @ '', try_cast('' @ window_field @ '' AS TIMESTAMP)) as window_start,''
       @ line_at 12 @ keys @ '','' @ line_at 12 @ join '', '' (map fst aggs)
       @ line_at 12 @ threshold_col u rule (map snd aggs)
       @ line_at 8 @ ''FROM '' @ source @ range_where 8 @ line_at 8 @ whr @ line_at 8 @ grp
       @ line_at 8 @ ''ORDER BY window_start DESC'' @ line_at 8 @ ''LIMIT 5000'' @ line_at 8"
  using assms unfolding analysis_sql_def Let_def by (auto split: sum.splits prod.splits)

text \<open>C19. Whatever the rule, the text of a historical query has exactly one placeholder for each bound
  parameter: the two bounds of the time range, then the values of the filter. The same holds of the
  four queries of a breakdown. The S3 path of the settings is part of the text and must have no
  question mark of its own (\<open>icebergS3PathRegex\<close> allows none, but a path it refuses is only logged).\<close>

theorem historical_queries_bind_their_parameters:
  assumes "unicode_ok u" and "CHR ''?'' \<notin> set path" and "where_filter u ff rule = (whr, vals)"
    and "analysis_sql u ff (iceberg_source path) rule st en = Inr (q, ps)"
  shows "qmarks q = length ps \<and> ps = [GStr st, GStr en] @ vals \<and>
    (\<forall>t \<in> {modality_sql (iceberg_source path) whr, category_sql ''authresult'' (iceberg_source path) whr,
        category_sql ''locationstatecode'' (iceberg_source path) whr, score_sql (iceberg_source path) whr}.
       qmarks t = length ps)"
proof -
  note src = qmarks_iceberg [OF assms(2)] and whr = where_filter_qmarks [OF assms(1,3)]
  from assms(4) obtain keys grp aggs where
    g: "group_sql u ff rule = Inr (keys, grp)" and a: "agg_sql u (sub_list rule ''aggregations'') = Inr aggs"
    and ps: "ps = [GStr st, GStr en] @ vals"
    and q: "q = line_at 8 @ ''SELECT'' @ line_at 12 @ ''time_bucket(INTERVAL '' @ quoted (show_int (window_seconds rule) @ '' seconds'')
       @ '', try_cast('' @ window_field @ '' AS TIMESTAMP)) as window_start,''
       @ line_at 12 @ keys @ '','' @ line_at 12 @ join '', '' (map fst aggs)
       @ line_at 12 @ threshold_col u rule (map snd aggs)
       @ line_at 8 @ ''FROM '' @ iceberg_source path @ range_where 8 @ line_at 8 @ whr @ line_at 8 @ grp
       @ line_at 8 @ ''ORDER BY window_start DESC'' @ line_at 8 @ ''LIMIT 5000'' @ line_at 8"
    by (elim analysis_sql_parts) (simp only: assms(3) prod.inject)
  have "qmarks (join '', '' (map fst aggs)) = 0"
    using agg_sql_qmarks [OF assms(1) a] by (subst qmarks_join) (simp_all add: comp_def)
  then have "qmarks q = 2 + length vals"
    by (simp add: q group_sql_qmarks [OF assms(1) g] threshold_qmarks qmarks_range src whr qmarks_show_int window_field_def)
  moreover have "qmarks (modality_sql (iceberg_source path) whr) = 2 + length vals"
    by (simp add: modality_sql_def modalityBreakdownCols_def Let_def qmarks_range src whr)
  moreover have "qmarks (category_sql ''authresult'' (iceberg_source path) whr) = 2 + length vals"
    "qmarks (category_sql ''locationstatecode'' (iceberg_source path) whr) = 2 + length vals"
    by (simp_all add: category_sql_def qmarks_range src whr)
  moreover have "qmarks (score_sql (iceberg_source path) whr) = 2 + length vals"
    by (simp add: score_sql_def qmarks_range src whr)
  ultimately show ?thesis using ps by simp
qed

abbreviation global_rule :: row where
  "global_rule \<equiv> [(''grouping'', GMap [(''keys'', GList [GStr ''__GLOBAL__''])])]"

lemma global_rule_fields:
  "group_sql u ff global_rule = Inr (quoted ''__GLOBAL__'' @ '' as groupKey'', ''GROUP BY window_start'')"
  "sub_list global_rule ''aggregations'' = []" "where_filter u ff global_rule = ([], [])"
  by (simp_all add: group_sql_def where_filter_def sub_map_def sub_list_def row_val_def parseFilterNode.simps [of _ _ "[]"] no_sql_def)

theorem historical_queries_bind_their_parameters_witness:
  "\<exists>q ps. analysis_sql ascii_unicode (\<lambda>_. []) (iceberg_source ''s3://w'') global_rule ''a'' ''b'' = Inr (q, ps) \<and>
    qmarks q = length ps"
proof -
  obtain q ps where q: "analysis_sql ascii_unicode (\<lambda>_. []) (iceberg_source ''s3://w'') global_rule ''a'' ''b'' = Inr (q, ps)"
    by (simp add: analysis_sql_def global_rule_fields)
  have n: "CHR ''?'' \<notin> set ''s3://w''" by simp
  from historical_queries_bind_their_parameters [OF ascii_unicode_ok n global_rule_fields(3) q] q
  show ?thesis by blast
qed

section \<open>The engine after a request\<close>

lemma prepare_outcome:
  assumes "conn_inv (hc_s3 cfg) dk" and "prepareIcebergQuery cfg env st en dk = (dk', res)"
  shows "conn_inv (hc_s3 cfg) dk' \<and>
    (case res of
       Inr p \<Rightarrow> dk_slot dk' \<and> (dk_slot dk \<longrightarrow> he_wait env = Got)
     | Inl e \<Rightarrow> (dk_slot dk' \<longrightarrow> dk' = dk) \<and> (e = EngineBusy \<or> e = RequestCancelled \<longrightarrow> dk_slot dk \<and> dk' = dk))"
proof (cases "time_range (he_now env) st en")
  case (Inl e)
  then have "e = InvalidEnd \<or> e = InvalidStart"
    by (auto simp: time_range_def split: option.splits)
  with Inl assms show ?thesis by (auto simp: prepareIcebergQuery_def)
next
  case (Inr se)
  obtain s e where se: "se = (s, e)" by (cases se)
  show ?thesis
  proof (cases "dk_slot dk \<and> he_wait env \<noteq> Got")
    case True
    with assms Inr se show ?thesis
      by (cases "he_wait env") (auto simp: prepareIcebergQuery_def acquireDuckDB_def)
  next
    case False
    then have acq: "acquireDuckDB (he_wait env) dk = (take_slot dk, Got)" by (auto simp: acquireDuckDB_def)
    obtain d r where i: "initDuckDB (hc_s3 cfg) (he_init env) (take_slot dk) = (d, r)"
      by (cases "initDuckDB (hc_s3 cfg) (he_init env) (take_slot dk)")
    have "conn_inv (hc_s3 cfg) (take_slot dk)" using assms(1) by simp
    from init_inv [OF this i] False assms(2) Inr se acq i show ?thesis
      by (cases r) (auto simp: prepareIcebergQuery_def)
  qed
qed

lemma run_query_inv:
  "conn_inv c dk \<Longrightarrow> run_query db q ps dk = (dk', r) \<Longrightarrow> conn_inv c dk' \<and> (r = Inl e \<longrightarrow> e = QueryFailed)"
  using maybe_reset_inv by (auto simp: run_query_def split: sum.splits)

definition keeps_conn :: "s3_config \<Rightarrow> (duck \<Rightarrow> duck \<times> 'a) \<Rightarrow> bool" where
  "keeps_conn c f \<longleftrightarrow> (\<forall>d. conn_inv c d \<longrightarrow> conn_inv c (fst (f d)))"

lemma keeps_query_rows: "keeps_conn c (query_rows db conv q ps)"
proof -
  have "conn_inv c (fst (query_rows db conv q ps d))" if d: "conn_inv c d" for d
  proof -
    obtain d' r where r: "run_query db q ps d = (d', r)" by (cases "run_query db q ps d")
    with run_query_inv [OF d r] show ?thesis by (cases r) (simp_all add: query_rows_def)
  qed
  then show ?thesis by (simp add: keeps_conn_def)
qed

lemma keeps_run_all: "\<forall>nf \<in> set qs. keeps_conn c (snd nf) \<Longrightarrow> keeps_conn c (run_all qs)"
proof (induction qs)
  case (Cons nf qs)
  obtain name f where nf: "nf = (name, f)" by (cases nf)
  have "conn_inv c (fst (run_all ((name, f) # qs) d))" if d: "conn_inv c d" for d
  proof -
    obtain d' v where f: "f d = (d', v)" by (cases "f d")
    have "conn_inv c d'" using Cons.prems nf d f by (fastforce simp: keeps_conn_def)
    then show ?thesis using Cons f by (cases v) (auto simp: keeps_conn_def split: prod.split)
  qed
  then show ?case by (simp add: keeps_conn_def nf)
qed (simp add: keeps_conn_def)

lemma keeps_breakdown: "keeps_conn c (run_all (breakdown_queries env src whr ps))"
  by (rule keeps_run_all) (simp add: breakdown_queries_def keeps_query_rows)

definition fails_softly :: "('s \<Rightarrow> 's \<times> (hist_error + 'a)) \<Rightarrow> bool" where
  "fails_softly f \<longleftrightarrow> (\<forall>d d' e. f d = (d', Inl e) \<longrightarrow> e \<noteq> EngineBusy)"

lemma fails_softly_query_rows:
  assumes "\<And>a. conv a \<noteq> Inl EngineBusy"
  shows "fails_softly (query_rows db conv q ps)"
  using assms by (auto simp: fails_softly_def query_rows_def run_query_def split: prod.splits sum.splits)

lemma fails_softly_run_all: "\<forall>nf \<in> set qs. fails_softly (snd nf) \<Longrightarrow> fails_softly (run_all qs)"
proof (induction qs)
  case (Cons nf qs)
  obtain name f where nf: "nf = (name, f)" by (cases nf)
  have "e \<noteq> EngineBusy" if r: "run_all ((name, f) # qs) d = (d', Inl e)" for d d' e
  proof -
    obtain d1 v where f: "f d = (d1, v)" by (cases "f d")
    obtain d2 w where q: "run_all qs d1 = (d2, w)" by (cases "run_all qs d1")
    from Cons nf have "fails_softly f" "fails_softly (run_all qs)" by simp_all
    with r f q show ?thesis by (cases v; cases w) (auto simp: fails_softly_def)
  qed
  then show ?case by (simp add: fails_softly_def nf)
qed (simp add: fails_softly_def)

lemma breakdown_fails_softly: "fails_softly (run_all (breakdown_queries env src whr ps))"
proof -
  have "modality_rows a \<noteq> Inl EngineBusy" for a
    by (simp add: modality_rows_def split: option.split)
  moreover have "label_rows a \<noteq> Inl EngineBusy" for a
    by (simp add: label_rows_def split: option.split)
  ultimately show ?thesis
    by (intro fails_softly_run_all) (simp add: breakdown_queries_def fails_softly_query_rows)
qed

lemma group_columns_error: "group_columns u ff ks = Inl e \<Longrightarrow> \<exists>k. e = InvalidGroupKey k"
proof (induction ks)
  case (Cons k ks)
  then show ?case by (cases "group_columns u ff ks") (auto split: option.splits)
qed simp

lemma agg_sql_error: "agg_sql u aggs = Inl e \<Longrightarrow> \<exists>f. e = InvalidAggField f \<or> e = InvalidAlias f"
proof (induction aggs)
  case (Cons a aggs)
  then show ?case by (cases "agg_sql u aggs") (auto split: option.splits)
qed simp

lemma analysis_sql_error: "analysis_sql u ff src rule st en = Inl e \<Longrightarrow> e \<noteq> EngineBusy"
  unfolding analysis_sql_def group_sql_def Let_def
  by (auto split: sum.splits if_splits prod.splits dest: group_columns_error agg_sql_error)

lemma analysis_rows_busy: "analysis_rows a \<noteq> Inl EngineBusy"
  by (simp add: analysis_rows_def split: option.split)

text \<open>What a historical request leaves behind: a consistent engine, its slot free if it was, and an
  unchanged one if it was turned away.\<close>

definition leaves_engine :: "s3_config \<Rightarrow> duck \<Rightarrow> duck \<times> (hist_error + 'a) \<Rightarrow> bool" where
  "leaves_engine c dk res \<longleftrightarrow>
     (case res of (dk', r) \<Rightarrow>
        conn_inv c dk' \<and> (\<not> dk_slot dk \<longrightarrow> \<not> dk_slot dk' \<and> r \<noteq> Inl EngineBusy) \<and> (r = Inl EngineBusy \<longrightarrow> dk' = dk))"

lemma leaves_engineI:
  assumes "conn_inv c d" and "\<not> dk_slot d" and "r \<noteq> Inl EngineBusy"
  shows "leaves_engine c dk (d, r)"
  using assms by (simp add: leaves_engine_def)

lemma leaves_engine_refused:
  assumes "conn_inv c d" and "(dk_slot d \<longrightarrow> d = dk) \<and> (e = EngineBusy \<or> e = RequestCancelled \<longrightarrow> dk_slot dk \<and> d = dk)"
  shows "leaves_engine c dk (d, Inl e)"
  using assms unfolding leaves_engine_def prod.case by blast

lemma analysis_leaves_engine:
  assumes "conn_inv (hc_s3 cfg) dk"
  shows "leaves_engine (hc_s3 cfg) dk (runHistoricalAnalysis u ff cfg env rule st en dk)"
proof -
  obtain d r where p: "prepareIcebergQuery cfg env st en dk = (d, r)" by (cases "prepareIcebergQuery cfg env st en dk")
  note o = prepare_outcome [OF assms p]
  show ?thesis
  proof (cases r)
    case (Inl e)
    with p have run: "runHistoricalAnalysis u ff cfg env rule st en dk = (d, Inl e)" by (simp add: runHistoricalAnalysis_def)
    from o [unfolded Inl sum.case] show ?thesis unfolding run by (elim conjE) (rule leaves_engine_refused, assumption, blast)
  next
    case pr: (Inr pr)
    have d: "conn_inv (hc_s3 cfg) d" using o pr by simp
    show ?thesis
    proof (cases "analysis_sql u ff (pr_source pr) rule (pr_start pr) (pr_end pr)")
      case (Inl e)
      with p pr have run: "runHistoricalAnalysis u ff cfg env rule st en dk = (free_slot d, Inl e)"
        by (simp add: runHistoricalAnalysis_def)
      show ?thesis unfolding run by (rule leaves_engineI) (use d analysis_sql_error [OF Inl] in simp_all)
    next
      case (Inr qp)
      obtain q ps where qp: "qp = (q, ps)" by (cases qp)
      obtain d1 r1 where q: "run_query (he_db env) q ps d = (d1, r1)" by (cases "run_query (he_db env) q ps d")
      with p pr Inr qp have run: "runHistoricalAnalysis u ff cfg env rule st en dk =
          (free_slot d1, case r1 of Inl e \<Rightarrow> Inl e | Inr a \<Rightarrow> analysis_rows a)"
        by (cases r1) (simp_all add: runHistoricalAnalysis_def)
      show ?thesis unfolding run
        by (rule leaves_engineI) (use run_query_inv [OF d q] in \<open>auto simp: analysis_rows_busy split: sum.splits\<close>)
    qed
  qed
qed

lemma breakdown_leaves_engine:
  assumes "conn_inv (hc_s3 cfg) dk"
  shows "leaves_engine (hc_s3 cfg) dk (runHistoricalBreakdown u ff cfg env rule st en dk)"
proof -
  obtain d r where p: "prepareIcebergQuery cfg env st en dk = (d, r)" by (cases "prepareIcebergQuery cfg env st en dk")
  note o = prepare_outcome [OF assms p]
  show ?thesis
  proof (cases r)
    case (Inl e)
    with p have run: "runHistoricalBreakdown u ff cfg env rule st en dk = (d, Inl e)" by (simp add: runHistoricalBreakdown_def)
    from o [unfolded Inl sum.case] show ?thesis unfolding run by (elim conjE) (rule leaves_engine_refused, assumption, blast)
  next
    case (Inr pr)
    have d: "conn_inv (hc_s3 cfg) d" using o Inr by simp
    obtain whr ps where w: "where_filter u ff rule = (whr, ps)" by (cases "where_filter u ff rule")
    let ?qs = "run_all (breakdown_queries env (pr_source pr) whr ([GStr (pr_start pr), GStr (pr_end pr)] @ ps))"
    obtain d2 r2 where b: "?qs d = (d2, r2)" by (cases "?qs d")
    have "conn_inv (hc_s3 cfg) d2" using keeps_breakdown d b unfolding keeps_conn_def by (metis fst_conv)
    moreover have "r2 \<noteq> Inl EngineBusy" using breakdown_fails_softly b unfolding fails_softly_def by blast
    moreover have "runHistoricalBreakdown u ff cfg env rule st en dk = (free_slot d2, r2)"
      using p Inr w b by (simp add: runHistoricalBreakdown_def)
    ultimately show ?thesis by (simp add: leaves_engineI)
  qed
qed

text \<open>C14. However a historical request ends, a bad range, a full slot, a connection that cannot be
  opened, a bad rule, a failed query, rows that cannot be read or success, it leaves the engine
  consistent (pinned connection configured, no handle leaked) and does not hold the query slot.
  A request that finds the slot free is never turned away as busy; one that is turned away has
  changed nothing. So it is for a breakdown.\<close>

theorem historical_requests_release_the_engine:
  assumes "conn_inv (hc_s3 cfg) dk"
    and "runHistoricalAnalysis u ff cfg env rule st en dk = (dk1, res1)"
    and "runHistoricalBreakdown u ff cfg env rule st en dk = (dk2, res2)"
  shows "conn_inv (hc_s3 cfg) dk1 \<and> conn_inv (hc_s3 cfg) dk2 \<and>
    (\<not> dk_slot dk \<longrightarrow> \<not> dk_slot dk1 \<and> \<not> dk_slot dk2 \<and> res1 \<noteq> Inl EngineBusy \<and> res2 \<noteq> Inl EngineBusy) \<and>
    (res1 = Inl EngineBusy \<longrightarrow> dk1 = dk) \<and> (res2 = Inl EngineBusy \<longrightarrow> dk2 = dk)"
  using analysis_leaves_engine [OF assms(1), of u ff env rule st en]
    breakdown_leaves_engine [OF assms(1), of u ff env rule st en]
  unfolding assms(2,3) leaves_engine_def by blast

definition quiet_env :: hist_env where
  "quiet_env = \<lparr>he_now = 0, he_wait = Busy, he_init = healthy, he_db = (\<lambda>_ _. Inl OtherError),
     he_labels = (\<lambda>_ _. Inl OtherError), he_sums = (\<lambda>_ _. Inl BadConn)\<rparr>"

abbreviation cfg0 :: hist_config where
  "cfg0 \<equiv> \<lparr>hc_s3 = \<lparr>s3_endpoint = [], s3_access = [], s3_secret = []\<rparr>, hc_path = ''s3://w''\<rparr>"

theorem historical_requests_release_the_engine_witness:
  "\<not> dk_slot (fst (runHistoricalAnalysis ascii_unicode (\<lambda>_. []) cfg0 quiet_env global_rule [] [] duck0)) \<and>
   \<not> dk_slot (fst (runHistoricalBreakdown ascii_unicode (\<lambda>_. []) cfg0 quiet_env global_rule [] [] duck0))"
proof -
  obtain dk1 r1 dk2 r2 where
    1: "runHistoricalAnalysis ascii_unicode (\<lambda>_. []) cfg0 quiet_env global_rule [] [] duck0 = (dk1, r1)"
    and 2: "runHistoricalBreakdown ascii_unicode (\<lambda>_. []) cfg0 quiet_env global_rule [] [] duck0 = (dk2, r2)"
    by (meson surj_pair)
  have i: "conn_inv (hc_s3 cfg0) duck0" and s: "\<not> dk_slot duck0"
    by (simp_all add: conn_inv_def duck0_def handles_of_def)
  from historical_requests_release_the_engine [OF i 1 2] s show ?thesis unfolding 1 2 by (simp only: fst_conv) blast
qed

section \<open>Times\<close>

lemma replace_first_absent: "old \<noteq> [] \<Longrightarrow> hd old \<notin> set s \<Longrightarrow> replace_first old new s = s"
proof (induction s)
  case (Cons c s)
  then have "strip_prefix old (c # s) = None" by (cases old) auto
  with Cons show ?case by simp
qed simp

lemma replace_all_absent: "old \<noteq> [] \<Longrightarrow> hd old \<notin> set s \<Longrightarrow> replace_all old new s = s"
proof (induction s)
  case (Cons c s)
  then have "strip_prefix old (c # s) = None" by (cases old) auto
  with Cons show ?case by (simp add: replace_all_Cons)
qed simp

text \<open>An instant whose year, in UTC and in India, has four digits.\<close>

definition year_ok :: "instant \<Rightarrow> bool" where
  "year_ok t \<longleftrightarrow> (case civil_of_day (t div 1000000000 div 86400) of (y, m, d) \<Rightarrow> 0 \<le> y \<and> y < 10000)"

definition printable_time :: "instant \<Rightarrow> bool" where
  "printable_time t \<longleftrightarrow> year_ok t \<and> year_ok (t + ist_offset * 1000000000)"

lemma format_utc_parses: "year_ok t \<Longrightarrow> time_parse layout_datetime 0 (format_datetime t) = Some (t - t mod 1000000000)"
  by (cases "civil_of_day (t div 1000000000 div 86400)") (auto simp: year_ok_def intro: format_parse_roundtrip)

lemma year_ok_trunc: "year_ok (t - t mod 1000000000) = year_ok t"
proof -
  have "(t - t mod 1000000000) div 1000000000 = t div (1000000000 :: int)" by (simp add: minus_mod_eq_mult_div)
  then show ?thesis by (simp add: year_ok_def)
qed

lemma shown_time_parses:
  assumes "printable_time t"
  shows "parseIST (format_ist t) = Some (t - t mod 1000000000)" and "format_ist t \<noteq> []"
proof -
  obtain y m d where c: "civil_of_day ((t + ist_offset * 1000000000) div 1000000000 div 86400) = (y, m, d)" "0 \<le> y" "y < 10000"
    using assms by (cases "civil_of_day ((t + ist_offset * 1000000000) div 1000000000 div 86400)")
      (auto simp: printable_time_def year_ok_def)
  note f = format_datetime_shape [OF c, folded format_ist_def]
  have "replace_first ''T'' '' '' (format_ist t) = format_ist t" using f(2) by (simp add: replace_first_absent)
  then show "parseIST (format_ist t) = Some (t - t mod 1000000000)"
    using f(1) format_parse_zone [OF c] by (simp add: parseIST_def Let_def format_ist_def)
  show "format_ist t \<noteq> []" using f(1) by auto
qed

lemma shown_range:
  "printable_time s \<Longrightarrow> printable_time e \<Longrightarrow>
    time_range now (format_ist s) (format_ist e) = Inr (s - s mod 1000000000, e - e mod 1000000000)"
  by (simp add: time_range_def shown_time_parses)

text \<open>C33. The times of result rows, printed as wall-clock times of India (UTC+5:30), are accepted as the
  bounds of a new query and stand for the same instants, to the second: the first two parameters of
  the query such a request sends to DuckDB, read as the times in UTC that the column holds, are the
  two instants. (Years of four digits.)\<close>

theorem shown_times_are_accepted:
  assumes "printable_time s" "printable_time e"
    and "prepareIcebergQuery cfg env (format_ist s) (format_ist e) dk = (dk', Inr pr)"
    and "analysis_sql u ff (pr_source pr) rule (pr_start pr) (pr_end pr) = Inr (q, ps)"
  shows "hist_cell (CTime s) = GStr (format_ist s) \<and> format_ist s = format_datetime (s + 19800 * 1000000000) \<and>
    time_range now (format_ist s) (format_ist e) = Inr (s - s mod 1000000000, e - e mod 1000000000) \<and>
    (\<exists>st en fs. ps = GStr st # GStr en # fs \<and>
      time_parse layout_datetime 0 st = Some (s - s mod 1000000000) \<and>
      time_parse layout_datetime 0 en = Some (e - e mod 1000000000))"
proof -
  have pr: "pr_start pr = format_datetime (s - s mod 1000000000)" "pr_end pr = format_datetime (e - e mod 1000000000)"
    using assms(3) by (auto simp: prepareIcebergQuery_def shown_range [OF assms(1,2)] split: prod.splits acquired.splits option.splits)
  obtain fs where ps: "ps = GStr (pr_start pr) # GStr (pr_end pr) # fs"
    using assms(4) by (auto simp: analysis_sql_def Let_def split: sum.splits prod.splits)
  have "time_parse layout_datetime 0 (format_datetime (t - t mod 1000000000)) = Some (t - t mod 1000000000)"
    if "printable_time t" for t
    using that format_utc_parses [of "t - t mod 1000000000"] by (simp add: year_ok_trunc printable_time_def)
  then show ?thesis using assms(1,2) shown_range [OF assms(1,2)] by (simp add: ps pr format_ist_def ist_offset_def)
qed

lemma civil_example: "civil_of_day 20640 = (2026, 7, 6)"
  by code_simp

theorem shown_times_are_accepted_witness:
  "\<exists>dk' pr q st en fs.
     prepareIcebergQuery cfg0 quiet_env (format_ist (1783330200 * 1000000000)) (format_ist (1783333800 * 1000000000)) duck0 = (dk', Inr pr) \<and>
     analysis_sql ascii_unicode (\<lambda>_. []) (pr_source pr) global_rule (pr_start pr) (pr_end pr) = Inr (q, GStr st # GStr en # fs) \<and>
     time_parse layout_datetime 0 st = Some (1783330200 * 1000000000) \<and> time_parse layout_datetime 0 en = Some (1783333800 * 1000000000)"
proof -
  let ?s = "1783330200 * 1000000000 :: int" and ?e = "1783333800 * 1000000000 :: int"
  have p: "printable_time ?s" "printable_time ?e"
    by (simp_all add: printable_time_def year_ok_def ist_offset_def civil_example)
  obtain dk1 where "initDuckDB (hc_s3 cfg0) healthy (take_slot duck0) = (dk1, Some (dk_fresh (take_slot duck0)))"
    using healthy_init [of "take_slot duck0" "hc_s3 cfg0"] by (auto simp: take_slot_def duck0_def)
  then obtain dk' pr where pr: "prepareIcebergQuery cfg0 quiet_env (format_ist ?s) (format_ist ?e) duck0 = (dk', Inr pr)"
    unfolding prepareIcebergQuery_def shown_range [OF p]
    by (simp add: acquireDuckDB_def quiet_env_def) (simp add: duck0_def)
  obtain q ps where q: "analysis_sql ascii_unicode (\<lambda>_. []) (pr_source pr) global_rule (pr_start pr) (pr_end pr) = Inr (q, ps)"
    by (simp add: analysis_sql_def global_rule_fields)
  from shown_times_are_accepted [OF p pr q] obtain st en fs where ps: "ps = GStr st # GStr en # fs"
    and t: "time_parse layout_datetime 0 st = Some (?s - ?s mod 1000000000)" "time_parse layout_datetime 0 en = Some (?e - ?e mod 1000000000)"
    by blast
  have "time_parse layout_datetime 0 st = Some ?s" "time_parse layout_datetime 0 en = Some ?e" using t by simp_all
  with pr q ps show ?thesis by blast
qed

section \<open>The clock of the rule\<close>

text \<open>Two rules that differ only in what their windowing says besides its size, in particular in
  the time type and the timestamp field of their live windows, give the same historical query: it
  buckets and filters by \<open>event_timestamp\<close>, in windows of at least a second.\<close>

theorem historical_query_ignores_rule_clock:
  assumes "\<And>k. k \<noteq> ''windowing'' \<Longrightarrow> row_val rule k = row_val rule' k"
    and "row_val (sub_map rule ''windowing'') ''size_ms'' = row_val (sub_map rule' ''windowing'') ''size_ms''"
  shows "analysis_sql u ff src rule st en = analysis_sql u ff src rule' st en \<and> 1 \<le> window_seconds rule"
proof -
  have k: "row_val rule ''grouping'' = row_val rule' ''grouping''" "row_val rule ''aggregations'' = row_val rule' ''aggregations''"
    "row_val rule ''filters'' = row_val rule' ''filters''"
    "row_val rule ''having_thresholds'' = row_val rule' ''having_thresholds''"
    by (rule assms(1), simp)+
  have s: "sub_map rule ''grouping'' = sub_map rule' ''grouping''" "sub_list rule ''aggregations'' = sub_list rule' ''aggregations''"
    "sub_map rule ''filters'' = sub_map rule' ''filters''"
    "sub_map rule ''having_thresholds'' = sub_map rule' ''having_thresholds''"
    by (simp_all add: sub_map_def sub_list_def k)
  have "analysis_sql u ff src rule st en = analysis_sql u ff src rule' st en"
    unfolding analysis_sql_def group_sql_def where_filter_def threshold_col_def window_seconds_def s assms(2)
    by (rule refl)
  then show ?thesis by (simp add: window_seconds_def Let_def)
qed

theorem historical_query_ignores_rule_clock_witness:
  "analysis_sql ascii_unicode (\<lambda>_. []) [] [(''windowing'', GMap [(''time_type'', GStr ''EVENT'')])] [] [] =
   analysis_sql ascii_unicode (\<lambda>_. []) [] [(''windowing'', GMap [(''time_type'', GStr ''PROCESSING'')])] [] []"
  by (rule historical_query_ignores_rule_clock [THEN conjunct1]) (simp_all add: row_val_def sub_map_def)

section \<open>Aliases in capitals\<close>

lemma validated_not_upper:
  assumes "unicode_ok u" and "validateIdentifier u name = Some a" and "c \<in> set a"
  shows "\<not> is_upper c"
proof -
  have a: "a = trim_space (un_lower u name)"
    using assms(2) by (auto simp: validateIdentifier_def Let_def split: if_splits list.splits)
  have l: "list_all (\<lambda>c. \<not> is_upper c) (un_lower u name)" using assms(1) unfolding unicode_ok_def by blast
  from assms(3) have "c \<in> set (un_lower u name)" using trim_space_set [of "un_lower u name"] unfolding a by blast
  with l show ?thesis unfolding list_all_iff by blast
qed

lemma aliases_not_upper:
  "unicode_ok u \<Longrightarrow> agg_sql u aggs = Inr qs \<Longrightarrow> a \<in> set (map snd qs) \<Longrightarrow> c \<in> set a \<Longrightarrow> \<not> is_upper c"
proof (induction aggs arbitrary: qs)
  case (Cons x aggs)
  from Cons.prems(2) show ?case
  proof (cases rule: agg_sql_cases)
    case 1
    with Cons show ?thesis by blast
  next
    case (2 agg f al qs')
    with Cons.prems(3) have "a = al \<or> a \<in> set (map snd qs')" by auto
    with Cons.IH [OF Cons.prems(1) 2(4) _ Cons.prems(4)] validated_not_upper [OF Cons.prems(1) 2(3)] Cons.prems(4)
    show ?thesis by blast
  qed
qed simp

lemma ident_char_plain: "ident_char c \<Longrightarrow> is_graphic c \<and> c \<noteq> CHR ''&'' \<and> c \<noteq> CHR ''|'' \<and> c \<noteq> CHR ''=''"
  by (auto simp: ident_char_def ident_start_def is_lower_def is_upper_def is_digit_def is_graphic_def byte_of_def)

lemma comparison_tokens:
  assumes "ident_of a" and "list_all is_digit n" and "n \<noteq> []"
  shows "a \<in> set (ident_tokens (a @ ''>'' @ n))"
proof -
  have "\<not> ident_char CHR ''>''"
    by (simp add: ident_char_def ident_start_def is_lower_def is_upper_def is_digit_def byte_of_def)
  then have "ident_tokens ([] @ a @ ''>'' @ n) = a # ident_tokens (''>'' @ n)"
    using assms(1) by (intro ident_tokens_complete) simp_all
  then show ?thesis by simp
qed

lemma comparison_cleaned:
  assumes "ident_of a" and "list_all is_digit n" and "n \<noteq> []"
  shows "replace_all ''&&'' r (a @ ''>'' @ n) = a @ ''>'' @ n" and "replace_all ''||'' r (a @ ''>'' @ n) = a @ ''>'' @ n"
    and "replace_all ''=='' r (a @ ''>'' @ n) = a @ ''>'' @ n" and "trim_space (a @ ''>'' @ n) = a @ ''>'' @ n"
proof -
  have n: "ident_char c" if "c \<in> set n" for c using assms(2) that by (simp add: list_all_iff ident_char_def)
  have a: "ident_char c" if "c \<in> set a" for c using assms(1) that by (simp add: list_all_iff ident_of_def)
  have no: "c \<notin> set (a @ ''>'' @ n)" if "c \<in> set ''&|=''" for c
  proof
    assume "c \<in> set (a @ ''>'' @ n)"
    then consider "ident_char c" | "c = CHR ''>''" using a n by auto
    then show False using that ident_char_plain [of c] by cases auto
  qed
  show "replace_all ''&&'' r (a @ ''>'' @ n) = a @ ''>'' @ n" by (rule replace_all_absent) (use no in simp_all)
  show "replace_all ''||'' r (a @ ''>'' @ n) = a @ ''>'' @ n" by (rule replace_all_absent) (use no in simp_all)
  show "replace_all ''=='' r (a @ ''>'' @ n) = a @ ''>'' @ n" by (rule replace_all_absent) (use no in simp_all)
  have ne: "a \<noteq> []" using assms(1) by (simp add: ident_of_def)
  have h: "is_graphic (hd (a @ ''>'' @ n))" "is_graphic (last (a @ ''>'' @ n))"
    using ident_char_plain [OF a [OF hd_in_set [OF ne]]] ident_char_plain [OF n [OF last_in_set [OF assms(3)]]]
      ne assms(3) by simp_all
  show "trim_space (a @ ''>'' @ n) = a @ ''>'' @ n" by (rule trim_space_graphic) (use ne h in simp_all)
qed

text \<open>A threshold on an alias that contains a capital letter is ignored: aliases are lower-cased
  when they are collected and the expression is compared with them as it is written, so the
  expression is rejected, and \<open>threshold_met\<close> is false in every row, however the data are.\<close>

theorem capital_alias_never_breaches:
  assumes u: "unicode_ok u" and aggs: "agg_sql u (sub_list rule ''aggregations'') = Inr qs"
    and a: "ident_of a" "\<exists>c \<in> set a. is_upper c" "a \<notin> set sql_keywords" "un_upper u a \<notin> set sql_keywords"
    and n: "list_all is_digit n" "n \<noteq> []"
    and expr: "row_str (sub_map rule ''having_thresholds'') ''expression'' = a @ ''>'' @ n"
  shows "threshold_col u rule (map snd qs) = '', false as threshold_met''"
proof -
  have "a \<notin> set (map snd qs)" using aliases_not_upper [OF u aggs] a(2) by blast
  then have "\<not> list_all (\<lambda>tok. tok \<in> set sql_keywords \<or> un_upper u tok \<in> set sql_keywords \<or> tok \<in> set (map snd qs))
      (ident_tokens (a @ ''>'' @ n))"
    unfolding list_all_iff using comparison_tokens [OF a(1) n] a(3,4) by blast
  then have "parseHavingExpression u (a @ ''>'' @ n) (Some (map snd qs)) = None"
    unfolding parseHavingExpression_def Let_def comparison_cleaned [OF a(1) n] by simp
  then show ?thesis by (simp add: threshold_col_def expr)
qed

abbreviation capital_rule :: row where
  "capital_rule \<equiv> [(''having_thresholds'', GMap [(''expression'', GStr ''Cnt>5'')])]"

theorem capital_alias_never_breaches_witness:
  "threshold_col ascii_unicode capital_rule [] = '', false as threshold_met''"
proof -
  have a: "agg_sql ascii_unicode (sub_list capital_rule ''aggregations'') = Inr []"
    by (simp add: sub_list_def row_val_def)
  have i: "ident_of ''Cnt''"
    by (simp add: ident_of_def ident_char_def ident_start_def is_lower_def is_upper_def byte_of_def)
  have c: "\<exists>c \<in> set ''Cnt''. is_upper c" by (simp add: is_upper_def byte_of_def)
  have k: "''Cnt'' \<notin> set sql_keywords" by (simp add: sql_keywords_def)
  have k': "un_upper ascii_unicode ''Cnt'' \<notin> set sql_keywords"
    by (simp add: sql_keywords_def ascii_unicode_def ascii_upper_def is_lower_def byte_of_def)
  have n: "list_all is_digit ''5''" by (simp add: is_digit_def byte_of_def)
  have e: "row_str (sub_map capital_rule ''having_thresholds'') ''expression'' = ''Cnt'' @ ''>'' @ ''5''"
    by (simp add: row_str_def row_val_def sub_map_def)
  from capital_alias_never_breaches [OF ascii_unicode_ok a i c k k' n _ e] show ?thesis by simp
qed

section \<open>Partial answers\<close>

text \<open>A breakdown whose sums cannot be read to the end is reported as a success without them: the
  error of that answer is the only one nobody looks at.\<close>

lemma missing_sums_unnoticed:
  assumes "he_sums env (modality_sql src whr) ps = Inr None" and "\<And>q. he_labels env q ps = Inr \<lparr>la_rows = [], la_err = None\<rparr>"
  shows "run_all (breakdown_queries env src whr ps) dk =
    (dk, Inr [(''modality_mix'', GNil), (''auth_outcome'', GNil), (''geo_hotspot'', GNil), (''match_score_histogram'', GNil)])"
  using assms by (simp add: breakdown_queries_def query_rows_def run_query_def modality_rows_def label_rows_def slice_def)

end
