(* ===== verification/ClickHouse_Props.thy ===== *)
theory ClickHouse_Props
  imports ClickHouse Filters_Props ConnPool
begin

text \<open>
  What the ClickHouse service guarantees: queries bind their arguments, rows are grouped without
  loss in the order of the answer, errors are classified by two labels; and how the pool lives:
  an outage is retried on the next request, a failed ping leaves its pool open.
\<close>

section \<open>Queries\<close>

lemma more_placeholders: "more_placeholders n s = s @ concat (replicate n '', ?'')"
proof (induction n arbitrary: s)
  case (Suc n)
  then show ?case by simp
qed simp

lemma qmarks_placeholders: "qmarks (placeholders n) = n"
proof -
  have "qmarks (concat (replicate k '', ?'')) = k" for k by (induction k) simp_all
  then show ?thesis by (simp add: placeholders_def more_placeholders)
qed

lemma placeholders_join: "placeholders n = join '', '' (replicate n ''?'')"
proof -
  have "''?'' @ concat (replicate k '', ?'') = join '', '' (replicate (Suc k) ''?'')" for k
    by (induction k) (simp_all add: join_Cons)
  then show ?thesis by (cases n) (simp_all add: placeholders_def more_placeholders)
qed

lemma valid_table_qmarks: "valid_table t \<Longrightarrow> qmarks t = 0"
proof -
  assume t: "valid_table t"
  have "ident_char c" if "c \<in> set t" for c
    using t that by (cases t) (auto simp: valid_table_def ident_char_def list_all_iff)
  then have "list_all ident_byte t" by (simp add: list_all_iff ident_byte_def)
  then show ?thesis using ident_byte_sql by blast
qed

text \<open>Each of the five queries has exactly as many placeholders as it is given arguments, for any
  number of rules; with a table name that passed the check, nothing but the fixed text is in it.\<close>

theorem clickhouse_queries_bind_their_arguments:
  assumes "valid_table table"
  shows "qmarks (live_sql table) = length [GStr rid, GInt limit] \<and>
    qmarks (multi_sql table (length rids)) = length (map GStr rids @ [GInt hours]) \<and>
    qmarks (agg_range_sql table (length rids)) = length (map GStr rids @ [GStr st, GStr en]) \<and>
    qmarks (top_groups_sql table) = length [GStr rid, GStr st, GStr en, GInt limit, GInt off] \<and>
    qmarks (detail_sql table) = length [GStr rid, GStr key, GStr st, GStr en] \<and>
    placeholders n = join '', '' (replicate n ''?'')"
proof -
  note q = valid_table_qmarks [OF assms] qmarks_placeholders qmarks_line
  have b: "qmarks (between n) = 2" for n by (simp add: between_def)
  have "qmarks (live_sql table) = 2" by (simp add: live_sql_def q)
  moreover have "qmarks (multi_sql table m) = Suc m" for m by (cases m) (simp_all add: multi_sql_def q)
  moreover have "qmarks (agg_range_sql table m) = m + 2" for m by (simp add: agg_range_sql_def q b)
  moreover have "qmarks (top_groups_sql table) = 5" by (simp add: top_groups_sql_def q b)
  moreover have "qmarks (detail_sql table) = 4" by (simp add: detail_sql_def q b)
  ultimately show ?thesis by (simp add: placeholders_join)
qed

lemma demo_table: "valid_table ''velocity_rule_results''"
  by (simp add: valid_table_def ident_char_def ident_start_def is_lower_def byte_of_def)

theorem clickhouse_queries_bind_their_arguments_witness:
  "qmarks (multi_sql ''velocity_rule_results'' (length [''R1'', ''R2''])) = 3"
  using clickhouse_queries_bind_their_arguments [OF demo_table, of "[]" 0 "[''R1'', ''R2'']"] by simp

section \<open>Grouping\<close>

lemma group_by_rule_rows:
  "rows_at (group_by_rule rs g) k = rows_at g k @ filter (\<lambda>r. row_group r = k) rs"
proof (induction rs arbitrary: g)
  case (Cons r rs)
  show ?case unfolding group_by_rule.simps Cons.IH by simp
qed simp

lemma group_by_rule_dom: "dom (group_by_rule rs g) = dom g \<union> row_group ` set rs"
proof (induction rs arbitrary: g)
  case (Cons r rs)
  show ?case unfolding group_by_rule.simps Cons.IH by auto
qed simp

lemma group_by_rule_total:
  "finite (dom g) \<Longrightarrow> map_total (group_by_rule rs g) = map_total g + length rs"
proof (induction rs arbitrary: g)
  case (Cons r rs)
  have "map_total (g(row_group r \<mapsto> rows_at g (row_group r) @ [r])) = map_total g + 1"
    using map_total_upd_add [OF Cons.prems, of "row_group r" "rows_at g (row_group r) @ [r]"] by simp
  moreover have "finite (dom (g(row_group r \<mapsto> rows_at g (row_group r) @ [r])))" using Cons.prems by simp
  ultimately show ?case unfolding group_by_rule.simps by (simp only: Cons.IH) simp
qed simp

lemma map_sum_Inr_iff: "map_sum f g x = Inr y \<longleftrightarrow> (\<exists>z. x = Inr z \<and> y = g z)"
  by (cases x) auto

lemma multi_rows:
  assumes "getLiveResultsMulti lib env rids hours st = (st', Inr g)"
  obtains a rows where "ce_rows env (multi_sql (cl_table lib) (length rids)) (map GStr rids @ [GInt hours]) = Some a"
    "rowsToMaps (cl_json lib) a = Inr rows" "g = group_by_rule rows Map.empty"
  using assms unfolding getLiveResultsMulti_def metered_def converted_def ask_def
  by (auto simp: map_sum_Inr_iff split: prod.splits sum.splits option.splits)

lemma agg_rows:
  assumes "getAggResults lib env rids start_ts end_ts st = (st', Inr g)" and "rids \<noteq> []"
  obtains a rows where "ce_rows env (agg_range_sql (cl_table lib) (length rids)) (map GStr rids @ [GStr start_ts, GStr end_ts]) = Some a"
    "rowsToMaps (cl_json lib) a = Inr rows" "g = group_by_rule rows Map.empty"
  using assms unfolding getAggResults_def metered_def converted_def ask_def
  by (auto simp: map_sum_Inr_iff split: prod.splits sum.splits option.splits)

text \<open>The rows of an answer are handed on grouped by rule without loss: each row is in the group
  of its rule (of \<open>unknown\<close> without a rule id) once, and a group keeps the order of the answer.\<close>

theorem grouped_rows_complete:
  assumes "getAggResults lib env rids start_ts end_ts st = (st', Inr g)" and "rids \<noteq> []"
  shows "\<exists>a rows. ce_rows env (agg_range_sql (cl_table lib) (length rids)) (map GStr rids @ [GStr start_ts, GStr end_ts]) = Some a \<and>
    rowsToMaps (cl_json lib) a = Inr rows \<and>
    (\<forall>k. rows_at g k = filter (\<lambda>r. row_group r = k) rows) \<and> map_total g = length rows"
proof -
  from agg_rows [OF assms] obtain a rows where
    a: "ce_rows env (agg_range_sql (cl_table lib) (length rids)) (map GStr rids @ [GStr start_ts, GStr end_ts]) = Some a"
    and r: "rowsToMaps (cl_json lib) a = Inr rows" and g: "g = group_by_rule rows Map.empty" .
  have "rows_at g k = filter (\<lambda>r. row_group r = k) rows" for k by (simp add: g group_by_rule_rows)
  moreover have "map_total g = length rows" by (simp add: g group_by_rule_total)
  ultimately show ?thesis using a r by blast
qed

definition demo_lib :: ch_lib where
  "demo_lib = \<lparr>cl_table = ''velocity_rule_results'', cl_json = (\<lambda>_. None), cl_float = (\<lambda>_. []), cl_pct = (\<lambda>_ _. 0)\<rparr>"

definition demo_answer :: ch_answer where
  "demo_answer = \<lparr>ca_cols = [''ruleId''], ca_rows = [Some [ChOther (GStr ''R'')], Some [ChOther (GStr [])]], ca_failed = False\<rparr>"

definition demo_ch :: ch_env where
  "demo_ch = \<lparr>ce_ping = True, ce_pool_ping = True, ce_err = [], ce_rows = (\<lambda>_ _. Some demo_answer),
     ce_groups = (\<lambda>_ _. None)\<rparr>"

lemma demo_agg:
  "getAggResults demo_lib demo_ch [''R''] [] [] ch_start =
    (ch_start\<lparr>ch_db := Some 0, ch_pools := {0}, ch_fresh := 1\<rparr>,
     Inr (group_by_rule [[(''ruleId'', GStr ''R'')], [(''ruleId'', GStr [])]] Map.empty))"
  using demo_table
  by (simp add: getAggResults_def metered_def converted_def ask_def getClickHouseDB_def demo_lib_def demo_ch_def
      demo_answer_def ch_start_def rowsToMaps_def ch_row_def expand_json_def row_val_def row_set_def Let_def)

theorem grouped_rows_complete_witness:
  "map_total (group_by_rule [[(''ruleId'', GStr ''R'')], [(''ruleId'', GStr [])]] Map.empty) = 2"
  using grouped_rows_complete [OF demo_agg]
  by (simp add: demo_ch_def demo_answer_def demo_lib_def rowsToMaps_def)

section \<open>The pool\<close>

text \<open>The pool in use is open, and numbered below the next one; pools are finitely many.\<close>

definition ch_ok :: "ch_state \<Rightarrow> bool" where
  "ch_ok st \<longleftrightarrow> finite (ch_pools st) \<and> (\<forall>d. ch_db st = Some d \<longrightarrow> d \<in> ch_pools st) \<and>
     (\<forall>p \<in> ch_pools st. p < ch_fresh st)"

text \<open>The pool as the handle requests share.\<close>

definition get_pool :: "string \<Rightarrow> ch_env \<Rightarrow> ch_state \<Rightarrow> ch_state \<times> nat option" where
  "get_pool table env st =
     (case getClickHouseDB table env st of (st', Inl e) \<Rightarrow> (st', None) | (st', Inr d) \<Rightarrow> (st', Some d))"

lemma reset_none [simp]: "ch_db (resetClickHouseConn st) = None"
  by (simp add: resetClickHouseConn_def split: option.split)

interpretation clickhouse: conn_pool ch_db "get_pool table" resetClickHouseConn
  by unfold_locales (auto simp: get_pool_def getClickHouseDB_def Let_def split: option.splits if_splits)

lemma get_ok: "ch_ok st \<Longrightarrow> ch_ok (fst (getClickHouseDB t env st))"
  by (auto simp: ch_ok_def getClickHouseDB_def Let_def less_Suc_eq split: option.split)

lemma reset_ok: "ch_ok st \<Longrightarrow> ch_ok (resetClickHouseConn st)"
  by (auto simp: ch_ok_def resetClickHouseConn_def split: option.split)

lemma metered_simps [simp]: "snd (metered n r) = snd r" "ch_db (fst (metered n r)) = ch_db (fst r)"
  "ch_pools (fst (metered n r)) = ch_pools (fst r)" "ch_fresh (fst (metered n r)) = ch_fresh (fst r)"
  by (auto simp: metered_def split: prod.split sum.split)

lemma converted_simps [simp]: "fst (converted f r) = fst r"
  "snd (converted f r) = (case snd r of Inl e \<Rightarrow> Inl e | Inr a \<Rightarrow> f a)"
  by (auto simp: converted_def split: prod.split sum.split)

lemma ask_ok: "ch_ok st \<Longrightarrow> ch_ok (fst (ask t env db q args st))"
  using get_ok [of st t env] by (auto simp: ask_def reset_ok split: prod.split sum.split option.split)





definition down :: ch_env where
  "down = \<lparr>ce_ping = False, ce_pool_ping = False, ce_err = [], ce_rows = (\<lambda>_ _. None), ce_groups = (\<lambda>_ _. None)\<rparr>"

lemma down_request:
  assumes "valid_table (cl_table lib)" and "ch_db st = None"
  shows "getLiveResults lib down rid limit st =
    (st\<lparr>ch_fresh := Suc (ch_fresh st), ch_pools := insert (ch_fresh st) (ch_pools st),
        ch_errors := ch_errors st @ [(''live_results'', ''unavailable'')]\<rparr>, Inl Unavailable)"
  using assms by (simp add: getLiveResults_def metered_def converted_def ask_def getClickHouseDB_def down_def chErrorClass_def Let_def)


text \<open>A pool whose first ping fails is never closed, and every request retries: while ClickHouse
  is down each request leaves one more pool open that nothing refers to.\<close>

theorem failed_pings_leak_pools:
  assumes "valid_table (cl_table lib)"
  shows "let st = ((\<lambda>st. fst (getLiveResults lib down rid limit st)) ^^ n) ch_start
    in ch_db st = None \<and> card (ch_pools st) = n"
proof -
  define st where "st n = ((\<lambda>st. fst (getLiveResults lib down rid limit st)) ^^ n) ch_start" for n
  have "ch_db (st n) = None \<and> ch_fresh (st n) = n \<and> ch_pools (st n) = {..<n}"
  proof (induction n)
    case 0
    show ?case by (simp add: st_def ch_start_def)
  next
    case (Suc n)
    have "st (Suc n) = fst (getLiveResults lib down rid limit (st n))" by (simp add: st_def)
    with Suc down_request [OF assms, of "st n"] show ?case by (simp add: lessThan_Suc)
  qed
  then show ?thesis by (simp add: Let_def st_def)
qed

theorem failed_pings_leak_pools_witness:
  "card (ch_pools (((\<lambda>st. fst (getLiveResults demo_lib down ''R'' 5 st)) ^^ 7) ch_start)) = 7"
proof -
  have "valid_table (cl_table demo_lib)" using demo_table by (simp add: demo_lib_def)
  from failed_pings_leak_pools [OF this, where rid = "''R''" and limit = 5 and n = 7] show ?thesis by (simp only: Let_def)
qed

section \<open>Error labels\<close>

definition labels_bounded :: "ch_state \<Rightarrow> bool" where
  "labels_bounded st \<longleftrightarrow> (\<forall>e \<in> set (ch_errors st). snd e \<in> {''unavailable'', ''query_error''})"

lemma metered_labels: "labels_bounded (fst r) \<Longrightarrow> labels_bounded (fst (metered n r))"
  by (auto simp: labels_bounded_def metered_def chErrorClass_def split: prod.split sum.split)

end
