(* ===== verification/AnalysisHandlers_Props.thy ===== *)
theory AnalysisHandlers_Props
  imports AnalysisHandlers FloatInt HistoricalQuery_Props ClickHouse_Props
begin

text \<open>
  What the analysis endpoints guarantee: limits hold, a bad request touches nothing, the time
  range and the windows of a historical test are those asked for, and statuses say what
  happened. And what they take for an outage.
\<close>

section \<open>Parameters\<close>

lemma limited_bounds: "1 \<le> d \<Longrightarrow> d \<le> hi \<Longrightarrow> 1 \<le> limited d hi s \<and> limited d hi s \<le> hi"
  by (auto simp: limited_def split: option.split)

text \<open>A decoded parameter that holds neither \<open>%\<close> nor \<open>+\<close> survives the second decoding.\<close>

lemma query_unescape_plain: "CHR ''%'' \<notin> set s \<Longrightarrow> CHR ''+'' \<notin> set s \<Longrightarrow> query_unescape s = Some s"
  by (induction s) auto

section \<open>Bad requests\<close>

text \<open>C27. A request answered with 400 reached neither ClickHouse nor DuckDB: the connection pool, the
  query slot and the error counters are as before, whichever endpoint it was.\<close>

theorem bad_requests_touch_nothing:
  shows "(status_of (snd (aggAnalysis lib env q ch)) = 400 \<longrightarrow> fst (aggAnalysis lib env q ch) = ch) \<and>
    (status_of (snd (topGroupsAnalysis lib env rid q ch)) = 400 \<longrightarrow> fst (topGroupsAnalysis lib env rid q ch) = ch) \<and>
    (status_of (snd (groupDetailAnalysis lib env rid q ch)) = 400 \<longrightarrow> fst (groupDetailAnalysis lib env rid q ch) = ch) \<and>
    (status_of (snd (historicalTest hlib henv body q dk)) = 400 \<longrightarrow> fst (historicalTest hlib henv body q dk) = dk) \<and>
    (status_of (snd (historicalAnalysis hlib henv body q dk)) = 400 \<longrightarrow> fst (historicalAnalysis hlib henv body q dk) = dk) \<and>
    (status_of (snd (historicalBreakdown hlib henv body q dk)) = 400 \<longrightarrow> fst (historicalBreakdown hlib henv body q dk) = dk)"
proof -
  have c: "status_of (snd (respond respondClickHouseError f x)) \<noteq> 400" for f x
    by (simp add: respond_def respondClickHouseError_def split: prod.split sum.split)
  have h: "status_of (snd (respond respondHistoricalError f x)) \<noteq> 400" for f x
    by (simp add: respond_def respondHistoricalError_def split: prod.split sum.split)
  have g: "status_of (snd (ranged run body q d)) = 400 \<longrightarrow> fst (ranged run body q d) = d" for run d
    by (simp add: ranged_def Let_def h split: option.split response.split)
  show ?thesis
    by (simp add: aggAnalysis_def topGroupsAnalysis_def groupDetailAnalysis_def historicalTest_def
        historicalAnalysis_def historicalBreakdown_def Let_def c h g split: response.split)
qed

lemma no_ids: "id_list Map.empty = []"
  by (simp add: id_list_def param_def)

theorem bad_requests_touch_nothing_witness:
  "fst (aggAnalysis demo_lib demo_ch Map.empty ch_start) = ch_start"
  using bad_requests_touch_nothing [where lib = demo_lib and env = demo_ch and q = Map.empty and ch = ch_start, THEN conjunct1]
  by (simp add: aggAnalysis_def no_ids bad_request_def Let_def)

section \<open>The range of a historical test\<close>

lemma replace_space_T: "CHR ''T'' \<notin> set s \<Longrightarrow> replace_first ''T'' '' '' (replace_first '' '' ''T'' s) = s"
proof (induction s)
  case (Cons c s)
  show ?case
  proof (cases "c = CHR '' ''")
    case True
    then show ?thesis by simp
  next
    case False
    with Cons show ?thesis by simp
  qed
qed simp

lemma length_replace_space: "length (replace_first '' '' ''T'' s) = length s"
  by (induction s) auto

lemma parseIST_format_T:
  assumes "civil_of_day ((t + ist_offset * 1000000000) div 1000000000 div 86400) = (y, m, d)" "0 \<le> y" "y < 10000"
  shows "parseIST (format_T (t + ist_offset * 1000000000)) = Some (t - t mod 1000000000)"
  using format_datetime_shape [OF assms] format_parse_zone [OF assms]
  by (simp add: parseIST_def format_T_def replace_space_T Let_def)

text \<open>A historical test looks back the whole number of days asked for (7 unless the parameter is
  between 1 and 90) from the second of the request: printing the wall clock in India, dropping
  the zone and reading it back in India loses and shifts nothing.\<close>

theorem historical_test_range:
  assumes "e = now - now mod 1000000000" and "s = e - days * day" and "days = limited 7 90 (param_or q ''days_back'' ''7'')"
    and "civil_of_day ((e + ist_offset * 1000000000) div 1000000000 div 86400) = (y1, m1, d1)" "0 \<le> y1" "y1 < 10000"
    and "civil_of_day ((s + ist_offset * 1000000000) div 1000000000 div 86400) = (y2, m2, d2)" "0 \<le> y2" "y2 < 10000"
  shows "time_range now' (format_T (naive_ist now - days * day)) (format_T (naive_ist now)) = Inr (s, e) \<and>
    1 \<le> days \<and> days \<le> 90"
proof -
  have e0: "e mod 1000000000 = 0" by (simp add: assms(1) mod_diff_left_eq)
  have s0: "s mod 1000000000 = 0"
  proof -
    have "s = e - days * 86400 * 1000000000" by (simp add: assms(2) day_def)
    then show ?thesis using e0 by (metis mod_diff_eq mod_mult_self2_is_0 diff_zero mod_0)
  qed
  have n: "naive_ist now = e + ist_offset * 1000000000"
    by (simp add: naive_ist_def Let_def assms(1))
  have n2: "naive_ist now - days * day = s + ist_offset * 1000000000" by (simp add: n assms(2))
  have pe: "parseIST (format_T (naive_ist now)) = Some e"
    using parseIST_format_T [OF assms(4-6)] e0 n by simp
  have ps: "parseIST (format_T (naive_ist now - days * day)) = Some s"
    using parseIST_format_T [OF assms(7-9)] s0 unfolding n2 by simp
  have ne: "format_T (t + ist_offset * 1000000000) \<noteq> []"
    if "civil_of_day ((t + ist_offset * 1000000000) div 1000000000 div 86400) = (y, m, d)" "0 \<le> y" "y < 10000" for t y m d
    using format_datetime_shape(1) [OF that] length_replace_space [of "format_datetime (t + ist_offset * 1000000000)"]
    by (auto simp: format_T_def)
  have "format_T (naive_ist now) \<noteq> []" "format_T (naive_ist now - days * day) \<noteq> []"
    using ne [OF assms(4-6), folded n] ne [OF assms(7-9), folded n2] by simp_all
  then have "time_range now' (format_T (naive_ist now - days * day)) (format_T (naive_ist now)) = Inr (s, e)"
    by (simp add: time_range_def pe ps)
  then show ?thesis using limited_bounds [of 7 90 "param_or q ''days_back'' ''7''"] by (simp add: assms(3))
qed

text \<open>2026-07-06 14:30:00 in India, and a week before.\<close>

theorem historical_test_range_witness:
  "time_range 0 (format_T (naive_ist 1783328400123456789 - 7 * day)) (format_T (naive_ist 1783328400123456789)) =
    Inr (1782723600000000000, 1783328400000000000)"
proof -
  have c: "civil_of_day 20640 = (2026, 7, 6)" "civil_of_day 20633 = (2026, 6, 29)" by code_simp+
  have l: "7 = limited 7 90 (param_or Map.empty ''days_back'' ''7'')"
    by (simp add: limited_def param_or_def parse_int64_def parse_nat_def digit_val_def is_digit_def byte_of_def int64_range_def)
  from historical_test_range [where now = 1783328400123456789 and q = Map.empty and now' = 0, OF refl refl l, of 2026 7 6 2026 6 29] c
  show ?thesis by (simp add: ist_offset_def day_def)
qed

section \<open>The windows of a rule\<close>

text \<open>The windows of a historical analysis are as long as the rule's own: its \<open>size_ms\<close> passes
  through JSON and \<open>float64\<close> unchanged (up to 53 bits) and is cut to whole seconds, at least one.\<close>

theorem historical_windows_are_the_rules:
  assumes "dict_of_json (rule_json rule) = Some dict" and "0 < wc_size_ms (vr_windowing rule)"
    and "wc_size_ms (vr_windowing rule) < 2 ^ 53"
  shows "window_seconds dict = max 1 (wc_size_ms (vr_windowing rule) div 1000)"
proof -
  obtain kvs where k: "rule_json rule = GMap kvs" "row_val kvs ''windowing'' = windowing_json (vr_windowing rule)"
    by (simp add: rule_json_def row_val_def)
  have "dict = map (\<lambda>(k, v). (k, to_iface v)) kvs" using assms(1) k(1) by (simp add: dict_of_json_def)
  then have "row_val dict ''windowing'' = to_iface (windowing_json (vr_windowing rule))" using k(2) by simp
  then have "row_val (sub_map dict ''windowing'') ''size_ms'' = GFloat (f64_of_int (wc_size_ms (vr_windowing rule)))"
    by (simp add: sub_map_def windowing_json_def row_val_def)
  then show ?thesis using assms(2,3) by (simp add: window_seconds_def f64_of_int_exact Let_def)
qed

lemma demo_window: "wc_size_ms (vr_windowing demo_rule) = 300000"
  by (simp add: demo_rule_def)

theorem historical_windows_are_the_rules_witness:
  "\<exists>dict. dict_of_json (rule_json demo_rule) = Some dict \<and> window_seconds dict = 300"
proof -
  obtain dict where d: "dict_of_json (rule_json demo_rule) = Some dict"
    by (simp add: dict_of_json_def rule_json_def)
  from historical_windows_are_the_rules [OF d] d demo_window show ?thesis by simp
qed

section \<open>Outages that are none\<close>

text \<open>Any error of a query, also one the client caused (a timestamp ClickHouse cannot parse, a
  request given up), closes the pool all requests share and is answered as an outage, with 503
  and a hint to retry.\<close>

theorem rejected_query_closes_shared_pool:
  assumes "ch_ok ch" and "ch_db ch = Some d" and "id_list q \<noteq> []"
    and "time_param q ''start_ts'' \<noteq> []" and "time_param q ''end_ts'' \<noteq> []"
    and "ce_rows env (agg_range_sql (cl_table lib) (length (id_list q)))
      (map GStr (id_list q) @ [GStr (time_param q ''start_ts''), GStr (time_param q ''end_ts'')]) = None"
  shows "status_of (snd (aggAnalysis lib env q ch)) = 503 \<and> d \<notin> ch_pools (fst (aggAnalysis lib env q ch)) \<and>
    ch_db (fst (aggAnalysis lib env q ch)) = None"
  using assms
  by (simp add: aggAnalysis_def Let_def getAggResults_def ask_def getClickHouseDB_def converted_def metered_def
      respond_def respondClickHouseError_def resetClickHouseConn_def)

abbreviation plain_query :: params where
  "plain_query \<equiv> [''rule_ids'' \<mapsto> ''A'', ''start_ts'' \<mapsto> ''x'', ''end_ts'' \<mapsto> ''y'']"

theorem rejected_query_closes_shared_pool_witness:
  "status_of (snd (aggAnalysis demo_lib down plain_query (ch_start\<lparr>ch_db := Some 0, ch_pools := {0}, ch_fresh := 1\<rparr>))) = 503"
proof -
  have t: "trim_space [c] = [c]" if "is_graphic c" for c
    using that by (intro trim_space_graphic) simp_all
  have g: "is_graphic CHR ''A''" "is_graphic CHR ''x''" "is_graphic CHR ''y''" by (simp_all add: is_graphic_def byte_of_def)
  have i: "id_list plain_query \<noteq> []" by (simp add: id_list_def param_def t g)
  have s: "time_param plain_query ''start_ts'' \<noteq> []" "time_param plain_query ''end_ts'' \<noteq> []"
    by (simp_all add: time_param_def param_def t g)
  have o: "ch_ok (ch_start\<lparr>ch_db := Some 0, ch_pools := {0}, ch_fresh := 1\<rparr>)" by (simp add: ch_ok_def)
  have d: "ce_rows down q args = None" for q args by (simp add: down_def)
  show ?thesis
    by (rule rejected_query_closes_shared_pool [OF o _ i s d, THEN conjunct1]) simp
qed

text \<open>The documented limit of anomalies is one for each rule: two rules give twice as many.\<close>

lemma anomaly_limit_is_per_rule:
  assumes "id_list q = [''A'', ''B'']" and "param_or q ''limit'' ''100'' = ''1''"
  shows "anomalyAnalysis q (Some \<lparr>an_events = [[(''ruleId'', GStr ''A'')], [(''ruleId'', GStr ''B'')]], an_max = 9\<rparr>) =
   Success ([[(''ruleId'', GStr ''A'')], [(''ruleId'', GStr ''B'')]], 2)"
proof -
  have "limited 100 500 ''1'' = 1"
    by (simp add: limited_def parse_int64_def parse_nat_def digit_val_def is_digit_def byte_of_def int64_range_def)
  then show ?thesis
    by (simp add: anomalyAnalysis_def Let_def assms an_getRecent_eq row_str_def row_val_def last_n_def)
qed

text \<open>The parameters arrive decoded (\<open>c.Query\<close>) and are decoded once more: a time with a positive
  offset loses its sign, and a percent sign makes the time count as missing.\<close>

lemma times_are_decoded_twice:
  "time_param [k \<mapsto> ''2026-07-06T10:00:00+05:30''] k = ''2026-07-06T10:00:00 05:30''"
  "time_param [k \<mapsto> ''100%''] k = []"
proof -
  have "is_graphic CHR ''2''" "is_graphic CHR ''0''" by (simp_all add: is_graphic_def byte_of_def)
  then have "trim_space ''2026-07-06T10:00:00 05:30'' = ''2026-07-06T10:00:00 05:30''"
    by (intro trim_space_graphic) simp_all
  then show "time_param [k \<mapsto> ''2026-07-06T10:00:00+05:30''] k = ''2026-07-06T10:00:00 05:30''"
    by (simp add: time_param_def param_def)
  show "time_param [k \<mapsto> ''100%''] k = []" by (simp add: time_param_def param_def)
qed

text \<open>A time the query cannot read is answered as an internal error, not as a bad request.\<close>

lemma unreadable_time_is_internal_error:
  assumes "rule_of_json doc = Some rule" and "dict_of_json (rule_json rule) = Some dict"
    and "time_param q ''start_ts'' \<noteq> []" and "time_param q ''end_ts'' \<noteq> []" and "parseIST (time_param q ''end_ts'') = None"
  shows "status_of (snd (historicalBreakdown lib env (Some doc) q dk)) = 500"
  using assms
  by (simp add: historicalBreakdown_def ranged_def rule_dict_def Let_def runHistoricalBreakdown_def prepareIcebergQuery_def
      time_range_def respond_def respondHistoricalError_def)

text \<open>The probes: liveness is answered 200 whatever the dependencies do, and at most reconnects MySQL;
  readiness is ClickHouse's alone, and a failed probe leaves no pool in use.\<close>

lemma probes:
  assumes "my_inv my"
  shows "status_of (snd (health env ls m my)) = 200 \<and> my_inv (fst (health env ls m my))"
    and "status_of (snd (readyz table cenv ls ch)) \<noteq> 200 \<Longrightarrow> ch_db (fst (readyz table cenv ls ch)) = None"
  using my_inv_ready [OF assms, of env]
  by (auto simp: health_def readyz_def isReady_def getClickHouseDB_def Let_def
      split: prod.splits option.splits sum.splits if_splits ch_error.splits)

end
