(* ===== verification/AnswerRows.thy ===== *)
theory AnswerRows
  imports HistoricalQuery ClickHouse_Props
begin

text \<open>
  The shape of the rows both databases hand to the client: the names of the answer's columns, each
  with the value of the last column of that name, converted as the client expects it. A row is a
  Go map, so its order means nothing.
\<close>

section \<open>What a row should hold\<close>

text \<open>The cell of a column; of several columns with one name the last counts.\<close>

definition last_cell :: "string list \<Rightarrow> 'a list \<Rightarrow> string \<Rightarrow> 'a option" where
  "last_cell cols vals c = map_of (rev (zip cols vals)) c"

text \<open>ClickHouse: times as the wall clock of their own zone, \<open>z\<close> seconds east of UTC; the two columns of
  aggregates as the document they contain, if they do; everything else as it is.\<close>

definition ch_value :: "(string \<Rightarrow> gval option) \<Rightarrow> string \<Rightarrow> ch_val \<Rightarrow> gval" where
  "ch_value jdec c v =
     (let w = (case v of
                 ChTime t z \<Rightarrow> GStr (format_datetime (t + z * 1000000000))
               | ChTimePtr p \<Rightarrow> (case p of None \<Rightarrow> GNil | Some (t, z) \<Rightarrow> GStr (format_datetime (t + z * 1000000000)))
               | ChInt64 n \<Rightarrow> GInt n | ChUint64 n \<Rightarrow> GInt n | ChInt32 n \<Rightarrow> GInt n | ChUint32 n \<Rightarrow> GInt n
               | ChFloat f \<Rightarrow> GFloat f
               | ChOther w \<Rightarrow> w)
      in if c \<in> {''aggResult'', ''aggregationResults''}
         then (case w of GStr s \<Rightarrow> (if s = [] then w else case jdec s of None \<Rightarrow> w | Some d \<Rightarrow> d) | _ \<Rightarrow> w) else w)"

text \<open>DuckDB: times as the wall clock of India, five and a half hours east of UTC.\<close>

definition duck_value :: "cell \<Rightarrow> gval" where
  "duck_value v =
     (case v of
        CTime t \<Rightarrow> GStr (format_datetime (t + 19800 * 1000000000))
      | CTimePtr p \<Rightarrow> (case p of None \<Rightarrow> GNil | Some t \<Rightarrow> GStr (format_datetime (t + 19800 * 1000000000)))
      | CVal w \<Rightarrow> w)"

definition row_shows :: "string list \<Rightarrow> (string \<Rightarrow> 'a \<Rightarrow> gval) \<Rightarrow> 'a list \<Rightarrow> row \<Rightarrow> bool" where
  "row_shows cols val vs row \<longleftrightarrow> distinct (map fst row) \<and> set (map fst row) = set cols \<and>
     (\<forall>c v. last_cell cols vs c = Some v \<longrightarrow> map_of row c = Some (val c v))"

section \<open>What it holds\<close>

lemma row_set_distinct: "distinct (map fst r) \<Longrightarrow> distinct (map fst (row_set k v r))"
  by (simp add: row_set_def distinct_update)

lemma row_set_keys: "fst ` set (row_set k v r) = insert k (fst ` set r)"
  using dom_update [of k v r] by (simp add: row_set_def dom_map_of_conv_image_fst)

definition filled :: "('a \<Rightarrow> gval) \<Rightarrow> (string \<times> 'a) list \<Rightarrow> row \<Rightarrow> row" where
  "filled conv ps r = fold (\<lambda>(c, v) r. row_set c (conv v) r) ps r"

lemma filled_simps [simp]: "filled conv [] r = r" "filled conv ((c, v) # ps) r = filled conv ps (row_set c (conv v) r)"
  by (simp_all add: filled_def)

lemma filled_distinct: "distinct (map fst r) \<Longrightarrow> distinct (map fst (filled conv ps r))"
  by (induction ps arbitrary: r) (simp_all add: row_set_distinct split_paired_all)

lemma filled_keys: "fst ` set (filled conv ps r) = fst ` set ps \<union> fst ` set r"
proof (induction ps arbitrary: r)
  case (Cons p ps)
  obtain k v where p: "p = (k, v)" by (cases p)
  show ?case unfolding p filled_simps Cons.IH row_set_keys by simp
qed simp

lemma map_of_filled:
  "map_of (filled conv ps r) c = (case map_of (rev ps) c of None \<Rightarrow> map_of r c | Some v \<Rightarrow> Some (conv v))"
  by (induction ps arbitrary: r) (auto simp: map_add_def split: option.split)

lemma filled_columns:
  assumes "length vs = length cols"
  shows "distinct (map fst (filled conv (zip cols vs) []))" and "fst ` set (filled conv (zip cols vs) []) = set cols"
    and "map_of (filled conv (zip cols vs) []) c = map_option conv (last_cell cols vs c)"
proof -
  show "distinct (map fst (filled conv (zip cols vs) []))" by (rule filled_distinct) simp
  have "map fst (zip cols vs) = cols" using assms by simp
  then have "fst ` set (zip cols vs) = set cols" by (metis set_map)
  then show "fst ` set (filled conv (zip cols vs) []) = set cols" by (simp add: filled_keys)
  show "map_of (filled conv (zip cols vs) []) c = map_option conv (last_cell cols vs c)"
    by (simp add: map_of_filled last_cell_def split: option.split)
qed

lemma expand_json_row:
  assumes "distinct (map fst r)" and "k \<in> fst ` set r \<or> row_val r k = GNil"
  shows "distinct (map fst (expand_json jdec k r))" and "fst ` set (expand_json jdec k r) = fst ` set r"
  using assms by (auto simp: expand_json_def row_set_distinct row_set_keys split: option.split)

lemma row_val_absent: "k \<in> fst ` set r \<or> row_val r k = GNil"
proof (cases "map_of r k")
  case None
  then show ?thesis by (simp add: row_val_def)
next
  case (Some v)
  then show ?thesis by (force dest: map_of_SomeD)
qed

lemma map_of_expand:
  "map_of (expand_json jdec k r) c =
     (if c \<noteq> k then map_of r c
      else case map_of r k of
        Some (GStr s) \<Rightarrow> Some (if s = [] then GStr s else case jdec s of None \<Rightarrow> GStr s | Some d \<Rightarrow> d)
      | x \<Rightarrow> x)"
proof (cases "map_of r k")
  case (Some v)
  then show ?thesis by (cases v) (auto simp: expand_json_def row_val_def split: option.split)
qed (simp add: expand_json_def row_val_def)

definition decoded :: "(string \<Rightarrow> gval option) \<Rightarrow> gval \<Rightarrow> gval" where
  "decoded jdec w = (case w of GStr s \<Rightarrow> if s = [] then w else (case jdec s of None \<Rightarrow> w | Some d \<Rightarrow> d) | _ \<Rightarrow> w)"

lemma map_of_expand_row: "map_of (expand_json jdec k r) c = map_option (if c = k then decoded jdec else id) (map_of r c)"
  unfolding map_of_expand decoded_def by (simp add: option.map_id split: option.split gval.split)

lemma ch_value_cell:
  "ch_value jdec c v = (if c \<in> {''aggResult'', ''aggregationResults''} then decoded jdec (ch_cell v) else ch_cell v)"
proof -
  have "ch_cell v = (case v of
                 ChTime t z \<Rightarrow> GStr (format_datetime (t + z * 1000000000))
               | ChTimePtr p \<Rightarrow> (case p of None \<Rightarrow> GNil | Some (t, z) \<Rightarrow> GStr (format_datetime (t + z * 1000000000)))
               | ChInt64 n \<Rightarrow> GInt n | ChUint64 n \<Rightarrow> GInt n | ChInt32 n \<Rightarrow> GInt n | ChUint32 n \<Rightarrow> GInt n
               | ChFloat f \<Rightarrow> GFloat f
               | ChOther w \<Rightarrow> w)"
    by (cases v rule: ch_cell.cases) (simp_all add: format_in_zone_def)
  then show ?thesis unfolding ch_value_def decoded_def by (simp only: Let_def)
qed

lemma ch_row_shows:
  assumes "length vs = length cols"
  shows "row_shows cols (ch_value jdec) vs (ch_row jdec cols vs)"
proof -
  define base where "base = filled ch_cell (zip cols vs) []"
  note filled = filled_columns [OF assms, of ch_cell, folded base_def]
  have d: "distinct (map fst base)" and k: "fst ` set base = set cols"
    and val: "map_of base c = map_option ch_cell (last_cell cols vs c)" for c
    using filled by simp_all
  let ?one = "expand_json jdec ''aggResult'' base"
  have row: "ch_row jdec cols vs = expand_json jdec ''aggregationResults'' ?one" by (simp add: ch_row_def base_def filled_def)
  note expand1 = expand_json_row [OF d row_val_absent, of jdec "''aggResult''"]
  note expand2 = expand_json_row [OF expand1(1) row_val_absent, of jdec "''aggregationResults''"]
  have "map_of (ch_row jdec cols vs) c = Some (ch_value jdec c v)" if v: "last_cell cols vs c = Some v" for c v
  proof -
    have "map_of base c = Some (ch_cell v)" by (simp add: val v)
    then show ?thesis unfolding row map_of_expand_row ch_value_cell by simp
  qed
  with expand1 expand2 k show ?thesis by (simp add: row_shows_def row)
qed

lemma make_row_shows:
  assumes "length vs = length cols"
  shows "row_shows cols (\<lambda>_. duck_value) vs (make_row hist_cell cols vs)"
proof -
  have "hist_cell v = duck_value v" for v
    by (cases v rule: hist_cell.cases) (simp_all add: duck_value_def format_ist_def ist_offset_def)
  then have "make_row hist_cell cols vs = filled duck_value (zip cols vs) []" by (simp add: make_row_def filled_def)
  then show ?thesis using filled_columns [OF assms, of duck_value] by (simp add: row_shows_def)
qed

text \<open>\<open>database/sql\<close> gives a row as many values as the answer has columns.\<close>

definition full_rows :: "string list \<Rightarrow> 'a list option list \<Rightarrow> bool" where
  "full_rows cols rs \<longleftrightarrow> list_all (\<lambda>r. \<forall>vs. r = Some vs \<longrightarrow> length vs = length cols) rs"

lemma those_Some: "those xs = Some ys \<Longrightarrow> xs = map Some ys"
  by (induction xs arbitrary: ys) (auto split: option.splits)

text \<open>C31. Every row of a successful answer has exactly the names of the answer's columns, each once, with
  the value of the last column of that name (an alias given twice, or one that is called like
  another column, hides the earlier one): times as wall-clock times, of their own zone for
  ClickHouse and of India for DuckDB, nil pointers as null, documents in the two columns of
  aggregates decoded, anything else unchanged. ClickHouse's answer loses no row: one that fails to
  scan fails the request. DuckDB's analysis drops such rows and still succeeds.\<close>

theorem served_rows_have_their_columns:
  assumes "full_rows (ca_cols a) (ca_rows a)" and "rowsToMaps jdec a = Inr rows"
    and "an_cols b = Some cols" and "full_rows cols (an_rows b)" and "analysis_rows b = Inr rows'"
  shows "(\<exists>vals. ca_rows a = map Some vals \<and> list_all2 (row_shows (ca_cols a) (ch_value jdec)) vals rows) \<and>
    list_all2 (row_shows cols (\<lambda>_. duck_value)) (List.map_filter id (an_rows b)) rows'"
proof -
  from assms(2) obtain vals where v: "ca_rows a = map Some vals" "rows = map (ch_row jdec (ca_cols a)) vals"
    by (auto simp: rowsToMaps_def dest: those_Some split: option.splits if_splits)
  with assms(1) have "\<forall>vs \<in> set vals. length vs = length (ca_cols a)" by (auto simp: full_rows_def list_all_iff)
  then have "list_all2 (row_shows (ca_cols a) (ch_value jdec)) vals rows"
    unfolding v(2) by (simp add: list.rel_map list.rel_refl_strong ch_row_shows)
  moreover have "rows' = map (make_row hist_cell cols) (List.map_filter id (an_rows b))"
    using assms(3,5) by (auto simp: analysis_rows_def split: if_splits)
  moreover have "\<forall>vs \<in> set (List.map_filter id (an_rows b)). length vs = length cols"
    using assms(4) by (auto simp: full_rows_def list_all_iff map_filter_def)
  ultimately show ?thesis using v(1) by (simp add: list.rel_map list.rel_refl_strong make_row_shows)
qed

definition demo_duck_answer :: answer where
  "demo_duck_answer = \<lparr>an_cols = Some [''key'', ''n'', ''n''],
     an_rows = [Some [CVal (GStr ''D''), CVal (GInt 3), CVal (GInt 4)], None], an_err = None\<rparr>"

theorem served_rows_have_their_columns_witness:
  "\<exists>row. analysis_rows demo_duck_answer = Inr [row] \<and> map_of row ''n'' = Some (GInt 4)"
proof -
  have a: "full_rows (ca_cols demo_answer) (ca_rows demo_answer)" by (simp add: full_rows_def demo_answer_def)
  have r: "rowsToMaps (\<lambda>_. None) demo_answer = Inr (map (ch_row (\<lambda>_. None) [''ruleId'']) [[ChOther (GStr ''R'')], [ChOther (GStr [])]])"
    by (simp add: rowsToMaps_def demo_answer_def)
  have b: "an_cols demo_duck_answer = Some [''key'', ''n'', ''n'']" "full_rows [''key'', ''n'', ''n''] (an_rows demo_duck_answer)"
    by (simp_all add: full_rows_def demo_duck_answer_def)
  obtain rows where q: "analysis_rows demo_duck_answer = Inr rows" by (simp add: analysis_rows_def demo_duck_answer_def)
  have "List.map_filter id (an_rows demo_duck_answer) = [[CVal (GStr ''D''), CVal (GInt 3), CVal (GInt 4)]]"
    by (simp add: demo_duck_answer_def map_filter_simps)
  with served_rows_have_their_columns [OF a r b q] obtain row where one: "rows = [row]"
    and "row_shows [''key'', ''n'', ''n''] (\<lambda>_. duck_value) [CVal (GStr ''D''), CVal (GInt 3), CVal (GInt 4)] row"
    by (auto simp: list_all2_Cons1)
  then have "map_of row ''n'' = Some (duck_value (CVal (GInt 4)))" by (simp add: row_shows_def last_cell_def)
  with q one show ?thesis by (simp add: duck_value_def)
qed

end
