(* ===== verification/PoolRequests.thy ===== *)
theory PoolRequests
  imports ClickHouse_Props
begin

text \<open>
  Requests that share the ClickHouse pool at the same time. A request takes the pool
  (\<open>getClickHouseDB\<close>) and later runs its query on the pool it took; between the two steps other
  requests run. A query on a pool that has been closed meanwhile fails (\<open>database/sql\<close>: no query starts
  after \<open>Close\<close>), and a query that fails resets the pool then in use, whichever it is. A request whose client goes away while its query runs fails with the error of its
  context, which resets the pool like any other: it is a query the server rejects
  (\<open>Ask r False\<close>). (A context cancelled before the query is not told apart.)
\<close>

section \<open>The steps\<close>

record ch_requests =
  cr_ch :: ch_state
  cr_held :: "nat \<rightharpoonup> nat"
  cr_failed :: "nat list"

text \<open>The server is up throughout. \<open>Ask r good\<close>: request \<open>r\<close> runs its query, which the server accepts or
  rejects for what it says. \<open>cr_failed\<close> records the requests whose acceptable query failed.\<close>

datatype pool_event = Acquire nat | Ask nat bool

definition server_up :: ch_env where
  "server_up = \<lparr>ce_ping = True, ce_pool_ping = True, ce_err = [], ce_rows = (\<lambda>_ _. None), ce_groups = (\<lambda>_ _. None)\<rparr>"

fun pool_exec :: "string \<Rightarrow> pool_event \<Rightarrow> ch_requests \<Rightarrow> ch_requests" where
  "pool_exec table (Acquire r) s =
     (case getClickHouseDB table server_up (cr_ch s) of
        (ch, Inl e) \<Rightarrow> s\<lparr>cr_ch := ch\<rparr>
      | (ch, Inr d) \<Rightarrow> s\<lparr>cr_ch := ch, cr_held := (cr_held s)(r \<mapsto> d)\<rparr>)"
| "pool_exec table (Ask r good) s =
     (case cr_held s r of
        None \<Rightarrow> s
      | Some d \<Rightarrow>
          (let s1 = s\<lparr>cr_held := (cr_held s)(r := None)\<rparr>
           in if good \<and> d \<in> ch_pools (cr_ch s) then s1
              else s1\<lparr>cr_ch := resetClickHouseConn (cr_ch s),
                      cr_failed := cr_failed s @ (if good then [r] else [])\<rparr>))"

definition pool_run :: "string \<Rightarrow> pool_event list \<Rightarrow> ch_requests \<Rightarrow> ch_requests" where
  "pool_run table evs s = fold (pool_exec table) evs s"

definition requests0 :: ch_requests where
  "requests0 = \<lparr>cr_ch = ch_start, cr_held = Map.empty, cr_failed = []\<rparr>"

section \<open>While nothing is rejected\<close>

text \<open>With pings that succeed the pool in use is the only one open.\<close>

definition one_pool :: "ch_state \<Rightarrow> bool" where
  "one_pool ch \<longleftrightarrow> ch_pools ch = set_option (ch_db ch)"

lemma get_one_pool:
  "one_pool ch \<Longrightarrow> getClickHouseDB table server_up ch = (ch', r) \<Longrightarrow>
    one_pool ch' \<and> (\<forall>d. r = Inr d \<longrightarrow> ch_db ch' = Some d) \<and> (ch_db ch \<noteq> None \<longrightarrow> ch' = ch)"
  by (auto simp: one_pool_def getClickHouseDB_def server_up_def Let_def split: option.splits if_splits)

lemma reset_one_pool: "one_pool ch \<Longrightarrow> one_pool (resetClickHouseConn ch)"
  by (simp add: one_pool_def resetClickHouseConn_def split: option.split)

lemma run_one_pool: "one_pool (cr_ch s) \<Longrightarrow> one_pool (cr_ch (pool_run table evs s))"
  unfolding pool_run_def
proof (induction evs arbitrary: s)
  case (Cons ev evs)
  then have "one_pool (cr_ch (pool_exec table ev s))"
    using get_one_pool [of "cr_ch s" table]
    by (cases ev) (auto simp: Let_def reset_one_pool split: option.split prod.split sum.split)
  with Cons.IH show ?case by simp
qed simp

definition holders_current :: "ch_requests \<Rightarrow> bool" where
  "holders_current s \<longleftrightarrow> one_pool (cr_ch s) \<and> (\<forall>r d. cr_held s r = Some d \<longrightarrow> ch_db (cr_ch s) = Some d) \<and> cr_failed s = []"

fun acceptable :: "pool_event \<Rightarrow> bool" where
  "acceptable (Acquire r) \<longleftrightarrow> True"
| "acceptable (Ask r good) \<longleftrightarrow> good"

lemma holders_forget: "holders_current s \<Longrightarrow> holders_current (s\<lparr>cr_held := (cr_held s)(r := None)\<rparr>)"
  by (simp add: holders_current_def)

lemma acceptable_step:
  assumes "holders_current s" and "acceptable ev"
  shows "holders_current (pool_exec table ev s)"
proof (cases ev)
  case (Acquire r)
  obtain ch res where g: "getClickHouseDB table server_up (cr_ch s) = (ch, res)"
    by (cases "getClickHouseDB table server_up (cr_ch s)")
  have o: "one_pool ch" "\<And>d. res = Inr d \<Longrightarrow> ch_db ch = Some d" "ch_db (cr_ch s) \<noteq> None \<Longrightarrow> ch = cr_ch s"
    using get_one_pool [OF _ g] assms(1) by (auto simp: holders_current_def)
  have h: "ch_db ch = Some d" if "cr_held s r' = Some d" for r' d
  proof -
    have "ch_db (cr_ch s) = Some d" using assms(1) that by (simp add: holders_current_def)
    then show ?thesis using o(3) by simp
  qed
  show ?thesis
  proof (cases res)
    case (Inl e)
    with Acquire g o(1) h assms(1) show ?thesis by (simp add: holders_current_def)
  next
    case (Inr d)
    with Acquire g o(1,2) h assms(1) show ?thesis by (auto simp: holders_current_def)
  qed
next
  case (Ask r good)
  then have "good" using assms(2) by simp
  show ?thesis
  proof (cases "cr_held s r")
    case None
    with Ask assms(1) show ?thesis by simp
  next
    case (Some d)
    then have "d \<in> ch_pools (cr_ch s)" using assms(1) by (simp add: holders_current_def one_pool_def)
    with Ask \<open>good\<close> Some have "pool_exec table ev s = s\<lparr>cr_held := (cr_held s)(r := None)\<rparr>" by simp
    with holders_forget [OF assms(1)] show ?thesis by simp
  qed
qed

lemma acceptable_run: "holders_current s \<Longrightarrow> list_all acceptable evs \<Longrightarrow> holders_current (pool_run table evs s)"
  unfolding pool_run_def by (induction evs arbitrary: s) (auto intro: acceptable_step)

section \<open>One rejection\<close>

text \<open>While request \<open>k\<close> holds a closed pool, the next request opens a new one, which \<open>k\<close>'s failing query
  closes: the next request is now in the place of \<open>k\<close>.\<close>

definition stranded :: "nat \<Rightarrow> ch_requests \<Rightarrow> bool" where
  "stranded k s \<longleftrightarrow> ch_db (cr_ch s) = None \<and> ch_pools (cr_ch s) = {} \<and> (\<exists>d. cr_held s k = Some d \<and> d < ch_fresh (cr_ch s))"

lemma stranded_step:
  assumes "valid_table table" and "stranded k s"
  shows "stranded (Suc k) (pool_run table [Acquire (Suc k), Ask k True] s) \<and>
    cr_failed (pool_run table [Acquire (Suc k), Ask k True] s) = cr_failed s @ [k]"
proof -
  from assms(2) obtain d where d: "ch_db (cr_ch s) = None" "ch_pools (cr_ch s) = {}" "cr_held s k = Some d" "d < ch_fresh (cr_ch s)"
    by (auto simp: stranded_def)
  then show ?thesis
    using assms(1)
    by (simp add: pool_run_def stranded_def getClickHouseDB_def server_up_def resetClickHouseConn_def Let_def)
qed

definition cascade :: "nat \<Rightarrow> pool_event list" where
  "cascade n = [Acquire 0, Acquire 1, Ask 0 False] @ concat (map (\<lambda>k. [Acquire (Suc k), Ask k True]) [1..<Suc n])"

lemma cascade_run:
  assumes "valid_table table"
  shows "stranded (Suc n) (pool_run table (cascade n) requests0) \<and> cr_failed (pool_run table (cascade n) requests0) = [1..<Suc n]"
proof (induction n)
  case 0
  show ?case using assms
    by (simp add: cascade_def pool_run_def requests0_def ch_start_def stranded_def getClickHouseDB_def server_up_def
        resetClickHouseConn_def Let_def)
next
  case (Suc n)
  have "cascade (Suc n) = cascade n @ [Acquire (Suc (Suc n)), Ask (Suc n) True]" by (simp add: cascade_def)
  then have "pool_run table (cascade (Suc n)) requests0 =
      pool_run table [Acquire (Suc (Suc n)), Ask (Suc n) True] (pool_run table (cascade n) requests0)"
    by (simp add: pool_run_def)
  with stranded_step [OF assms, of "Suc n"] Suc show ?case by simp
qed

text \<open>C23. With a server that is up, an acceptable query never fails as long as no query is rejected,
  however the requests overlap. After a single rejected one any number of acceptable queries can
  fail, one after the other: each closes the pool the next has just opened.\<close>

theorem one_rejection_cascades:
  assumes "valid_table table"
  shows "(list_all acceptable evs \<longrightarrow> cr_failed (pool_run table evs requests0) = []) \<and>
    (\<exists>evs'. length (filter (\<lambda>ev. \<not> acceptable ev) evs') = 1 \<and> cr_failed (pool_run table evs' requests0) = [1..<Suc n])"
proof -
  have "holders_current requests0" by (simp add: holders_current_def requests0_def one_pool_def ch_start_def)
  then have "list_all acceptable evs \<longrightarrow> cr_failed (pool_run table evs requests0) = []"
    using acceptable_run [of requests0 evs table] by (auto simp: holders_current_def)
  moreover have "length (filter (\<lambda>ev. \<not> acceptable ev) (cascade n)) = 1"
    by (simp add: cascade_def filter_concat comp_def)
  ultimately show ?thesis using cascade_run [OF assms, of n] by blast
qed

theorem one_rejection_cascades_witness:
  "\<exists>evs. length (filter (\<lambda>ev. \<not> acceptable ev) evs) = 1 \<and>
     cr_failed (pool_run ''velocity_rule_results'' evs requests0) = [1, 2, 3]"
proof -
  have "valid_table ''velocity_rule_results''" by (rule demo_table)
  moreover have "[1..<Suc 3] = [1, 2, 3]" by (simp add: upt_rec)
  ultimately show ?thesis using one_rejection_cascades [where n = 3] by metis
qed

end
