(* ===== verification/Startup.thy ===== *)
theory Startup
  imports ClickHouse_Props LiveStore_Props
begin

text \<open>
  The start of the process in \<open>cmd/server/main.go\<close> as far as it fills the stores: the live results
  store is bootstrapped from ClickHouse.
\<close>

definition bootstrapLiveStore ::
  "ch_lib \<Rightarrow> ch_env \<Rightarrow> int \<Rightarrow> row list range_order \<Rightarrow> row list range_order \<Rightarrow> live_store \<Rightarrow> ch_state \<Rightarrow>
    ch_state \<times> live_store" where
  "bootstrapLiveStore lib env hours ord ord' ls st =
     (case getLiveResultsMulti lib env [] hours st of
        (st', Inl e) \<Rightarrow> (st', ls)
      | (st', Inr g) \<Rightarrow> (st', ls_bootstrap (cl_float lib) ord' (concat (map (rows_at g) (range_keys ord g))) ls))"

lemma row_group_rule: "row_group = row_rule"
  by (rule ext) (simp add: row_group_def row_rule_def)

text \<open>Taking the groups in any order keeps each rule's rows as they are in the answer.\<close>

lemma filter_concat_groups:
  assumes "distinct ks" and "\<And>j. \<forall>r \<in> set (g j). row_rule r = j"
  shows "filter (\<lambda>r. row_rule r = k) (concat (map g ks)) = (if k \<in> set ks then g k else [])"
  using assms(1)
proof (induction ks)
  case (Cons j ks)
  have "filter (\<lambda>r. row_rule r = k) (g j) = (if j = k then g j else [])"
    using assms(2) [of j] by (auto simp: filter_id_conv filter_empty_conv)
  with Cons show ?case by auto
qed simp

lemma bootstrapped_rows:
  assumes "getLiveResultsMulti lib env [] hours st = (st', Inr g)" and "g = group_by_rule rows Map.empty"
  shows "filter (\<lambda>r. row_rule r = rid) (concat (map (rows_at g) (range_keys ord g))) = filter (\<lambda>r. row_rule r = rid) rows"
proof -
  have g: "rows_at g k = filter (\<lambda>r. row_rule r = k) rows" for k
    by (simp add: assms(2) group_by_rule_rows row_group_rule)
  have f: "finite (dom g)" by (simp add: assms(2) group_by_rule_dom)
  have "filter (\<lambda>r. row_rule r = rid) (concat (map (rows_at g) (range_keys ord g))) =
      (if rid \<in> set (range_keys ord g) then rows_at g rid else [])"
    by (rule filter_concat_groups) (simp_all add: f g)
  also have "\<dots> = rows_at g rid"
    using f by (auto simp: domIff rows_at_None)
  finally show ?thesis by (simp add: g)
qed

text \<open>C16. After a start the live store serves, for each rule, exactly the rows of the answer of
  ClickHouse for that rule, in the order of the answer; its invariant holds. As the answer is newest
  first, pruning keeps all of a rule's rows, however old, as long as the newest of them is fresh.\<close>

theorem start_serves_clickhouse_rows:
  assumes "getLiveResultsMulti lib env [] hours st = (st', Inr g)"
    and "s = snd (bootstrapLiveStore lib env hours ord ord' ls st)"
  shows "\<exists>a rows. ce_rows env (multi_sql (cl_table lib) 0) [GInt hours] = Some a \<and>
    rowsToMaps (cl_json lib) a = Inr rows \<and> ls_inv (cl_float lib) s \<and>
    (\<forall>rid. rows_at (ls_data s) rid = filter (\<lambda>r. row_rule r = rid) rows) \<and>
    (\<forall>rid r rs now ord''. filter (\<lambda>r. row_rule r = rid) rows = r # rs \<and> \<not> row_stale (ls_cutoff now s) r \<longrightarrow>
       rows_at (ls_data (pruneStale (cl_float lib) ord'' now s)) rid = r # rs)"
proof -
  from multi_rows [OF assms(1)] obtain a rows where a: "ce_rows env (multi_sql (cl_table lib) 0) [GInt hours] = Some a"
      "rowsToMaps (cl_json lib) a = Inr rows" and g: "g = group_by_rule rows Map.empty" by auto
  have s: "s = ls_bootstrap (cl_float lib) ord' (concat (map (rows_at g) (range_keys ord g))) ls"
    by (simp add: bootstrapLiveStore_def assms)
  have rows: "rows_at (ls_data s) rid = filter (\<lambda>r. row_rule r = rid) rows" for rid
    unfolding s by (simp add: ls_bootstrap_correct(2) bootstrapped_rows [OF assms(1) g])
  have inv: "ls_inv (cl_float lib) s" unfolding s by (rule ls_bootstrap_correct(1))
  have "rows_at (ls_data (pruneStale (cl_float lib) ord'' now s)) rid = r # rs"
    if "filter (\<lambda>r. row_rule r = rid) rows = r # rs" "\<not> row_stale (ls_cutoff now s) r" for rid r rs now ord''
    using pruneStale_correct(2) [OF inv] that rows by simp
  with a rows inv show ?thesis by blast
qed

lemma demo_multi:
  "getLiveResultsMulti demo_lib demo_ch [] 1 ch_start =
    (ch_start\<lparr>ch_db := Some 0, ch_pools := {0}, ch_fresh := 1\<rparr>,
     Inr (group_by_rule [[(''ruleId'', GStr ''R'')], [(''ruleId'', GStr [])]] Map.empty))"
  using demo_table
  by (simp add: getLiveResultsMulti_def metered_def converted_def ask_def getClickHouseDB_def demo_lib_def demo_ch_def
      demo_answer_def ch_start_def rowsToMaps_def ch_row_def expand_json_def row_val_def row_set_def Let_def)

theorem start_serves_clickhouse_rows_witness:
  "\<forall>ord ord' ls. rows_at (ls_data (snd (bootstrapLiveStore demo_lib demo_ch 1 ord ord' ls ch_start))) ''R'' =
    [[(''ruleId'', GStr ''R'')]]"
proof (intro allI)
  fix ord ord' ls
  show "rows_at (ls_data (snd (bootstrapLiveStore demo_lib demo_ch 1 ord ord' ls ch_start))) ''R'' = [[(''ruleId'', GStr ''R'')]]"
    using start_serves_clickhouse_rows [OF demo_multi refl, of ord ord' ls]
    by (auto simp: demo_ch_def demo_answer_def demo_lib_def rowsToMaps_def ch_row_def expand_json_def row_val_def row_set_def
      row_rule_def row_str_def)
qed

end
