(* ===== verification/Config.thy ===== *)
theory Config
  imports GoText
begin

text \<open>
  \<open>internal/config/config.go\<close>: settings from environment variables with their defaults, and the
  checks at start-up that end the process.
\<close>

section \<open>Settings\<close>

type_synonym environment = "string \<rightharpoonup> string"

definition getEnv :: "environment \<Rightarrow> string \<Rightarrow> string \<Rightarrow> string" where
  "getEnv e key fallback = (case e key of None \<Rightarrow> fallback | Some v \<Rightarrow> if v = [] then fallback else v)"

definition getEnvInt :: "environment \<Rightarrow> string \<Rightarrow> int \<Rightarrow> int" where
  "getEnvInt e key fallback =
     (case e key of None \<Rightarrow> fallback
      | Some v \<Rightarrow> if v = [] then fallback else (case parse_int64 v of None \<Rightarrow> fallback | Some n \<Rightarrow> n))"

record config =
  cf_host :: string
  cf_port :: string
  cf_log_level :: string
  cf_cors :: string
  cf_brokers :: string
  cf_rules_topic :: string
  cf_results_topic :: string
  cf_results_group :: string
  cf_anomaly_topic :: string
  cf_anomaly_group :: string
  cf_ch_host :: string
  cf_ch_port :: int
  cf_ch_user :: string
  cf_ch_password :: string
  cf_ch_db :: string
  cf_ch_table :: string
  cf_iceberg_uri :: string
  cf_s3_endpoint :: string
  cf_s3_access :: string
  cf_s3_secret :: string
  cf_iceberg_table :: string
  cf_iceberg_path :: string
  cf_live_max_rows :: int
  cf_live_hours :: int
  cf_heartbeat :: int
  cf_my_host :: string
  cf_my_port :: int
  cf_my_user :: string
  cf_my_password :: string
  cf_my_database :: string
  cf_my_open :: int
  cf_my_idle :: int
  cf_perm_ttl :: int
  cf_perm_stale :: int
  cf_jit_limit :: int

definition load_config :: "environment \<Rightarrow> config" where
  "load_config e =
     \<lparr>cf_host = getEnv e ''SERVER_HOST'' ''0.0.0.0'',
      cf_port = getEnv e ''SERVER_PORT'' ''8000'',
      cf_log_level = getEnv e ''LOG_LEVEL'' ''INFO'',
      cf_cors = getEnv e ''CORS_ORIGINS'' ''http://10.10.79.27:32515'',
      cf_brokers = getEnv e ''KAFKA_BROKERS'' ''localhost:9092'',
      cf_rules_topic = getEnv e ''RULES_TOPIC'' ''DE.AUTH.VELOCITY_ENGINE.RULES'',
      cf_results_topic = getEnv e ''RESULTS_TOPIC'' ''DE.AUTH.VELOCITY_ENGINE.RESULTS'',
      cf_results_group = getEnv e ''RESULTS_CONSUMER_GROUP'' ''velocity-cp-results'',
      cf_anomaly_topic = getEnv e ''ANOMALY_TOPIC'' ''DE.AUTH.VELOCITY_ENGINE.ANOMALIES'',
      cf_anomaly_group = getEnv e ''ANOMALY_CONSUMER_GROUP'' ''velocity-cp-anomalies'',
      cf_ch_host = getEnv e ''CLICKHOUSE_HOST'' ''localhost'',
      cf_ch_port = getEnvInt e ''CLICKHOUSE_PORT'' 8123,
      cf_ch_user = getEnv e ''CLICKHOUSE_USER'' ''default'',
      cf_ch_password = getEnv e ''CLICKHOUSE_PASSWORD'' [],
      cf_ch_db = getEnv e ''CLICKHOUSE_DB'' ''auth_analytics'',
      cf_ch_table = getEnv e ''CLICKHOUSE_TABLE'' ''velocity_rule_results'',
      cf_iceberg_uri = getEnv e ''ICEBERG_URI'' ''thrift://localhost:9083'',
      cf_s3_endpoint = getEnv e ''S3_ENDPOINT'' ''http://localhost:9000'',
      cf_s3_access = getEnv e ''S3_ACCESS_KEY'' [],
      cf_s3_secret = getEnv e ''S3_SECRET_KEY'' [],
      cf_iceberg_table = getEnv e ''ICEBERG_TABLE'' ''stream_auth.auth_txn_raw_union_v1'',
      cf_iceberg_path = getEnv e ''ICEBERG_S3_PATH'' ''s3://warehouse/stream_auth.db/auth_txn_raw_union_v1'',
      cf_live_max_rows = getEnvInt e ''LIVE_STORE_MAX_ROWS'' 50000,
      cf_live_hours = getEnvInt e ''LIVE_STORE_HOURS'' 1,
      cf_heartbeat = getEnvInt e ''WS_HEARTBEAT_INTERVAL'' 30,
      cf_my_host = getEnv e ''MYSQL_HOST'' ''localhost'',
      cf_my_port = getEnvInt e ''MYSQL_PORT'' 3306,
      cf_my_user = getEnv e ''MYSQL_USER'' ''root'',
      cf_my_password = getEnv e ''MYSQL_PASSWORD'' [],
      cf_my_database = getEnv e ''MYSQL_DATABASE'' ''velocity_engine_iam'',
      cf_my_open = getEnvInt e ''MYSQL_MAX_OPEN_CONNS'' 20,
      cf_my_idle = getEnvInt e ''MYSQL_MAX_IDLE_CONNS'' 10,
      cf_perm_ttl = getEnvInt e ''RBAC_PERMISSION_CACHE_TTL_SECONDS'' 300,
      cf_perm_stale = getEnvInt e ''RBAC_PERMISSION_MAX_STALE_SECONDS'' 1800,
      cf_jit_limit = getEnvInt e ''JIT_PROVISION_RATE_LIMIT_PER_MINUTE'' 5\<rparr>"

section \<open>Start-up checks\<close>

text \<open>The message the process panics with, if it does.\<close>

definition config_panic :: "environment \<Rightarrow> string option" where
  "config_panic e =
     (let c = load_config e
      in if (cf_s3_access c = [] \<or> cf_s3_secret c = []) \<and> e ''ENV'' = Some ''prod''
         then Some ''S3_ACCESS_KEY and S3_SECRET_KEY are required''
         else if cf_results_group c = cf_anomaly_group c
         then Some ''RESULTS_CONSUMER_GROUP and ANOMALY_CONSUMER_GROUP must be distinct'' else None)"

section \<open>Lemmas\<close>

lemma getEnv_default: "e k = None \<or> e k = Some [] \<Longrightarrow> getEnv e k d = d"
  by (auto simp: getEnv_def)

lemma getEnvInt_bad: "e k = Some v \<Longrightarrow> parse_int64 v = None \<Longrightarrow> getEnvInt e k d = d"
  by (simp add: getEnvInt_def)

text \<open>A process that started has two consumer groups, and in production both S3 keys.\<close>

lemma started_config:
  assumes "config_panic e = None"
  shows "cf_results_group (load_config e) \<noteq> cf_anomaly_group (load_config e)"
    and "e ''ENV'' = Some ''prod'' \<Longrightarrow> cf_s3_access (load_config e) \<noteq> [] \<and> cf_s3_secret (load_config e) \<noteq> []"
  using assms by (auto simp: config_panic_def Let_def split: if_splits)

lemma load_config_groups:
  "cf_results_group (load_config e) = getEnv e ''RESULTS_CONSUMER_GROUP'' ''velocity-cp-results''"
  "cf_anomaly_group (load_config e) = getEnv e ''ANOMALY_CONSUMER_GROUP'' ''velocity-cp-anomalies''"
  by (simp_all add: load_config_def)

lemma defaults_start: "config_panic Map.empty = None"
  by (simp add: config_panic_def Let_def load_config_groups getEnv_default)

end
