(* ===== verification/Platform.thy ===== *)
theory Platform
  imports WSHandlers DuckEngine_Props ClickHouse_Props MySQL Config Consumers
begin

text \<open>
  What the process shares between its parts: the Kafka producer of \<open>internal/services/kafka.go\<close>,
  the origins of \<open>cmd/server/main.go\<close>, and the end of \<open>main\<close>, which closes the connections. The
  properties are about several components at once.
\<close>

section \<open>The Kafka producer\<close>

record producer_state =
  kp_producer :: "nat option"
  kp_open :: "nat set"
  kp_fresh :: nat

definition producer_start :: producer_state where
  "producer_start = \<lparr>kp_producer = None, kp_open = {}, kp_fresh = 0\<rparr>"

definition getProducer :: "bool \<Rightarrow> producer_state \<Rightarrow> producer_state \<times> nat option" where
  \<comment> \<open>\<open>ok\<close>: whether \<open>kafka.NewProducer\<close> succeeds\<close>
  "getProducer ok st =
     (case kp_producer st of
        Some p \<Rightarrow> (st, Some p)
      | None \<Rightarrow>
          if \<not> ok then (st, None)
          else let p = kp_fresh st
               in (st\<lparr>kp_fresh := Suc p, kp_open := insert p (kp_open st), kp_producer := Some p\<rparr>, Some p))"

definition closeProducer :: "producer_state \<Rightarrow> producer_state" where
  "closeProducer st =
     (case kp_producer st of None \<Rightarrow> st | Some p \<Rightarrow> st\<lparr>kp_open := kp_open st - {p}, kp_producer := None\<rparr>)"

interpretation producer: conn_pool kp_producer getProducer closeProducer
  by unfold_locales (auto simp: getProducer_def closeProducer_def Let_def split: option.splits if_splits)

definition kp_inv :: "producer_state \<Rightarrow> bool" where
  "kp_inv st \<longleftrightarrow> kp_open st = set_option (kp_producer st)"

lemma kp_inv_get: "kp_inv st \<Longrightarrow> kp_inv (fst (getProducer ok st))"
  by (auto simp: kp_inv_def getProducer_def Let_def split: option.split)

section \<open>Shared connections\<close>

text \<open>The connections to MySQL, to ClickHouse, to DuckDB and to Kafka are shared alike: once one is up,
  callers that only ask for it open nothing.\<close>

lemma connections_shared:
  "my_db my = Some d \<Longrightarrow> fold (\<lambda>e s. fst (getMySQLDB e s)) mys my = my"
  "ch_db ch = Some d \<Longrightarrow> fold (\<lambda>e s. fst (get_pool table e s)) chs ch = ch"
  "dk_conn dk = Some d \<Longrightarrow> fold (\<lambda>e s. fst (initDuckDB cfg e s)) dks dk = dk"
  "kp_producer kp = Some d \<Longrightarrow> fold (\<lambda>e s. fst (getProducer e s)) kps kp = kp"
  by (fact mysql.gets_kept clickhouse.gets_kept duckdb.gets_kept producer.gets_kept)+

section \<open>Origins\<close>

text \<open>The origins the CORS layer is given, and whether it allows any origin.\<close>

definition allowOrigins :: "string \<Rightarrow> string list" where
  "allowOrigins cors = filter (\<lambda>o'. o' \<noteq> []) (map trim_space (split_on CHR '','' cors))"

definition allowAll :: "string \<Rightarrow> bool" where
  "allowAll cors \<longleftrightarrow> length (allowOrigins cors) = 1 \<and> hd (allowOrigins cors) = ''*''"

text \<open>One setting governs both transports: an origin is accepted for a WebSocket exactly if it is
  on the list the CORS layer gets, or the setting is a bare star, which that layer takes for any
  origin too. They part when the star has spaces or commas around it: CORS allows every origin,
  the WebSocket check none (but the star itself).\<close>

theorem one_origin_policy:
  assumes "origin \<noteq> []"
  shows "(checkOrigin cors origin \<longleftrightarrow> cors = ''*'' \<or> origin \<in> set (allowOrigins cors)) \<and>
    (cors = ''*'' \<longrightarrow> allowAll cors) \<and>
    (allowAll cors \<and> cors \<noteq> ''*'' \<and> origin \<noteq> ''*'' \<longrightarrow> \<not> checkOrigin cors origin)"
proof -
  have m: "checkOrigin cors origin \<longleftrightarrow> cors = ''*'' \<or> origin \<in> set (allowOrigins cors)"
    using assms by (auto simp: checkOrigin_def allowOrigins_def)
  have "is_graphic CHR ''*''" by (simp add: is_graphic_def byte_of_def)
  then have "trim_space ''*'' = ''*''" by (intro trim_space_graphic) simp_all
  then have "allowAll ''*''" by (simp add: allowAll_def allowOrigins_def)
  moreover have "origin \<notin> set (allowOrigins cors)" if "allowAll cors" "origin \<noteq> ''*''"
    using that by (auto simp: allowAll_def length_Suc_conv)
  ultimately show ?thesis using m by blast
qed

theorem one_origin_policy_witness:
  "checkOrigin ''*'' ''http://a'' \<and> \<not> checkOrigin ''http://b'' ''http://a''"
proof -
  have g: "is_graphic CHR ''h''" "is_graphic CHR ''b''" by (simp_all add: is_graphic_def byte_of_def)
  have t: "trim_space ''http://b'' = ''http://b''" by (intro trim_space_graphic) (simp_all add: g)
  have "\<not> ''http://a'' \<in> set (allowOrigins ''http://b'')" by (simp add: allowOrigins_def t)
  with one_origin_policy [of "''http://a''" "''http://b''"] one_origin_policy [of "''http://a''" "''*''"]
  show ?thesis by simp
qed

section \<open>The end of the process\<close>

record connections =
  co_producer :: producer_state
  co_ch :: ch_state
  co_my :: my_state
  co_duck :: duck

definition closeConnections :: "connections \<Rightarrow> connections" where
  "closeConnections s =
     s\<lparr>co_producer := closeProducer (co_producer s), co_ch := closeClickHouse (co_ch s), co_my := closeMySQL (co_my s)\<rparr>"

text \<open>The end of the process closes the producer, the MySQL pool and the ClickHouse pool in use,
  whatever happened before; a second call changes nothing. What stays open are the ClickHouse pools
  that failed pings left behind, and DuckDB, which nothing closes.\<close>

theorem shutdown_closes_connections:
  assumes "kp_inv (co_producer s)" and "my_inv (co_my s)"
  shows "kp_open (co_producer (closeConnections s)) = {} \<and> my_pools (co_my (closeConnections s)) = {} \<and>
    ch_pools (co_ch (closeConnections s)) = ch_pools (co_ch s) - set_option (ch_db (co_ch s)) \<and>
    ch_db (co_ch (closeConnections s)) = None \<and>
    co_duck (closeConnections s) = co_duck s \<and> closeConnections (closeConnections s) = closeConnections s"
proof -
  have "kp_open (closeProducer (co_producer s)) = {}" "closeProducer (closeProducer (co_producer s)) = closeProducer (co_producer s)"
    using assms(1) by (auto simp: kp_inv_def closeProducer_def split: option.split)
  moreover have "my_pools (closeMySQL (co_my s)) = {}" "closeMySQL (closeMySQL (co_my s)) = closeMySQL (co_my s)"
    using assms(2) by (auto simp: my_inv_def closeMySQL_def split: option.split)
  moreover have "ch_pools (closeClickHouse (co_ch s)) = ch_pools (co_ch s) - set_option (ch_db (co_ch s))"
    "ch_db (closeClickHouse (co_ch s)) = None" "closeClickHouse (closeClickHouse (co_ch s)) = closeClickHouse (co_ch s)"
    by (auto simp: closeClickHouse_def split: option.split)
  ultimately show ?thesis by (simp add: closeConnections_def)
qed

theorem shutdown_closes_connections_witness:
  "ch_pools (co_ch (closeConnections
     \<lparr>co_producer = producer_start, co_ch = ch_start\<lparr>ch_db := Some 2, ch_pools := {0, 1, 2}\<rparr>, co_my = my_start, co_duck = duck0\<rparr>)) = {0, 1}"
proof -
  have "kp_inv producer_start" by (simp add: kp_inv_def producer_start_def)
  moreover have "my_inv my_start" by (simp add: my_inv_def my_start_def)
  ultimately show ?thesis
    using shutdown_closes_connections
      [of "\<lparr>co_producer = producer_start, co_ch = ch_start\<lparr>ch_db := Some 2, ch_pools := {0, 1, 2}\<rparr>, co_my = my_start, co_duck = duck0\<rparr>"]
    by auto
qed

section \<open>How long the end takes\<close>

text \<open>Durations are what the environment would need without the program's bounds; \<open>None\<close> never ends.\<close>

definition bounded_wait :: "duration \<Rightarrow> duration option \<Rightarrow> duration" where
  "bounded_wait limit need = (case need of None \<Rightarrow> limit | Some t \<Rightarrow> min t limit)"

definition stopConsumer :: "duration option \<Rightarrow> duration" where
  "stopConsumer exits = bounded_wait (5 * second) exits"

text \<open>One connection in \<open>CloseAll\<close>: the wait for its writer, then the close frame under its deadline.\<close>

definition closeConn :: "duration option \<times> duration option \<Rightarrow> duration" where
  "closeConn c =
     (case c of (writer, wr) \<Rightarrow>
        (case writer of
           None \<Rightarrow> 2 * second
         | Some t \<Rightarrow> if t < 2 * second then t + bounded_wait (10 * second) wr else 2 * second))"

record end_env =
  ee_results :: "duration option"
  ee_anomalies :: "duration option"
  ee_requests :: "duration option"
  ee_live :: "(duration option \<times> duration option) list"
  ee_anomaly :: "(duration option \<times> duration option) list"
  ee_flush :: "duration option"

text \<open>The ten seconds of the shutdown context run from before the consumers are stopped; what they leave
  is for the requests in progress.\<close>

definition http_grace :: "end_env \<Rightarrow> duration" where
  "http_grace e = max 0 (10 * second - stopConsumer (ee_results e) - stopConsumer (ee_anomalies e))"

definition end_of_main :: "end_env \<Rightarrow> duration" where
  "end_of_main e = stopConsumer (ee_results e) + stopConsumer (ee_anomalies e) + bounded_wait (http_grace e) (ee_requests e)
     + sum_list (map closeConn (ee_live e)) + sum_list (map closeConn (ee_anomaly e)) + bounded_wait (5 * second) (ee_flush e)"

fun nonneg :: "duration option \<Rightarrow> bool" where
  "nonneg None \<longleftrightarrow> True"
| "nonneg (Some t) \<longleftrightarrow> 0 \<le> t"

lemma bounded_wait_bounds: "0 \<le> limit \<Longrightarrow> nonneg need \<Longrightarrow> 0 \<le> bounded_wait limit need \<and> bounded_wait limit need \<le> limit"
  by (cases need) (auto simp: bounded_wait_def)

lemma closeConn_bounds:
  assumes "nonneg (fst c)" and "nonneg (snd c)"
  shows "0 \<le> closeConn c \<and> closeConn c \<le> 12 * second"
proof -
  obtain writer wr where c: "c = (writer, wr)" by (cases c)
  have "0 \<le> bounded_wait (10 * second) wr \<and> bounded_wait (10 * second) wr \<le> 10 * second"
    using assms(2) c by (intro bounded_wait_bounds) (simp_all add: second_def)
  with assms(1) c show ?thesis by (cases writer) (auto simp: closeConn_def second_def)
qed

lemma sum_closeConn:
  "list_all (\<lambda>c. nonneg (fst c) \<and> nonneg (snd c)) cs \<Longrightarrow> sum_list (map closeConn cs) \<le> int (length cs) * (12 * second)"
proof (induction cs)
  case (Cons c cs)
  then show ?case using closeConn_bounds [of c] by (simp add: algebra_simps)
qed simp

text \<open>The end of the process takes at most a quarter of a minute and twelve seconds for each connection,
  as they are closed one after the other; stuck writers take two seconds each. Requests in progress
  have ten seconds less what the consumers take, so none if both hang. What \<open>database/sql\<close> needs to
  close its pools is not counted.\<close>

lemma shutdown_is_bounded:
  assumes "nonneg (ee_results e)" and "nonneg (ee_anomalies e)" and "nonneg (ee_requests e)" and "nonneg (ee_flush e)"
    and "list_all (\<lambda>c. nonneg (fst c) \<and> nonneg (snd c)) (ee_live e @ ee_anomaly e)"
  shows "end_of_main e \<le> 15 * second + int (length (ee_live e) + length (ee_anomaly e)) * (12 * second) \<and>
    0 \<le> http_grace e \<and> http_grace e \<le> 10 * second \<and>
    (http_grace e = 0 \<longleftrightarrow> stopConsumer (ee_results e) = 5 * second \<and> stopConsumer (ee_anomalies e) = 5 * second)"
proof -
  have s: "0 \<le> stopConsumer t \<and> stopConsumer t \<le> 5 * second" if "nonneg t" for t
    unfolding stopConsumer_def using that by (intro bounded_wait_bounds) (simp_all add: second_def)
  note a = s [OF assms(1)] and b = s [OF assms(2)]
  have g: "0 \<le> http_grace e" "http_grace e = 10 * second - stopConsumer (ee_results e) - stopConsumer (ee_anomalies e)"
    using a b by (simp_all add: http_grace_def)
  have "bounded_wait (http_grace e) (ee_requests e) \<le> http_grace e" using bounded_wait_bounds [OF g(1) assms(3)] by simp
  moreover have "bounded_wait (5 * second) (ee_flush e) \<le> 5 * second"
    using bounded_wait_bounds [OF _ assms(4), of "5 * second"] by (simp add: second_def)
  moreover have "sum_list (map closeConn (ee_live e)) \<le> int (length (ee_live e)) * (12 * second)"
    "sum_list (map closeConn (ee_anomaly e)) \<le> int (length (ee_anomaly e)) * (12 * second)"
    using assms(5) by (auto intro: sum_closeConn)
  ultimately have "end_of_main e \<le> 15 * second + int (length (ee_live e) + length (ee_anomaly e)) * (12 * second)"
    using g(2) unfolding end_of_main_def of_nat_add distrib_right by linarith
  moreover have "http_grace e = 0 \<longleftrightarrow> stopConsumer (ee_results e) = 5 * second \<and> stopConsumer (ee_anomalies e) = 5 * second"
    using a b g(2) by linarith
  moreover have "http_grace e \<le> 10 * second" using a b g(2) by linarith
  ultimately show ?thesis using g(1) by blast
qed

lemma stuck_writers_add_up:
  "sum_list (map closeConn (replicate n (None, w))) = int n * (2 * second)"
  by (simp add: closeConn_def sum_list_replicate)

section \<open>Consumer groups\<close>

text \<open>A process that passed the checks of its configuration joins Kafka with two different groups,
  whatever the name of its pod.\<close>

lemma joined_groups_distinct:
  assumes "config_panic e = None"
  shows "consumerGroupID (cf_results_group (load_config e)) pod host \<noteq> consumerGroupID (cf_anomaly_group (load_config e)) pod host"
  using started_config(1) [OF assms] by (simp add: consumerGroupID_def Let_def)

end
