(* ===== verification/Server.thy ===== *)
theory Server
  imports RulesHandler_Props Auth_Props AnalysisHandlers_Props Startup WSHandlers Consumers
begin

text \<open>
  The server as a whole: the router of \<open>cmd/server/main.go\<close> with its guards and handlers, the two
  consumers, the pruner and a restart, on one state. A request is one transition: its guards, then
  its handler on what they leave. What the databases, the clock and the router's matching of paths
  do is the environment of each step. No request ends the process: a handler that panics is answered
  500 by \<open>gin.Recovery\<close>. What ends it are the consumers' panics; \<open>ListenAndServe\<close> failing at the start
  (\<open>os.Exit\<close>) is not an event of the model, since nothing has been served then.
\<close>

section \<open>State\<close>

text \<open>What never changes while the process runs: the router (a method and a path give the template of
  a route and the value of its parameter, if it has one), the decoders and settings.\<close>

record process =
  px_router :: "string \<Rightarrow> string \<Rightarrow> (string \<times> string) option"
  px_ch :: ch_lib
  px_hist :: hist_lib
  px_max_rows :: int
  px_hours :: int

record server =
  sv_auth :: auth_state
  sv_rules :: rules_state
  sv_results :: "live_store sink"
  sv_anomalies :: "anomaly_store sink"
  sv_ch :: ch_state
  sv_duck :: duck

text \<open>The environment of one request. The guards and the handler look at the clock separately. The
  connections and the MySQL pool are what \<open>/health\<close> finds; \<open>qe_upgrade\<close> is the status the socket
  library answers an upgrade with.\<close>

record request_env =
  qe_guard :: auth_env
  qe_handler :: auth_env
  qe_iam :: iam_faults
  qe_rules :: env
  qe_ch :: ch_env
  qe_hist :: hist_env
  qe_my :: my_env
  qe_pool :: my_state
  qe_ws :: ws_mgr
  qe_order :: "(string, rule_record) key_order"
  qe_descr :: "string \<Rightarrow> string"
  qe_upgrade :: nat

text \<open>A request as the handlers see it: a body that does not start with a JSON document within its first
  megabyte is \<open>None\<close>.\<close>

record server_request =
  sq_method :: string
  sq_path :: string
  sq_subject :: string
  sq_params :: params
  sq_body :: "gval option"

section \<open>Handlers\<close>

datatype endpoint =
    EReadRoot | EHealth | EReadyz | EMetrics | EMe
  | EListUsers | EUpdateUser | EListRoles | EAuditLog
  | ELiveAnalysis | EAggAnalysis | EAnomalyAnalysis
  | EHistoricalTest | EHistoricalAnalysis | EHistoricalBreakdown
  | ECreateRule | EListRules | EGetRule | EPublishRule | ESetStatus | EUpdateRule | EDeleteRule
  | ELiveResults | ETopGroups | EGroupDetail | ELiveSocket | EAnomalySocket

text \<open>The handler registered for each route; the guards of the same registrations are \<open>routes\<close>.\<close>

definition endpoints :: "((string \<times> string) \<times> endpoint) list" where
  "endpoints =
     [((''GET'', ''/''), EReadRoot), ((''GET'', ''/health''), EHealth), ((''GET'', ''/readyz''), EReadyz),
      ((''GET'', ''/metrics''), EMetrics), ((''GET'', ''/me''), EMe),
      ((''GET'', ''/admin/users''), EListUsers), ((''PATCH'', ''/admin/users/:id''), EUpdateUser),
      ((''GET'', ''/admin/roles''), EListRoles), ((''GET'', ''/admin/audit-log''), EAuditLog),
      ((''GET'', ''/rules/live-analysis''), ELiveAnalysis), ((''GET'', ''/rules/agg-analysis''), EAggAnalysis),
      ((''GET'', ''/rules/anomaly-analysis''), EAnomalyAnalysis),
      ((''POST'', ''/rules/historical-test''), EHistoricalTest),
      ((''POST'', ''/rules/historical-analysis''), EHistoricalAnalysis),
      ((''POST'', ''/rules/historical-breakdown''), EHistoricalBreakdown),
      ((''POST'', ''/rules''), ECreateRule), ((''GET'', ''/rules''), EListRules),
      ((''GET'', ''/rules/:rule_id''), EGetRule), ((''POST'', ''/rules/:rule_id/prod''), EPublishRule),
      ((''POST'', ''/rules/:rule_id/status''), ESetStatus), ((''PUT'', ''/rules/:rule_id''), EUpdateRule),
      ((''DELETE'', ''/rules/:rule_id''), EDeleteRule),
      ((''GET'', ''/rules/:rule_id/live-results''), ELiveResults), ((''GET'', ''/rules/:rule_id/top-groups''), ETopGroups),
      ((''GET'', ''/rules/:rule_id/group-detail''), EGroupDetail),
      ((''GET'', ''/ws/live-analysis''), ELiveSocket), ((''GET'', ''/ws/anomaly-analysis''), EAnomalySocket)]"

text \<open>The body of a change of a user.\<close>

definition read_patch :: "row \<Rightarrow> user_patch \<Rightarrow> user_patch option" where
  "read_patch kvs p =
     (case (read_field ''role'' put_string kvs (pt_role p), read_field ''status'' put_string kvs (pt_status p)) of
        (Some r, Some s) \<Rightarrow> Some \<lparr>pt_role = r, pt_status = s\<rparr> | _ \<Rightarrow> None)"

definition patch_of_json :: "gval \<Rightarrow> user_patch option" where
  "patch_of_json d = put_struct read_patch d \<lparr>pt_role = [], pt_status = []\<rparr>"

text \<open>The handlers by what they work on: the rules, the identity tables, ClickHouse, DuckDB.\<close>

definition on_rules :: "request_env \<Rightarrow> rule_request \<Rightarrow> server \<Rightarrow> nat \<times> server" where
  "on_rules env req s =
     (case handle (qe_rules env) req (sv_rules s) of (r, st) \<Rightarrow> (reply_code r, s\<lparr>sv_rules := st\<rparr>))"

definition on_user :: "request_env \<Rightarrow> server_request \<Rightarrow> string \<Rightarrow> ctx_user \<Rightarrow> server \<Rightarrow> nat \<times> server" where
  "on_user env rq arg ctx s =
     (case updateUserHandler (qe_iam env) ctx arg (Option.bind (sq_body rq) patch_of_json)
             (as_db (sv_auth s)) (as_cache (sv_auth s)) of
        (code, db, cache) \<Rightarrow> (code, s\<lparr>sv_auth := (sv_auth s)\<lparr>as_db := db, as_cache := cache\<rparr>\<rparr>))"

definition on_me :: "request_env \<Rightarrow> ctx_user \<Rightarrow> server \<Rightarrow> nat \<times> server" where
  "on_me env ctx s =
     (case me (live_check (qe_handler env)) ctx (sv_auth s) of
        (r, a) \<Rightarrow> (case r of Inl code \<Rightarrow> code | Inr _ \<Rightarrow> 200, s\<lparr>sv_auth := a\<rparr>))"

definition on_ch :: "(ch_state \<Rightarrow> ch_state \<times> 'a response) \<Rightarrow> server \<Rightarrow> nat \<times> server" where
  "on_ch h s = (case h (sv_ch s) of (st, r) \<Rightarrow> (status_of r, s\<lparr>sv_ch := st\<rparr>))"

definition on_duck :: "(duck \<Rightarrow> duck \<times> 'a response) \<Rightarrow> server \<Rightarrow> nat \<times> server" where
  "on_duck h s = (case h (sv_duck s) of (dk, r) \<Rightarrow> (status_of r, s\<lparr>sv_duck := dk\<rparr>))"

fun run_endpoint ::
  "process \<Rightarrow> request_env \<Rightarrow> endpoint \<Rightarrow> server_request \<Rightarrow> string \<Rightarrow> ctx_user \<Rightarrow> server \<Rightarrow> nat \<times> server" where
  "run_endpoint px env EReadRoot rq arg ctx s = (200, s)"
| "run_endpoint px env EHealth rq arg ctx s =
     (status_of (snd (health (qe_my env) (sk_store (sv_results s)) (qe_ws env) (qe_pool env))), s)"
| "run_endpoint px env EReadyz rq arg ctx s = on_ch (readyz (cl_table (px_ch px)) (qe_ch env) (sk_store (sv_results s))) s"
| "run_endpoint px env EMetrics rq arg ctx s = (200, s)"
| "run_endpoint px env EMe rq arg ctx s = on_me env ctx s"
| "run_endpoint px env EListUsers rq arg ctx s = (list_code (listUsers (qe_iam env) (as_db (sv_auth s))), s)"
| "run_endpoint px env EUpdateUser rq arg ctx s = on_user env rq arg ctx s"
| "run_endpoint px env EListRoles rq arg ctx s = (list_code (listRoles (qe_iam env) (qe_descr env) (as_db (sv_auth s))), s)"
| "run_endpoint px env EAuditLog rq arg ctx s = (list_code (listAuditLog (qe_iam env) (as_db (sv_auth s))), s)"
| "run_endpoint px env ELiveAnalysis rq arg ctx s =
     (status_of (liveAnalysis (sq_params rq) (sk_store (sv_results s))), s)"
| "run_endpoint px env EAggAnalysis rq arg ctx s = on_ch (aggAnalysis (px_ch px) (qe_ch env) (sq_params rq)) s"
| "run_endpoint px env EAnomalyAnalysis rq arg ctx s =
     (status_of (anomalyAnalysis (sq_params rq) (Some (sk_store (sv_anomalies s)))), s)"
| "run_endpoint px env EHistoricalTest rq arg ctx s =
     on_duck (historicalTest (px_hist px) (qe_hist env) (sq_body rq) (sq_params rq)) s"
| "run_endpoint px env EHistoricalAnalysis rq arg ctx s =
     on_duck (historicalAnalysis (px_hist px) (qe_hist env) (sq_body rq) (sq_params rq)) s"
| "run_endpoint px env EHistoricalBreakdown rq arg ctx s =
     on_duck (historicalBreakdown (px_hist px) (qe_hist env) (sq_body rq) (sq_params rq)) s"
| "run_endpoint px env ECreateRule rq arg ctx s = on_rules env (Create (sq_body rq)) s"
| "run_endpoint px env EListRules rq arg ctx s = (reply_code (listRules (qe_order env) (sv_rules s)), s)"
| "run_endpoint px env EGetRule rq arg ctx s = (reply_code (getRule arg (sv_rules s)), s)"
| "run_endpoint px env EPublishRule rq arg ctx s = on_rules env (Publish arg) s"
| "run_endpoint px env ESetStatus rq arg ctx s = on_rules env (SetStatus arg (sq_body rq)) s"
| "run_endpoint px env EUpdateRule rq arg ctx s = on_rules env (RulesHandler.Update arg (sq_body rq)) s"
| "run_endpoint px env EDeleteRule rq arg ctx s = on_rules env (Delete arg) s"
| "run_endpoint px env ELiveResults rq arg ctx s = on_ch (liveResults (px_ch px) (qe_ch env) arg (sq_params rq)) s"
| "run_endpoint px env ETopGroups rq arg ctx s = on_ch (topGroupsAnalysis (px_ch px) (qe_ch env) arg (sq_params rq)) s"
| "run_endpoint px env EGroupDetail rq arg ctx s = on_ch (groupDetailAnalysis (px_ch px) (qe_ch env) arg (sq_params rq)) s"
| "run_endpoint px env ELiveSocket rq arg ctx s = (qe_upgrade env, s)"
| "run_endpoint px env EAnomalySocket rq arg ctx s = (qe_upgrade env, s)"

text \<open>A request: the router, the guards of the route it found, the handler.\<close>

definition serve :: "process \<Rightarrow> request_env \<Rightarrow> server_request \<Rightarrow> server \<Rightarrow> nat \<times> server" where
  "serve px env rq s =
     (case px_router px (sq_method rq) (sq_path rq) of
        None \<Rightarrow> (404, s)
      | Some (template, arg) \<Rightarrow>
          (case (map_of routes (sq_method rq, template), map_of endpoints (sq_method rq, template)) of
             (Some g, Some e) \<Rightarrow>
               (case run_guard (qe_guard env) g (sq_subject rq) (sv_auth s) of
                  (Inl code, a) \<Rightarrow> (code, s\<lparr>sv_auth := a\<rparr>)
                | (Inr ctx, a) \<Rightarrow> run_endpoint px env e rq arg ctx (s\<lparr>sv_auth := a\<rparr>))
           | _ \<Rightarrow> (404, s)))"

section \<open>The process\<close>

text \<open>The steps of the running process; \<open>None\<close> is its end by an unrecovered panic.\<close>

datatype server_event =
    Http request_env server_request
  | ResultMessage string instant "row list range_order"
  | AnomalyMessage string instant
  | PruneTick instant "row list range_order"

fun server_step :: "process \<Rightarrow> server_event \<Rightarrow> server \<Rightarrow> server option" where
  "server_step px (Http env rq) s = Some (snd (serve px env rq s))"
| "server_step px (ResultMessage value now ord) s =
     map_option (\<lambda>k. s\<lparr>sv_results := k\<rparr>) (processMessage (cl_json (px_ch px)) (cl_float (px_ch px)) ord now value (sv_results s))"
| "server_step px (AnomalyMessage value now) s =
     map_option (\<lambda>k. s\<lparr>sv_anomalies := k\<rparr>) (processAnomaly (cl_json (px_ch px)) now value (sv_anomalies s))"
| "server_step px (PruneTick now ord) s =
     Some (s\<lparr>sv_results := (sv_results s)\<lparr>sk_store := pruneStale (cl_float (px_ch px)) ord now (sk_store (sv_results s))\<rparr>\<rparr>)"

text \<open>A start of the process, with what outlives it: the identity tables, the rule tables and the rules
  topic. Everything else is made afresh, the live store from ClickHouse, the rule map from MySQL.\<close>

record start_env =
  be_ch :: ch_env
  be_faults :: faults
  be_groups :: "row list range_order"
  be_index :: "row list range_order"

definition server_start :: "process \<Rightarrow> start_env \<Rightarrow> iam_db \<Rightarrow> rule_db \<Rightarrow> (string \<times> gval) list \<Rightarrow> server" where
  "server_start px env iam db log =
     (let (ch, live) = bootstrapLiveStore (px_ch px) (be_ch env) (px_hours px) (be_groups env) (be_index env)
                         (new_live_store (px_max_rows px) (px_hours px)) ch_start
      in \<lparr>sv_auth = \<lparr>as_db = iam, as_limiter = new_limiter, as_cache = Map.empty\<rparr>,
          sv_rules = loadFromMySQL (be_faults env) \<lparr>rs_mem = Map.empty, rs_mysql = db, rs_kafka = log\<rparr>,
          sv_results = \<lparr>sk_store = live, sk_sent = [], sk_delays = []\<rparr>,
          sv_anomalies = \<lparr>sk_store = the (new_anomaly_store 10000), sk_sent = [], sk_delays = []\<rparr>,
          sv_ch = ch, sv_duck = duck0\<rparr>)"

definition server_restart :: "process \<Rightarrow> start_env \<Rightarrow> server \<Rightarrow> server" where
  "server_restart px env s =
     server_start px env (as_db (sv_auth s)) (rs_mysql (sv_rules s)) (rs_kafka (sv_rules s))"

text \<open>Every state of a server that starts with the given identity tables and empty rule tables, however
  often it stops and starts again.\<close>

inductive server_reach :: "process \<Rightarrow> iam_db \<Rightarrow> server \<Rightarrow> bool" for px iam where
  First_Start: "server_reach px iam (server_start px env iam (empty_rule_db windows) [])"
| Running: "server_reach px iam s \<Longrightarrow> server_step px ev s = Some s' \<Longrightarrow> server_reach px iam s'"
| Start_Again: "server_reach px iam s \<Longrightarrow> server_reach px iam (server_restart px env s)"

end
