(* ===== verification/Server_Props.thy ===== *)
theory Server_Props
  imports Server
begin

text \<open>
  The server as a whole: what every state keeps, whatever is requested and whatever fails, and who
  can change the rules and the identity tables.
\<close>

section \<open>Routes\<close>

text \<open>Guards and handlers come from the same registrations, and each route is registered once.\<close>

lemma endpoints_routes: "map fst endpoints = map fst routes"
  by (simp add: endpoints_def routes_def)

lemma routes_distinct: "distinct (map fst routes)"
  by (simp add: routes_def)

text \<open>The permission that guards a handler, if it has one.\<close>

fun needs :: "endpoint \<Rightarrow> string option" where
  "needs ECreateRule = Some ''rules:create''"
| "needs EUpdateRule = Some ''rules:update''"
| "needs EPublishRule = Some ''rules:publish''"
| "needs ESetStatus = Some ''rules:publish''"
| "needs EDeleteRule = Some ''rules:delete''"
| "needs EListUsers = Some ''iam:manage''"
| "needs EUpdateUser = Some ''iam:manage''"
| "needs EListRoles = Some ''iam:manage''"
| "needs EAuditLog = Some ''iam:manage''"
| "needs _ = None"

fun guard_of :: "endpoint \<Rightarrow> guard" where
  "guard_of ECreateRule = Permission ''rules'' ''create''"
| "guard_of EUpdateRule = Permission ''rules'' ''update''"
| "guard_of EPublishRule = Permission ''rules'' ''publish''"
| "guard_of ESetStatus = Permission ''rules'' ''publish''"
| "guard_of EDeleteRule = Permission ''rules'' ''delete''"
| "guard_of EListUsers = Permission ''iam'' ''manage''"
| "guard_of EUpdateUser = Permission ''iam'' ''manage''"
| "guard_of EListRoles = Permission ''iam'' ''manage''"
| "guard_of EAuditLog = Permission ''iam'' ''manage''"
| "guard_of EMe = SignedIn"
| "guard_of _ = Unguarded"

lemma routes_guards: "routes = map (\<lambda>(r, e). (r, guard_of e)) endpoints"
  by (simp add: endpoints_def routes_def)

lemma route_guard:
  assumes "map_of endpoints r = Some e"
  shows "map_of routes r = Some (guard_of e)"
proof -
  have "map_of xs r = Some e \<Longrightarrow> map_of (map (\<lambda>(r, e). (r, guard_of e)) xs) r = Some (guard_of e)" for xs
    by (induction xs) auto
  with assms show ?thesis by (simp only: routes_guards)
qed

lemma guard_needs: "needs e = Some k \<Longrightarrow> \<exists>res act. guard_of e = Permission res act \<and> perm_key (res, act) = k"
  by (cases e) (auto simp: perm_key_def)

text \<open>How a request ends: no route, turned away by the guards, or served by the handler.\<close>

lemma serve_cases:
  obtains (unrouted) "serve px env rq s = (404, s)"
  | (refused) e code a where "run_guard (qe_guard env) (guard_of e) (sq_subject rq) (sv_auth s) = (Inl code, a)"
      and "serve px env rq s = (code, s\<lparr>sv_auth := a\<rparr>)"
  | (passed) template arg e ctx a where
      "px_router px (sq_method rq) (sq_path rq) = Some (template, arg)"
      and "map_of endpoints (sq_method rq, template) = Some e"
      and "run_guard (qe_guard env) (guard_of e) (sq_subject rq) (sv_auth s) = (Inr ctx, a)"
      and "serve px env rq s = run_endpoint px env e rq arg ctx (s\<lparr>sv_auth := a\<rparr>)"
proof (cases "px_router px (sq_method rq) (sq_path rq)")
  case None
  then show thesis by (intro unrouted) (simp add: serve_def)
next
  case (Some ta)
  obtain template arg where r: "px_router px (sq_method rq) (sq_path rq) = Some (template, arg)"
    using Some by (cases ta) simp
  show thesis
  proof (cases "map_of endpoints (sq_method rq, template)")
    case None
    with r show thesis by (intro unrouted) (simp add: serve_def split: option.split)
  next
    case e: (Some e)
    obtain g a where "run_guard (qe_guard env) (guard_of e) (sq_subject rq) (sv_auth s) = (g, a)" by fastforce
    with r e route_guard [OF e] refused passed show thesis by (cases g) (simp_all add: serve_def)
  qed
qed

section \<open>Who a guard lets through\<close>

text \<open>The user behind a request: the active one whose subject the request names.\<close>

definition acts_as :: "iam_db \<Rightarrow> string \<Rightarrow> int \<Rightarrow> bool" where
  "acts_as db subject uid \<longleftrightarrow>
     (\<exists>u. map_of (im_users db) uid = Some u \<and> us_subject u = trim_space subject \<and> us_status u = ''ACTIVE'')"

definition authorized :: "iam_db \<Rightarrow> string \<Rightarrow> string \<Rightarrow> int \<Rightarrow> bool" where
  "authorized db subject k uid \<longleftrightarrow>
     acts_as db subject uid \<and> (\<exists>r \<in> holders k. role_of_user db uid = Some r)"

lemma resolver_subject:
  assumes ok: "iam_ok (as_db s)" and run: "live_resolver env sub s = (Inr (uid, ''ACTIVE''), s')"
  shows "\<exists>u. map_of (im_users (as_db s')) uid = Some u \<and> us_subject u = sub \<and> us_status u = ''ACTIVE''"
proof (rule identity_cases [of "ae_cfg env" "ae_faults env" "ae_faults2 env" "ae_t0 env" sub "ae_ip env" "as_db s" "as_limiter s"], goal_cases)
  case (1 r)
  with run have r: "r = Inr (uid, ''ACTIVE'')" "as_db s' = as_db s"
    by (cases r; auto simp: live_resolver_def resolve_identity_def)+
  with 1(3) obtain u where "(uid, u) \<in> set (im_users (as_db s))" "us_subject u = sub" "us_status u = ''ACTIVE''" by blast
  with r(2) map_of_is_SomeI [OF iam_okD(1) [OF ok]] show ?case by auto
next
  case (2 r)
  with run show ?case by (auto simp: live_resolver_def resolve_identity_def)
next
  case (3 rid)
  with run next_fresh(1) [OF ok] show ?case
    by (auto simp: live_resolver_def resolve_identity_def with_user_def new_user_def map_add_def)
qed

lemma guard_subject:
  assumes ok: "iam_ok (as_db s)" and run: "run_guard env (Permission res act) header s = (Inr (CtxUser uid), s')"
  shows "acts_as (as_db s') header uid"
proof -
  from run obtain s1 where i: "identityMiddleware (Some (live_resolver env)) header s = (Inr uid, s1)"
    and q: "requirePermission (live_check env) res act (CtxUser uid) s1 = (None, s')"
    by (auto simp: run_guard_def split: prod.splits sum.splits option.splits)
  from i have "live_resolver env (trim_space header) s = (Inr (uid, ''ACTIVE''), s1)"
    by (auto simp: identityMiddleware_def Let_def split: prod.splits sum.splits identity_error.splits if_splits)
  from resolver_subject [OF ok this] have "acts_as (as_db s1) header uid" by (simp add: acts_as_def)
  moreover have "s' = snd (live_check env uid s1)"
    using q by (auto simp: requirePermission_def split: prod.splits sum.splits if_splits)
  then have "as_db s' = as_db s1" by simp
  ultimately show ?thesis by simp
qed

lemma guard_authorized:
  assumes inv: "auth_inv s" and e: "needs e = Some k"
    and run: "run_guard env (guard_of e) header s = (Inr ctx, s')"
  shows "\<exists>uid. ctx = CtxUser uid \<and> authorized (as_db s') header k uid"
proof -
  from guard_needs [OF e] obtain res act where g: "guard_of e = Permission res act" "perm_key (res, act) = k" by blast
  have c: "coherent s" "iam_ok (as_db s)" using inv by (simp_all add: auth_inv_def coherent_def)
  from run_guard_holds [OF c(1) run [unfolded g(1)]] obtain uid where
    u: "ctx = CtxUser uid" "user_holds s' uid k" unfolding g(2) by blast
  have "auth_inv s'" using run_guard_inv [OF inv, of env "guard_of e" header] run by simp
  then have "iam_ok (as_db s')" "seeded (as_db s')" by (simp_all add: auth_inv_def coherent_def)
  with u(2) have "\<exists>r \<in> holders k. role_of_user (as_db s') uid = Some r" by (simp add: user_holds_def seeded_holders)
  with guard_subject [OF c(2) run [unfolded g(1) u(1)]] u(1) show ?thesis by (auto simp: authorized_def)
qed

section \<open>What handlers touch\<close>

lemma on_frames [simp]:
  "sv_auth (snd (on_rules env req s)) = sv_auth s" "sv_rules (snd (on_rules env req s)) = snd (handle (qe_rules env) req (sv_rules s))"
  "sv_rules (snd (on_user env rq arg ctx s)) = sv_rules s" "sv_rules (snd (on_me env ctx s)) = sv_rules s"
  "sv_auth (snd (on_me env ctx s)) = snd (me (live_check (qe_handler env)) ctx (sv_auth s))"
  "sv_auth (snd (on_ch h s)) = sv_auth s" "sv_rules (snd (on_ch h s)) = sv_rules s"
  "sv_auth (snd (on_duck h' s)) = sv_auth s" "sv_rules (snd (on_duck h' s)) = sv_rules s"
  by (simp_all add: on_rules_def on_user_def on_me_def on_ch_def on_duck_def split: prod.split)

lemma on_stores [simp]:
  "sv_results (snd (on_rules env req s)) = sv_results s" "sv_results (snd (on_user env rq arg ctx s)) = sv_results s"
  "sv_results (snd (on_me env ctx s)) = sv_results s" "sv_results (snd (on_ch h s)) = sv_results s"
  "sv_results (snd (on_duck h' s)) = sv_results s"
  "sv_anomalies (snd (on_rules env req s)) = sv_anomalies s" "sv_anomalies (snd (on_user env rq arg ctx s)) = sv_anomalies s"
  "sv_anomalies (snd (on_me env ctx s)) = sv_anomalies s" "sv_anomalies (snd (on_ch h s)) = sv_anomalies s"
  "sv_anomalies (snd (on_duck h' s)) = sv_anomalies s"
  by (simp_all add: on_rules_def on_user_def on_me_def on_ch_def on_duck_def split: prod.split)

lemma on_pools [simp]:
  "sv_ch (snd (on_rules env req s)) = sv_ch s" "sv_ch (snd (on_user env rq arg ctx s)) = sv_ch s"
  "sv_ch (snd (on_me env ctx s)) = sv_ch s" "sv_ch (snd (on_duck h' s)) = sv_ch s" "sv_ch (snd (on_ch h s)) = fst (h (sv_ch s))"
  "sv_duck (snd (on_rules env req s)) = sv_duck s" "sv_duck (snd (on_user env rq arg ctx s)) = sv_duck s"
  "sv_duck (snd (on_me env ctx s)) = sv_duck s" "sv_duck (snd (on_ch h s)) = sv_duck s" "sv_duck (snd (on_duck h' s)) = fst (h' (sv_duck s))"
  by (simp_all add: on_rules_def on_user_def on_me_def on_ch_def on_duck_def split: prod.split)

text \<open>The rules are in the hands of five handlers, the users of one; the two consumers' stores of none.\<close>

definition changing :: "endpoint \<Rightarrow> bool" where
  "changing e \<longleftrightarrow> e \<in> {ECreateRule, EUpdateRule, EPublishRule, ESetStatus, EDeleteRule}"

lemma endpoint_rules: "\<not> changing e \<Longrightarrow> sv_rules (snd (run_endpoint px env e rq arg ctx s)) = sv_rules s"
  by (cases e) (simp_all add: changing_def)

lemma endpoint_handles:
  "changing e \<Longrightarrow> \<exists>req. sv_rules (snd (run_endpoint px env e rq arg ctx s)) = snd (handle (qe_rules env) req (sv_rules s))"
  unfolding changing_def by (elim insertE emptyE; simp only: run_endpoint.simps on_frames; blast)

lemma changing_needs: "changing e \<Longrightarrow> \<exists>k \<in> {''rules:create'', ''rules:update'', ''rules:publish'', ''rules:delete''}. needs e = Some k"
  by (auto simp: changing_def)

lemma endpoint_auth:
  "e \<noteq> EUpdateUser \<Longrightarrow> e \<noteq> EMe \<Longrightarrow> sv_auth (snd (run_endpoint px env e rq arg ctx s)) = sv_auth s"
  by (cases e) simp_all

lemma endpoint_users: "e \<noteq> EUpdateUser \<Longrightarrow> as_db (sv_auth (snd (run_endpoint px env e rq arg ctx s))) = as_db (sv_auth s)"
  by (cases e) simp_all

lemma endpoint_stores [simp]:
  "sv_results (snd (run_endpoint px env e rq arg ctx s)) = sv_results s"
  "sv_anomalies (snd (run_endpoint px env e rq arg ctx s)) = sv_anomalies s"
  by (cases e; simp)+

section \<open>Invariant\<close>

text \<open>The rule map with its tables, and the DuckDB engine between two requests.\<close>

definition rules_ok :: "rules_state \<Rightarrow> bool" where
  "rules_ok st \<longleftrightarrow> mem_ok (rs_mem st) \<and> rule_db_ok (rs_mysql st)"

definition engine_ok :: "process \<Rightarrow> duck \<Rightarrow> bool" where
  "engine_ok px dk \<longleftrightarrow> conn_inv (hc_s3 (hl_cfg (px_hist px))) dk \<and> \<not> dk_slot dk"

text \<open>The whole: the identity part, the rules, the two stores with their capacities, ClickHouse, DuckDB.\<close>

definition server_inv :: "process \<Rightarrow> server \<Rightarrow> bool" where
  "server_inv px s \<longleftrightarrow>
     auth_inv (sv_auth s) \<and> rules_ok (sv_rules s) \<and>
     ls_inv (cl_float (px_ch px)) (sk_store (sv_results s)) \<and> ls_max (sk_store (sv_results s)) = px_max_rows px \<and>
     an_max (sk_store (sv_anomalies s)) = 10000 \<and> length (an_events (sk_store (sv_anomalies s))) \<le> 10000 \<and>
     ch_ok (sv_ch s) \<and> engine_ok px (sv_duck s)"

text \<open>What a request does to the identity part is a sequence of the steps of \<open>auth_reach\<close>.\<close>

lemma serve_auth: "auth_reach (sv_auth s) (sv_auth (snd (serve px env rq s)))"
proof (cases rule: serve_cases [of px env rq s])
  case unrouted
  then show ?thesis by (simp add: auth_reach.Start)
next
  case (refused e code a)
  with auth_reach.Guarded [OF auth_reach.Start, of "sv_auth s" "qe_guard env" "guard_of e" "sq_subject rq"]
  show ?thesis by simp
next
  case (passed template arg e ctx a)
  have g: "auth_reach (sv_auth s) a"
    using auth_reach.Guarded [OF auth_reach.Start, of "sv_auth s" "qe_guard env" "guard_of e" "sq_subject rq"] passed(3) by simp
  show ?thesis
  proof (cases "e = EUpdateUser \<or> e = EMe")
    case False
    with g passed(4) show ?thesis by (simp add: endpoint_auth)
  next
    case True
    then show ?thesis
    proof
      assume e: "e = EMe"
      with passed(3) auth_reach.Own_Permissions [OF auth_reach.Start, of "qe_guard env" "sq_subject rq" "sv_auth s" ctx a "qe_handler env"]
      show ?thesis by (simp add: passed(4))
    next
      assume e: "e = EUpdateUser"
      obtain code db cache where u: "updateUserHandler (qe_iam env) ctx arg (Option.bind (sq_body rq) patch_of_json)
          (as_db a) (as_cache a) = (code, db, cache)" by (metis prod_cases3)
      with auth_reach.Update [OF auth_reach.Start _ u] passed(3) e show ?thesis by (simp add: passed(4) on_user_def)
    qed
  qed
qed

text \<open>Queries keep the pool in order, whatever they return.\<close>

lemma metered_ok: "ch_ok (fst r) \<Longrightarrow> ch_ok (fst (metered n r))"
  by (simp add: ch_ok_def)

lemma respond_state [simp]: "fst (respond err f r) = fst r"
  by (auto simp: respond_def split: prod.split sum.split)

lemmas query_ok = metered_ok ask_ok

lemma ch_handlers_ok:
  assumes "ch_ok st"
  shows "ch_ok (fst (readyz t env ls st))" "ch_ok (fst (aggAnalysis lib env q st))"
    "ch_ok (fst (liveResults lib env rid q st))" "ch_ok (fst (topGroupsAnalysis lib env rid q st))"
    "ch_ok (fst (groupDetailAnalysis lib env rid q st))"
proof -
  have "ch_ok (fst (isReady t env st))"
    using get_ok [OF assms, of t env] by (auto simp: isReady_def reset_ok split: prod.split sum.split ch_error.split)
  then show "ch_ok (fst (readyz t env ls st))" by (auto simp: readyz_def split: prod.split option.split)
  show "ch_ok (fst (aggAnalysis lib env q st))"
    using assms by (simp add: aggAnalysis_def getAggResults_def Let_def query_ok)
  show "ch_ok (fst (liveResults lib env rid q st))"
    using assms by (simp add: liveResults_def getLiveResults_def Let_def query_ok)
  show "ch_ok (fst (topGroupsAnalysis lib env rid q st))"
    using assms by (simp add: topGroupsAnalysis_def getTopGroups_def Let_def query_ok)
  show "ch_ok (fst (groupDetailAnalysis lib env rid q st))"
    using assms by (simp add: groupDetailAnalysis_def getGroupDetail_def Let_def query_ok)
qed

lemma leaves_engine_ok:
  "leaves_engine (hc_s3 (hl_cfg (px_hist px))) dk r \<Longrightarrow> \<not> dk_slot dk \<Longrightarrow> engine_ok px (fst r)"
  by (auto simp: leaves_engine_def engine_ok_def split: prod.splits)

lemma duck_handlers_ok:
  assumes "engine_ok px dk"
  shows "engine_ok px (fst (historicalTest (px_hist px) env body q dk))"
    "engine_ok px (fst (historicalAnalysis (px_hist px) env body q dk))"
    "engine_ok px (fst (historicalBreakdown (px_hist px) env body q dk))"
proof -
  note c = assms [unfolded engine_ok_def]
  have "engine_ok px (fst (runHistoricalAnalysis u ff (hl_cfg (px_hist px)) env dict st en dk))" for u ff dict st en
    using analysis_leaves_engine c by (intro leaves_engine_ok) auto
  moreover have "engine_ok px (fst (runHistoricalBreakdown u ff (hl_cfg (px_hist px)) env dict st en dk))" for u ff dict st en
    using breakdown_leaves_engine c by (intro leaves_engine_ok) auto
  ultimately show "engine_ok px (fst (historicalTest (px_hist px) env body q dk))"
    "engine_ok px (fst (historicalAnalysis (px_hist px) env body q dk))"
    "engine_ok px (fst (historicalBreakdown (px_hist px) env body q dk))"
    using assms
    by (simp_all add: historicalTest_def historicalAnalysis_def historicalBreakdown_def ranged_def Let_def
      split: response.split option.split)
qed

lemma endpoint_pools:
  "ch_ok (sv_ch s) \<Longrightarrow> ch_ok (sv_ch (snd (run_endpoint px env e rq arg ctx s)))"
  "engine_ok px (sv_duck s) \<Longrightarrow> engine_ok px (sv_duck (snd (run_endpoint px env e rq arg ctx s)))"
  by (cases e; simp add: ch_handlers_ok duck_handlers_ok)+

text \<open>A state component a request leaves alone or changes through its handler only.\<close>

lemma serve_keeps:
  assumes "P s" and "\<And>a. P s \<Longrightarrow> P (s\<lparr>sv_auth := a\<rparr>)"
    and "\<And>e arg ctx t. P t \<Longrightarrow> P (snd (run_endpoint px env e rq arg ctx t))"
  shows "P (snd (serve px env rq s))"
  by (cases rule: serve_cases [of px env rq s]) (simp_all add: assms)

lemma serve_stores [simp]:
  "sv_results (snd (serve px env rq s)) = sv_results s" "sv_anomalies (snd (serve px env rq s)) = sv_anomalies s"
  using serve_keeps [of "\<lambda>t. sv_results t = sv_results s" s] serve_keeps [of "\<lambda>t. sv_anomalies t = sv_anomalies s" s]
  by simp_all

lemma serve_pools:
  "ch_ok (sv_ch s) \<Longrightarrow> ch_ok (sv_ch (snd (serve px env rq s)))"
  "engine_ok px (sv_duck s) \<Longrightarrow> engine_ok px (sv_duck (snd (serve px env rq s)))"
  using serve_keeps [of "\<lambda>t. ch_ok (sv_ch t)" s] serve_keeps [of "\<lambda>t. engine_ok px (sv_duck t)" s]
  by (simp_all add: endpoint_pools)

lemma handle_rules_ok: "rules_ok st \<Longrightarrow> rules_ok (snd (handle env req st))"
  using rules_step_ok [of st "Request env req"] by (simp add: rules_ok_def)

lemma endpoint_rules_ok: "rules_ok (sv_rules s) \<Longrightarrow> rules_ok (sv_rules (snd (run_endpoint px env e rq arg ctx s)))"
  by (cases "changing e") (metis endpoint_handles handle_rules_ok, simp add: endpoint_rules)

lemma serve_rules_ok: "rules_ok (sv_rules s) \<Longrightarrow> rules_ok (sv_rules (snd (serve px env rq s)))"
  using serve_keeps [of "\<lambda>t. rules_ok (sv_rules t)" s] by (simp add: endpoint_rules_ok)

section \<open>Steps and starts\<close>

lemma message_store:
  "processMessage jdec ff ord now value k = Some k' \<Longrightarrow>
     sk_store k' = sk_store k \<or> (\<exists>row. sk_store k' = ls_add ff ord row (sk_store k))"
  by (auto simp: processMessage_def Let_def split: unmarshalled.splits)

lemma anomaly_stored:
  "processAnomaly jdec now value k = Some k' \<Longrightarrow>
     sk_store k' = sk_store k \<or> (\<exists>evt. sk_store k' = an_add evt (sk_store k))"
  by (auto simp: processAnomaly_def Let_def split: unmarshalled.splits)

lemma server_step_inv:
  assumes inv: "server_inv px s" and step: "server_step px ev s = Some s'"
  shows "server_inv px s'"
proof (cases ev)
  case (Http env rq)
  have "auth_inv (sv_auth (snd (serve px env rq s)))"
    using auth_reach_inv [OF serve_auth] inv by (simp add: server_inv_def)
  with Http step inv show ?thesis
    by (auto simp: server_inv_def serve_pools serve_rules_ok)
next
  case (ResultMessage v now ord)
  then obtain k where k: "processMessage (cl_json (px_ch px)) (cl_float (px_ch px)) ord now v (sv_results s) = Some k"
    and s': "s' = s\<lparr>sv_results := k\<rparr>" using step by auto
  from message_store [OF k] have "ls_inv (cl_float (px_ch px)) (sk_store k) \<and> ls_max (sk_store k) = px_max_rows px"
    using inv by (auto simp: server_inv_def ls_add_inv_evicted(1) ls_add_max)
  with inv s' show ?thesis by (simp add: server_inv_def)
next
  case (AnomalyMessage v now)
  then obtain k where k: "processAnomaly (cl_json (px_ch px)) now v (sv_anomalies s) = Some k"
    and s': "s' = s\<lparr>sv_anomalies := k\<rparr>" using step by auto
  from anomaly_stored [OF k] have "an_max (sk_store k) = 10000 \<and> length (an_events (sk_store k)) \<le> 10000"
    using inv anomalies.put_bound [of "sk_store (sv_anomalies s)"]
    by (auto simp: server_inv_def anomalies.cap_put)
  with inv s' show ?thesis by (simp add: server_inv_def)
next
  case (PruneTick now ord)
  with step inv show ?thesis by (auto simp: server_inv_def pruneStale_correct)
qed

lemma server_start_inv:
  assumes "iam_ok iam" and "seeded iam" and "1 \<le> active_supers iam" and "rule_db_ok db"
  shows "server_inv px (server_start px env iam db log)"
proof -
  obtain ch live where b: "bootstrapLiveStore (px_ch px) (be_ch env) (px_hours px) (be_groups env) (be_index env)
      (new_live_store (px_max_rows px) (px_hours px)) ch_start = (ch, live)" by fastforce
  obtain st r where m: "getLiveResultsMulti (px_ch px) (be_ch env) [] (px_hours px) ch_start = (st, r)" by fastforce
  have "ls_inv (cl_float (px_ch px)) live \<and> ls_max live = px_max_rows px"
    using b m by (cases r) (auto simp: bootstrapLiveStore_def ls_bootstrap_correct(1,5))
  moreover have "ch_ok ch"
  proof -
    have "ch_ok ch_start" by (simp add: ch_ok_def ch_start_def)
    then have "ch_ok (fst (getLiveResultsMulti (px_ch px) (be_ch env) [] (px_hours px) ch_start))"
      by (simp add: getLiveResultsMulti_def query_ok)
    with b m show ?thesis by (cases r) (auto simp: bootstrapLiveStore_def)
  qed
  moreover have "rules_ok (loadFromMySQL (be_faults env) \<lparr>rs_mem = Map.empty, rs_mysql = db, rs_kafka = log\<rparr>)"
    using restart_mem_ok [of "be_faults env" "\<lparr>rs_mem = Map.empty, rs_mysql = db, rs_kafka = log\<rparr>"]
      restart_frame(1) [of "be_faults env" "\<lparr>rs_mem = Map.empty, rs_mysql = db, rs_kafka = log\<rparr>"] assms(4)
    by (simp add: rules_ok_def restart_def)
  moreover have "engine_ok px duck0" by (simp add: engine_ok_def conn_inv_def duck0_def handles_of_def)
  moreover have "auth_inv \<lparr>as_db = iam, as_limiter = new_limiter, as_cache = Map.empty\<rparr>"
    using assms(1-3) by (simp add: auth_inv_def coherent_def seeded_def)
  ultimately show ?thesis
    by (simp add: server_start_def b server_inv_def new_anomaly_store_def)
qed

lemma server_reach_inv:
  assumes "server_reach px iam s" and "iam_ok iam" and "seeded iam" and "1 \<le> active_supers iam"
  shows "server_inv px s"
  using assms
proof (induction rule: server_reach.induct)
  case (First_Start env windows)
  then show ?case by (intro server_start_inv rule_db_ok_empty)
next
  case (Running s ev s')
  then show ?case using server_step_inv by blast
next
  case (Start_Again s env)
  then have "server_inv px s" by blast
  then show ?case
    unfolding server_restart_def server_inv_def auth_inv_def coherent_def rules_ok_def
    by (intro server_start_inv [unfolded server_inv_def auth_inv_def coherent_def rules_ok_def]) auto
qed

section \<open>Who changes what\<close>

text \<open>Tables that others were added to: nobody who was there is changed, and whoever is new is an analyst
  with the given subject.\<close>

definition only_provisioned :: "string \<Rightarrow> iam_db \<Rightarrow> iam_db \<Rightarrow> bool" where
  "only_provisioned sub db db' \<longleftrightarrow>
     (\<forall>x. (if map_of (im_users db) x = None
          then (\<forall>u. map_of (im_users db') x = Some u \<longrightarrow>
                  us_subject u = sub \<and> role_of_user db' x = Some ''READ_ONLY_ANALYST'')
          else map_of (im_users db') x = map_of (im_users db) x \<and> role_of_user db' x = role_of_user db x))"

lemma only_provisioned_refl [simp]: "only_provisioned sub db db"
  by (simp add: only_provisioned_def)

lemma only_provisioned_same:
  "only_provisioned sub db db' \<Longrightarrow> map_of (im_users db) x \<noteq> None \<Longrightarrow>
     map_of (im_users db') x = map_of (im_users db) x \<and> role_of_user db' x = role_of_user db x"
  unfolding only_provisioned_def by (drule spec [of _ x]) simp

lemma only_provisioned_new:
  "only_provisioned sub db db' \<Longrightarrow> map_of (im_users db) x = None \<Longrightarrow> map_of (im_users db') x = Some u \<Longrightarrow>
     us_subject u = sub \<and> role_of_user db' x = Some ''READ_ONLY_ANALYST''"
  unfolding only_provisioned_def by (drule spec [of _ x]) simp

lemma resolver_provisions:
  assumes ok: "iam_ok (as_db s)"
  shows "only_provisioned sub (as_db s) (as_db (snd (live_resolver env sub s)))"
proof (rule identity_cases [of "ae_cfg env" "ae_faults env" "ae_faults2 env" "ae_t0 env" sub "ae_ip env" "as_db s" "as_limiter s"], goal_cases)
  case (3 rid)
  let ?db = "as_db s"
  have fresh: "map_of (im_users ?db) (im_next ?db) = None" by (rule next_fresh(1) [OF ok])
  have users: "map_of (im_users (with_user sub rid ?db)) x =
      (if x = im_next ?db then Some (new_user sub) else map_of (im_users ?db) x)" for x
    using fresh by (auto simp: with_user_def map_add_def split: option.split)
  have "only_provisioned sub ?db (with_user sub rid ?db)"
    using fresh by (auto simp: only_provisioned_def users role_of_with_user [OF ok 3(3)] new_user_def)
  then show ?case using 3(1) by (simp add: live_resolver_def only_provisioned_def)
qed (simp_all add: live_resolver_def)

lemma guard_provisions:
  "iam_ok (as_db s) \<Longrightarrow> only_provisioned (trim_space header) (as_db s) (as_db (snd (run_guard env g header s)))"
  using run_guard_db [of env g header s] resolver_provisions [of s "trim_space header" env] by auto

lemma update_not_self:
  "updateUser flt actor target patch db cache = (Inr v, db', cache') \<Longrightarrow> actor \<noteq> target"
  by (auto simp: updateUser_def update_user_check_def split: sum.splits prod.splits if_splits)

lemma update_target:
  "updateUser flt actor target patch db cache = (Inr v, db', cache') \<Longrightarrow> \<exists>t. map_of (im_users db) target = Some t"
  by (auto simp: updateUser_def update_user_check_def getAdminUserRow_def split: sum.splits prod.splits if_splits option.splits)

lemma subject_unique:
  assumes ok: "iam_ok db" and "map_of (im_users db) x = Some u" and "map_of (im_users db) y = Some v"
    and "us_subject u = us_subject v"
  shows "x = y"
proof -
  have "inj_on (us_subject \<circ> snd) (set (im_users db))" using iam_okD(2) [OF ok] by (simp add: distinct_map)
  from inj_onD [OF this, of "(x, u)" "(y, v)"] assms(2-4) show ?thesis by (auto dest: map_of_SomeD)
qed

text \<open>Refused and unguarded requests change nobody but by provisioning; a change of a user is by another,
  authorized one.\<close>

lemma serve_users:
  assumes inv: "auth_inv (sv_auth s)" and fin: "s' = snd (serve px env rq s)"
    and was: "map_of (im_users (as_db (sv_auth s))) x \<noteq> None"
    and changed: "map_of (im_users (as_db (sv_auth s'))) x \<noteq> map_of (im_users (as_db (sv_auth s))) x \<or>
      role_of_user (as_db (sv_auth s')) x \<noteq> role_of_user (as_db (sv_auth s)) x"
  shows "\<exists>uid. uid \<noteq> x \<and> authorized (as_db (sv_auth s')) (sq_subject rq) ''iam:manage'' uid"
proof -
  have ok: "iam_ok (as_db (sv_auth s))" using inv by (simp add: auth_inv_def coherent_def)
  have same: "\<not> only_provisioned sub (as_db (sv_auth s)) (as_db (sv_auth s'))" for sub
    using only_provisioned_same [OF _ was] changed by blast
  note prov = guard_provisions [OF ok, of "sq_subject rq" "qe_guard env"]
  show ?thesis
  proof (cases rule: serve_cases [of px env rq s])
    case unrouted
    with same fin show ?thesis by simp
  next
    case (refused e code a)
    with same fin prov [of "guard_of e"] show ?thesis by simp
  next
    case (passed template arg e ctx a)
    have pa: "only_provisioned (trim_space (sq_subject rq)) (as_db (sv_auth s)) (as_db a)"
      using prov [of "guard_of e"] passed(3) by simp
    have a: "auth_inv a" using run_guard_inv [OF inv, of "qe_guard env" "guard_of e" "sq_subject rq"] passed(3) by simp
    have "e = EUpdateUser"
    proof (rule ccontr)
      assume "e \<noteq> EUpdateUser"
      from endpoint_users [OF this] have "as_db (sv_auth s') = as_db a" by (simp add: fin passed(4))
      with same [of "trim_space (sq_subject rq)"] pa show False by simp
    qed
    obtain code db cache where u: "updateUserHandler (qe_iam env) ctx arg (Option.bind (sq_body rq) patch_of_json)
        (as_db a) (as_cache a) = (code, db, cache)" by (metis prod_cases3)
    have db: "as_db (sv_auth s') = db"
      using fin passed(4) u \<open>e = EUpdateUser\<close> by (simp add: on_user_def)
    have k: "needs EUpdateUser = Some ''iam:manage''" by simp
    from guard_authorized [OF inv k passed(3) [unfolded \<open>e = EUpdateUser\<close>]] obtain uid where
      uid: "ctx = CtxUser uid" "authorized (as_db a) (sq_subject rq) ''iam:manage'' uid" by blast
    from handler_cases [OF u] same pa db obtain target patch v where
      up: "updateUser (qe_iam env) uid target patch (as_db a) (as_cache a) = (Inr v, db, cache)"
      using uid(1) by auto
    have ne: "uid \<noteq> target" by (rule update_not_self [OF up])
    have ok_a: "iam_ok (as_db a)" using a by (simp add: auth_inv_def coherent_def)
    note T = update_tables(6) [OF ok_a up]
    have "x = target"
      using T [of x] only_provisioned_same [OF pa was] changed db by metis
    moreover have "authorized db (sq_subject rq) ''iam:manage'' uid"
      using uid(2) T [OF ne] by (simp add: authorized_def acts_as_def)
    ultimately show ?thesis using ne db by blast
  qed
qed

text \<open>A user that appears is the one who sent the request.\<close>

lemma serve_new_users:
  assumes inv: "auth_inv (sv_auth s)" and fin: "s' = snd (serve px env rq s)"
    and was: "map_of (im_users (as_db (sv_auth s))) x = None"
    and new: "map_of (im_users (as_db (sv_auth s'))) x = Some u"
  shows "us_subject u = trim_space (sq_subject rq) \<and> role_of_user (as_db (sv_auth s')) x = Some ''READ_ONLY_ANALYST''"
proof -
  have ok: "iam_ok (as_db (sv_auth s))" using inv by (simp add: auth_inv_def coherent_def)
  note prov = guard_provisions [OF ok, of "sq_subject rq" "qe_guard env"]
  have shown: ?thesis if "only_provisioned (trim_space (sq_subject rq)) (as_db (sv_auth s)) (as_db (sv_auth s'))"
    using only_provisioned_new [OF that was new] .
  show ?thesis
  proof (cases rule: serve_cases [of px env rq s])
    case unrouted
    with shown fin show ?thesis by simp
  next
    case (refused e code a)
    with shown fin prov [of "guard_of e"] show ?thesis by simp
  next
    case (passed template arg e ctx a)
    have pa: "only_provisioned (trim_space (sq_subject rq)) (as_db (sv_auth s)) (as_db a)"
      using prov [of "guard_of e"] passed(3) by simp
    have ok_a: "iam_ok (as_db a)"
      using run_guard_inv [OF inv, of "qe_guard env" "guard_of e" "sq_subject rq"] passed(3) by (simp add: auth_inv_def coherent_def)
    show ?thesis
    proof (cases "as_db (sv_auth s') = as_db a")
      case True
      with shown pa show ?thesis by simp
    next
      case False
      then have e: "e = EUpdateUser"
        using endpoint_users [of e px env rq arg ctx "s\<lparr>sv_auth := a\<rparr>"] by (auto simp: fin passed(4))
      obtain code db cache where uh: "updateUserHandler (qe_iam env) ctx arg (Option.bind (sq_body rq) patch_of_json)
          (as_db a) (as_cache a) = (code, db, cache)" by (metis prod_cases3)
      have db: "as_db (sv_auth s') = db" using fin passed(4) uh e by (simp add: on_user_def)
      have k: "needs EUpdateUser = Some ''iam:manage''" by simp
      from guard_authorized [OF inv k passed(3) [unfolded e]] obtain uid where
        uid: "ctx = CtxUser uid" "authorized (as_db a) (sq_subject rq) ''iam:manage'' uid" by blast
      from handler_cases [OF uh] False db obtain target patch v where
        up: "updateUser (qe_iam env) uid target patch (as_db a) (as_cache a) = (Inr v, db, cache)"
        using uid(1) by auto
      obtain t where t: "map_of (im_users (as_db a)) target = Some t" using update_target [OF up] by blast
      have "x \<noteq> target"
      proof
        assume "x = target"
        with only_provisioned_new [OF pa was] t have "us_subject t = trim_space (sq_subject rq)" by blast
        moreover obtain v where v: "map_of (im_users (as_db a)) uid = Some v" "us_subject v = trim_space (sq_subject rq)"
          using uid(2) unfolding authorized_def acts_as_def by blast
        ultimately have "target = uid" using subject_unique [OF ok_a t v(1)] by simp
        with update_not_self [OF up] show False by simp
      qed
      from update_tables(6) [OF ok_a up this] only_provisioned_new [OF pa was] new db show ?thesis by simp
    qed
  qed
qed

text \<open>The rules, in the map, in MySQL and on the topic.\<close>

lemma serve_rules:
  assumes inv: "auth_inv (sv_auth s)" and fin: "s' = snd (serve px env rq s)" and changed: "sv_rules s' \<noteq> sv_rules s"
    and through: "\<And>e arg ctx t. sv_rules t = sv_rules s \<Longrightarrow> sv_rules s' = sv_rules (snd (run_endpoint px env e rq arg ctx t)) \<Longrightarrow>
      \<exists>k \<in> K. needs e = Some k"
  shows "\<exists>uid. \<exists>k \<in> K. authorized (as_db (sv_auth s')) (sq_subject rq) k uid"
proof (cases rule: serve_cases [of px env rq s])
  case (passed template arg e ctx a)
  have "changing e" using changed fin passed(4) endpoint_rules [of e px env rq arg ctx "s\<lparr>sv_auth := a\<rparr>"] by auto
  then have "e \<noteq> EUpdateUser" by (auto simp: changing_def)
  from endpoint_users [OF this] have db: "as_db (sv_auth s') = as_db a" by (simp add: fin passed(4))
  from through [of "s\<lparr>sv_auth := a\<rparr>" e arg ctx] fin passed(4) obtain k where k: "k \<in> K" "needs e = Some k" by auto
  from guard_authorized [OF inv k(2) passed(3)] obtain uid where
    uid: "authorized (as_db a) (sq_subject rq) k uid" by blast
  with db have "authorized (as_db (sv_auth s')) (sq_subject rq) k uid" by simp
  with k(1) show ?thesis by (intro exI [of _ uid] bexI [of _ k])
qed (use fin changed in simp_all)

text \<open>Only three handlers send messages, only one takes a rule out of the map.\<close>

lemma create_silent: "rs_kafka (snd (createRule env body st)) = rs_kafka st"
  "rs_mem st rid \<noteq> None \<Longrightarrow> rs_mem (snd (createRule env body st)) rid \<noteq> None"
  by (cases rule: createRule_cases [of env body st]; simp)+

lemma update_silent: "rs_kafka (snd (updateRule env i body st)) = rs_kafka st"
  "rs_mem st rid \<noteq> None \<Longrightarrow> rs_mem (snd (updateRule env i body st)) rid \<noteq> None"
  by (cases rule: updateRule_cases [of env i body st]; simp)+

lemma activate_keeps: "mem_ok (rs_mem st) \<Longrightarrow> rs_mem st rid \<noteq> None \<Longrightarrow> rs_mem (snd (activate env i s p f k st)) rid \<noteq> None"
  by (cases rule: activate_cases [of st i env s p f k]) simp_all

lemma status_keeps: "mem_ok (rs_mem st) \<Longrightarrow> rs_mem st rid \<noteq> None \<Longrightarrow> rs_mem (snd (updateRuleStatus env i body st)) rid \<noteq> None"
  by (cases rule: updateRuleStatus_cases [of env i body st]) (simp_all add: activate_keeps)

lemma endpoint_sends:
  "rs_kafka (sv_rules (snd (run_endpoint px env e rq arg ctx s))) \<noteq> rs_kafka (sv_rules s) \<Longrightarrow>
     e \<in> {EPublishRule, ESetStatus, EDeleteRule}"
  by (cases e) (simp_all add: create_silent update_silent)

lemma endpoint_removes:
  "mem_ok (rs_mem (sv_rules s)) \<Longrightarrow> rs_mem (sv_rules s) rid \<noteq> None \<Longrightarrow>
     rs_mem (sv_rules (snd (run_endpoint px env e rq arg ctx s))) rid = None \<Longrightarrow> e = EDeleteRule"
  by (cases e) (simp_all add: create_silent update_silent publishRuleHandler_def activate_keeps status_keeps)

section \<open>Properties\<close>

text \<open>C4. From the seeded identity tables on, whatever is requested in whatever order, whatever Kafka
  delivers, the databases answer or fail to, and however often the process stops and starts again:
  the whole state stays consistent. An active super admin remains and the permission cache agrees with
  the tables, the rule map and tables are consistent, the live store is indexed correctly, the anomaly
  buffer is bounded, the ClickHouse pool in use is open, DuckDB is configured and free. Nothing but a
  Kafka message that is the document \<open>null\<close> ends the process.\<close>

theorem server_stays_consistent:
  assumes "server_reach px iam s" and "iam_ok iam" and "seeded iam" and "1 \<le> active_supers iam"
  shows "1 \<le> active_supers (as_db (sv_auth s)) \<and> coherent (sv_auth s) \<and>
    mem_ok (rs_mem (sv_rules s)) \<and> rule_db_ok (rs_mysql (sv_rules s)) \<and>
    ls_inv (cl_float (px_ch px)) (sk_store (sv_results s)) \<and>
    length (an_events (sk_store (sv_anomalies s))) \<le> 10000 \<and>
    ch_ok (sv_ch s) \<and> conn_inv (hc_s3 (hl_cfg (px_hist px))) (sv_duck s) \<and> \<not> dk_slot (sv_duck s) \<and>
    (server_step px ev s = None \<longleftrightarrow>
      (case ev of ResultMessage v now ord \<Rightarrow> unmarshal_map (cl_json (px_ch px)) v = NilMap
       | AnomalyMessage v now \<Rightarrow> unmarshal_map (cl_json (px_ch px)) v = NilMap | _ \<Rightarrow> False))"
proof -
  have "server_step px ev s = None \<longleftrightarrow>
      (case ev of ResultMessage v now ord \<Rightarrow> unmarshal_map (cl_json (px_ch px)) v = NilMap
       | AnomalyMessage v now \<Rightarrow> unmarshal_map (cl_json (px_ch px)) v = NilMap | _ \<Rightarrow> False)"
    by (cases ev) (auto simp: processMessage_def processAnomaly_def Let_def split: unmarshalled.splits)
  with server_reach_inv [OF assms] show ?thesis
    unfolding server_inv_def auth_inv_def rules_ok_def engine_ok_def by blast
qed

definition demo_process :: process where
  "demo_process = \<lparr>px_router = (\<lambda>m p. if m = ''POST'' \<and> p = ''/rules'' then Some (''/rules'', []) else None),
     px_ch = demo_lib, px_hist = \<lparr>hl_unicode = ascii_unicode, hl_float = (\<lambda>_. []), hl_cfg = cfg0\<rparr>,
     px_max_rows = 10, px_hours = 1\<rparr>"

definition demo_server :: server where
  "demo_server = server_start demo_process
     \<lparr>be_ch = down, be_faults = no_faults, be_groups = sorted_order, be_index = sorted_order\<rparr> two_roots (empty_rule_db True) []"

lemma demo_server_parts: "sv_auth demo_server = demo_auth" "sv_rules demo_server = new_rules_state True"
proof -
  have l: "loadActiveRules no_faults (empty_rule_db True) = Inr Map.empty"
    by (simp add: loadActiveRules_def db_exec_def and_then_def empty_rule_db_def)
  show "sv_auth demo_server = demo_auth" "sv_rules demo_server = new_rules_state True"
    unfolding demo_server_def server_start_def Let_def loadFromMySQL_def new_rules_state_def
    by (simp_all add: l split: prod.split)
qed

lemma demo_server_reach: "server_reach demo_process two_roots demo_server"
  unfolding demo_server_def by (rule First_Start)

lemma demo_iam: "iam_ok two_roots" "seeded two_roots" "1 \<le> active_supers two_roots"
  using demo_auth_inv by (simp_all add: auth_inv_def coherent_def)

theorem server_stays_consistent_witness:
  "rule_db_ok (rs_mysql (sv_rules demo_server)) \<and> \<not> dk_slot (sv_duck demo_server)"
  using server_stays_consistent [OF demo_server_reach demo_iam] by blast

definition demo_request :: server_request where
  "demo_request = \<lparr>sq_method = ''POST'', sq_path = ''/rules'', sq_subject = ''root'', sq_params = Map.empty,
     sq_body = Some (rule_json demo_rule)\<rparr>"

definition demo_request_env :: request_env where
  "demo_request_env = \<lparr>qe_guard = demo_auth_env, qe_handler = demo_auth_env, qe_iam = iam_up, qe_rules = demo_env,
     qe_ch = down, qe_hist = quiet_env, qe_my = demo_my, qe_pool = my_start, qe_ws = newWSManager,
     qe_order = sorted_order, qe_descr = (\<lambda>_. []), qe_upgrade = 101\<rparr>"

text \<open>C2. In every such run, while the process runs, the rules change only through a request whose
  subject is an active user with a role that holds one of the four rule permissions; messages reach the topic
  of the stream processor only with the permission to publish or to delete, and a rule leaves the
  map only with the permission to delete. The row and the role of a user change only through a
  request of another, active super admin, and a user that appears is the request's own subject, as a
  read-only analyst. No other request, no message and no tick changes any of them.\<close>

theorem changes_need_authority:
  assumes "server_reach px iam s" and "iam_ok iam" and "seeded iam" and "1 \<le> active_supers iam"
    and "server_step px ev s = Some s'"
  shows "(sv_rules s' \<noteq> sv_rules s \<longrightarrow> (\<exists>env rq uid. ev = Http env rq \<and>
        (\<exists>k \<in> {''rules:create'', ''rules:update'', ''rules:publish'', ''rules:delete''}.
          authorized (as_db (sv_auth s')) (sq_subject rq) k uid))) \<and>
    (rs_kafka (sv_rules s') \<noteq> rs_kafka (sv_rules s) \<longrightarrow> (\<exists>env rq uid. ev = Http env rq \<and>
        (\<exists>k \<in> {''rules:publish'', ''rules:delete''}. authorized (as_db (sv_auth s')) (sq_subject rq) k uid))) \<and>
    (rs_mem (sv_rules s) rid \<noteq> None \<and> rs_mem (sv_rules s') rid = None \<longrightarrow> (\<exists>env rq uid. ev = Http env rq \<and>
        authorized (as_db (sv_auth s')) (sq_subject rq) ''rules:delete'' uid)) \<and>
    (map_of (im_users (as_db (sv_auth s))) x \<noteq> None \<and>
       (map_of (im_users (as_db (sv_auth s'))) x \<noteq> map_of (im_users (as_db (sv_auth s))) x \<or>
        role_of_user (as_db (sv_auth s')) x \<noteq> role_of_user (as_db (sv_auth s)) x) \<longrightarrow>
      (\<exists>env rq uid. ev = Http env rq \<and> uid \<noteq> x \<and>
        authorized (as_db (sv_auth s')) (sq_subject rq) ''iam:manage'' uid)) \<and>
    (map_of (im_users (as_db (sv_auth s))) x = None \<and> map_of (im_users (as_db (sv_auth s'))) x = Some u \<longrightarrow>
      (\<exists>env rq. ev = Http env rq \<and> us_subject u = trim_space (sq_subject rq) \<and>
        role_of_user (as_db (sv_auth s')) x = Some ''READ_ONLY_ANALYST''))"
proof -
  have inv: "auth_inv (sv_auth s)" and mem: "mem_ok (rs_mem (sv_rules s))"
    using server_reach_inv [OF assms(1-4)] by (simp_all add: server_inv_def rules_ok_def)
  show ?thesis
  proof (cases ev)
    case (Http env rq)
    then have s': "s' = snd (serve px env rq s)" using assms(5) by simp
    note serve = serve_rules [OF inv s']
    have r: "\<exists>uid. \<exists>k \<in> {''rules:create'', ''rules:update'', ''rules:publish'', ''rules:delete''}.
        authorized (as_db (sv_auth s')) (sq_subject rq) k uid" if "sv_rules s' \<noteq> sv_rules s"
      using that endpoint_rules by (intro serve changing_needs) metis+
    have m: "\<exists>uid. \<exists>k \<in> {''rules:publish'', ''rules:delete''}. authorized (as_db (sv_auth s')) (sq_subject rq) k uid"
      if "rs_kafka (sv_rules s') \<noteq> rs_kafka (sv_rules s)"
    proof (rule serve)
      show "\<exists>k \<in> {''rules:publish'', ''rules:delete''}. needs e = Some k"
        if "sv_rules t = sv_rules s" "sv_rules s' = sv_rules (snd (run_endpoint px env e rq arg ctx t))" for e arg ctx t
        using endpoint_sends [of px env e rq arg ctx t] that \<open>rs_kafka (sv_rules s') \<noteq> _\<close> by auto
    qed (use that in auto)
    have d: "\<exists>uid. \<exists>k \<in> {''rules:delete''}. authorized (as_db (sv_auth s')) (sq_subject rq) k uid"
      if gone: "rs_mem (sv_rules s) rid \<noteq> None" "rs_mem (sv_rules s') rid = None"
    proof (rule serve)
      show "\<exists>k \<in> {''rules:delete''}. needs e = Some k"
        if "sv_rules t = sv_rules s" "sv_rules s' = sv_rules (snd (run_endpoint px env e rq arg ctx t))" for e arg ctx t
        using endpoint_removes [of t rid px env e rq arg ctx] that gone mem by simp
    qed (use gone in auto)
    note c = serve_users [OF inv s', of x] and n = serve_new_users [OF inv s', of x u]
    show ?thesis
      unfolding Http by (intro conjI impI) (use r in blast, use m in blast, use d in blast, use c in blast, use n in blast)
  qed (use assms(5) in auto)
qed

lemma demo_serve:
  "rs_mem (sv_rules (snd (serve demo_process demo_request_env demo_request demo_server))) = [''R1'' \<mapsto> draft_record demo_rule]"
proof -
  have "fst (run_guard demo_auth_env (Permission ''rules'' ''create'') ''root'' demo_auth) = Inr (CtxUser 1)"
    by (rule demo_root_guard) (simp add: holders_def perm_key_def)
  then obtain a where "run_guard demo_auth_env (Permission ''rules'' ''create'') ''root'' demo_auth = (Inr (CtxUser 1), a)"
    by (metis prod.collapse)
  moreover have "map_of routes (''POST'', ''/rules'') = Some (Permission ''rules'' ''create'')"
    "map_of endpoints (''POST'', ''/rules'') = Some ECreateRule"
    by (simp_all add: routes_def endpoints_def)
  moreover have "createRule demo_env (Some (rule_json demo_rule)) (new_rules_state True) =
      (Reply 200 (rule_json demo_rule),
       \<lparr>rs_mem = [''R1'' \<mapsto> draft_record demo_rule],
        rs_mysql = saved_db (\<lambda>s. s) True demo_rule 1 (empty_rule_db True), rs_kafka = []\<rparr>)"
    using demo_create by (simp only: RulesHandler.handle.simps)
  ultimately show ?thesis
    by (simp add: serve_def demo_process_def demo_request_def demo_request_env_def demo_server_parts on_rules_def)
qed

theorem changes_need_authority_witness:
  "\<exists>s' uid. server_step demo_process (Http demo_request_env demo_request) demo_server = Some s' \<and>
    (\<exists>k \<in> {''rules:create'', ''rules:update'', ''rules:publish'', ''rules:delete''}. authorized (as_db (sv_auth s')) ''root'' k uid)"
proof -
  let ?s = "snd (serve demo_process demo_request_env demo_request demo_server)"
  have step: "server_step demo_process (Http demo_request_env demo_request) demo_server = Some ?s" by simp
  have "rs_mem (sv_rules ?s) \<noteq> rs_mem (sv_rules demo_server)"
    by (simp add: demo_serve demo_server_parts new_rules_state_def)
  then have "sv_rules ?s \<noteq> sv_rules demo_server" by metis
  with changes_need_authority [OF demo_server_reach demo_iam step, THEN conjunct1]
  obtain env rq uid where e: "Http demo_request_env demo_request = Http env rq"
    and k: "\<exists>k \<in> {''rules:create'', ''rules:update'', ''rules:publish'', ''rules:delete''}. authorized (as_db (sv_auth ?s)) (sq_subject rq) k uid"
    by blast
  from e have "sq_subject rq = ''root''" by (auto simp: demo_request_def)
  with k have "\<exists>k \<in> {''rules:create'', ''rules:update'', ''rules:publish'', ''rules:delete''}. authorized (as_db (sv_auth ?s)) ''root'' k uid"
    by (simp only:)
  with step show ?thesis by (intro exI conjI)
qed

end
