(* ===== verification/Metrics.thy ===== *)
theory Metrics
  imports Complex_Main Platform HttpMetrics Server_Props
begin

text \<open>
  \<open>internal/metrics/metrics.go\<close> and the places that feed it: the collectors of the registry, their
  registration at the start, the label sets each event of the program touches, and the values read when
  the registry is scraped. The Prometheus client is a parameter: its \<open>Register\<close>, its default
  buckets, the names of its runtime collectors.
\<close>

section \<open>Collectors\<close>

datatype collector_kind = CounterKind | GaugeKind | HistogramKind "rat list"

record collector =
  mx_name :: string
  mx_kind :: collector_kind
  mx_labels :: "string list"

definition counter :: "string \<Rightarrow> string list \<Rightarrow> collector" where
  "counter n ls = \<lparr>mx_name = n, mx_kind = CounterKind, mx_labels = ls\<rparr>"

definition gauge :: "string \<Rightarrow> string list \<Rightarrow> collector" where
  "gauge n ls = \<lparr>mx_name = n, mx_kind = GaugeKind, mx_labels = ls\<rparr>"

definition histogram :: "string \<Rightarrow> rat list \<Rightarrow> string list \<Rightarrow> collector" where
  "histogram n bs ls = \<lparr>mx_name = n, mx_kind = HistogramKind bs, mx_labels = ls\<rparr>"

definition wideBuckets :: "rat list" where
  "wideBuckets = [5/1000, 1/100, 25/1000, 5/100, 1/10, 25/100, 5/10, 1, 25/10, 5, 10, 30, 60, 120, 300, 600, 900]"

definition httpRequestsTotal :: collector where
  "httpRequestsTotal = counter ''http_requests_total'' [''method'', ''route'', ''status'']"

definition httpRequestDuration :: collector where
  "httpRequestDuration = histogram ''http_request_duration_seconds'' wideBuckets [''method'', ''route'']"

definition kafkaMessagesConsumedTotal :: collector where
  "kafkaMessagesConsumedTotal = counter ''kafka_messages_consumed_total'' [''topic'']"

definition kafkaConsumerLag :: collector where
  "kafkaConsumerLag = gauge ''kafka_consumer_lag'' [''topic'', ''consumer_group'']"

definition webSocketActiveConnections :: collector where
  "webSocketActiveConnections = gauge ''websocket_active_connections'' [''stream'']"

text \<open>\<open>dflt\<close> are the default buckets of the client library.\<close>

definition webSocketBroadcastDuration :: "rat list \<Rightarrow> collector" where
  "webSocketBroadcastDuration dflt = histogram ''websocket_broadcast_duration_seconds'' dflt [''stream'']"

definition webSocketDroppedTotal :: collector where
  "webSocketDroppedTotal = counter ''websocket_dropped_messages_total'' [''stream'', ''reason'']"

definition webSocketHeartbeatSkippedTotal :: collector where
  "webSocketHeartbeatSkippedTotal = counter ''websocket_heartbeat_skipped_total'' [''stream'']"

definition mySQLOptionalTableMissing :: collector where
  "mySQLOptionalTableMissing = gauge ''mysql_optional_table_missing'' [''table'']"

definition clickHouseQueryDuration :: "rat list \<Rightarrow> collector" where
  "clickHouseQueryDuration dflt = histogram ''clickhouse_query_duration_seconds'' dflt [''query_type'']"

definition clickHouseErrorsTotal :: collector where
  "clickHouseErrorsTotal = counter ''clickhouse_errors_total'' [''query_type'', ''error_class'']"

definition duckDBQueryDuration :: collector where
  "duckDBQueryDuration = histogram ''duckdb_historical_query_duration_seconds'' wideBuckets [''query_type'']"

definition duckDBErrorsTotal :: collector where
  "duckDBErrorsTotal = counter ''duckdb_errors_total'' [''query_type'', ''error_class'']"

definition mySQLQueryDuration :: "rat list \<Rightarrow> collector" where
  "mySQLQueryDuration dflt = histogram ''mysql_query_duration_seconds'' dflt [''operation'']"

definition rbacCacheHitsTotal :: collector where
  "rbacCacheHitsTotal = counter ''rbac_permission_cache_hits_total'' []"

definition rbacCacheMissesTotal :: collector where
  "rbacCacheMissesTotal = counter ''rbac_permission_cache_misses_total'' []"

definition rbacResolutionDuration :: "rat list \<Rightarrow> collector" where
  "rbacResolutionDuration dflt = histogram ''rbac_permission_resolution_duration_seconds'' dflt []"

definition iamJITProvisionedUsersTotal :: collector where
  "iamJITProvisionedUsersTotal = counter ''iam_jit_provisioned_users_total'' []"

definition iamJITProvisionRateLimitedTotal :: collector where
  "iamJITProvisionRateLimitedTotal = counter ''iam_jit_provision_rate_limited_total'' []"

definition iamAdminMutationsTotal :: collector where
  "iamAdminMutationsTotal = counter ''iam_admin_mutations_total'' [''action'', ''result'']"

definition rbacCacheInvalidationsTotal :: collector where
  "rbacCacheInvalidationsTotal = counter ''rbac_permission_cache_invalidations_total'' []"

definition backendConsumeDelay :: "rat list \<Rightarrow> collector" where
  "backendConsumeDelay dflt = histogram ''velocity_backend_consume_delay_seconds'' dflt [''topic'']"

section \<open>Registration\<close>

text \<open>What \<open>init\<close> registers after the runtime collectors, and what \<open>main\<close> adds.\<close>

definition initCollectors :: "rat list \<Rightarrow> collector list" where
  "initCollectors dflt =
     [httpRequestsTotal, httpRequestDuration, kafkaMessagesConsumedTotal, kafkaConsumerLag,
      webSocketActiveConnections, webSocketBroadcastDuration dflt, webSocketDroppedTotal,
      webSocketHeartbeatSkippedTotal, mySQLOptionalTableMissing,
      clickHouseQueryDuration dflt, clickHouseErrorsTotal, duckDBQueryDuration, duckDBErrorsTotal,
      mySQLQueryDuration dflt, rbacCacheHitsTotal, rbacCacheMissesTotal, rbacResolutionDuration dflt,
      iamJITProvisionedUsersTotal, iamJITProvisionRateLimitedTotal, iamAdminMutationsTotal,
      rbacCacheInvalidationsTotal, backendConsumeDelay dflt]"

definition liveStoreCollectors :: "collector list" where
  "liveStoreCollectors = [gauge ''livestore_rows'' [], counter ''livestore_evictions_total'' []]"

definition mySQLPoolCollectors :: "collector list" where
  "mySQLPoolCollectors =
     [gauge ''mysql_pool_open_connections'' [], gauge ''mysql_pool_in_use'' [], gauge ''mysql_pool_idle'' [],
      counter ''mysql_pool_wait_count_total'' [], counter ''mysql_pool_wait_duration_seconds_total'' []]"

text \<open>\<open>MustRegister\<close> registers one after the other and panics (\<open>None\<close>) at the first refusal.\<close>

fun mustRegister :: "(collector \<Rightarrow> 'r \<Rightarrow> 'r option) \<Rightarrow> collector list \<Rightarrow> 'r \<Rightarrow> 'r option" where
  "mustRegister reg [] r = Some r"
| "mustRegister reg (c # cs) r = (case reg c r of None \<Rightarrow> None | Some r' \<Rightarrow> mustRegister reg cs r')"

definition startRegistry :: "(collector \<Rightarrow> 'r \<Rightarrow> 'r option) \<Rightarrow> rat list \<Rightarrow> 'r \<Rightarrow> 'r option" where
  \<comment> \<open>from the registry that holds the runtime collectors\<close>
  "startRegistry reg dflt r =
     Option.bind (mustRegister reg (initCollectors dflt) r) (\<lambda>r1.
     Option.bind (mustRegister reg liveStoreCollectors r1) (mustRegister reg mySQLPoolCollectors))"

section \<open>Series\<close>

text \<open>The two streams: the topic, the consumer group and the name of the connection manager of each.\<close>

datatype stream = LiveStream | AnomalyStream

fun stream_name :: "stream \<Rightarrow> string" where
  "stream_name LiveStream = ''live''"
| "stream_name AnomalyStream = ''anomaly''"

fun stream_topic :: "config \<Rightarrow> stream \<Rightarrow> string" where
  "stream_topic cf LiveStream = cf_results_topic cf"
| "stream_topic cf AnomalyStream = cf_anomaly_topic cf"

fun stream_group :: "config \<Rightarrow> stream \<Rightarrow> string" where
  "stream_group cf LiveStream = cf_results_group cf"
| "stream_group cf AnomalyStream = cf_anomaly_group cf"

definition duckdbErrorClass :: "hist_error \<Rightarrow> string" where
  "duckdbErrorClass e = (if e = EngineBusy then ''busy'' else ''query_error'')"

datatype ch_query = LiveResultsQuery | LiveResultsMultiQuery | AggResultsQuery | TopGroupsQuery | GroupDetailQuery

fun ch_query_type :: "ch_query \<Rightarrow> string" where
  "ch_query_type LiveResultsQuery = ''live_results''"
| "ch_query_type LiveResultsMultiQuery = ''live_results_multi''"
| "ch_query_type AggResultsQuery = ''agg_results''"
| "ch_query_type TopGroupsQuery = ''top_groups''"
| "ch_query_type GroupDetailQuery = ''group_detail''"

datatype hist_query = AnalysisQuery | BreakdownQuery

fun hist_query_type :: "hist_query \<Rightarrow> string" where
  "hist_query_type AnalysisQuery = ''historical_analysis''"
| "hist_query_type BreakdownQuery = ''historical_breakdown''"

datatype my_operation = ListUsersOp | ListRolesOp | ListAuditOp | UpdateUserOp | LookupOp | AuditOp | VerifyOp

fun my_operation_name :: "my_operation \<Rightarrow> string" where
  "my_operation_name ListUsersOp = ''admin_list_users''"
| "my_operation_name ListRolesOp = ''admin_list_roles''"
| "my_operation_name ListAuditOp = ''admin_list_audit_log''"
| "my_operation_name UpdateUserOp = ''admin_update_user''"
| "my_operation_name LookupOp = ''get_user_by_external_subject''"
| "my_operation_name AuditOp = ''record_audit_event''"
| "my_operation_name VerifyOp = ''verify_schema''"

text \<open>What the program counts and measures: answered requests, messages (with a lag if the watermark is
  known, a delay if the message has a readable time), connections, broadcasts (with a drop or not),
  skipped heartbeats, the missing table, queries with their error if any, checks of permissions and
  their evictions, provisioning, changes of users.\<close>

datatype metric_event =
    Answer http_request nat
  | Message stream bool bool
  | Connection stream
  | Broadcast stream bool
  | SkippedHeartbeat stream
  | MissingTable
  | ChQuery ch_query "ch_error option"
  | HistQuery hist_query "hist_error option"
  | MyQuery my_operation
  | CacheHit
  | CacheMiss
  | Evicted
  | Provisioned
  | RateLimited
  | Mutation "iam_error + admin_user"

definition when_some :: "'a option \<Rightarrow> ('a \<Rightarrow> 'b) \<Rightarrow> 'b list" where
  "when_some x f = (case x of None \<Rightarrow> [] | Some a \<Rightarrow> [f a])"

text \<open>The collectors an event touches, each with its label values.\<close>

fun touched :: "rat list \<Rightarrow> config \<Rightarrow> metric_event \<Rightarrow> (collector \<times> string list) list" where
  "touched dflt cf (Answer rq status) =
     (if rq_path rq = ''/metrics'' then []
      else (case request_label rq status of (m, route, st) \<Rightarrow>
        [(httpRequestsTotal, [m, route, st]), (httpRequestDuration, [m, route])]))"
| "touched dflt cf (Message s lag delay) =
     [(kafkaMessagesConsumedTotal, [stream_topic cf s])]
     @ (if lag then [(kafkaConsumerLag, [stream_topic cf s, stream_group cf s])] else [])
     @ (if delay then [(backendConsumeDelay dflt, [stream_topic cf s])] else [])"
| "touched dflt cf (Connection s) = [(webSocketActiveConnections, [stream_name s])]"
| "touched dflt cf (Broadcast s lost) =
     (if lost then [(webSocketDroppedTotal, [stream_name s, ''outbox_full''])] else [])
     @ [(webSocketBroadcastDuration dflt, [stream_name s])]"
| "touched dflt cf (SkippedHeartbeat s) = [(webSocketHeartbeatSkippedTotal, [stream_name s])]"
| "touched dflt cf MissingTable = [(mySQLOptionalTableMissing, [''window_configs''])]"
| "touched dflt cf (ChQuery q err) =
     (clickHouseQueryDuration dflt, [ch_query_type q])
     # when_some err (\<lambda>e. (clickHouseErrorsTotal, [ch_query_type q, chErrorClass e]))"
| "touched dflt cf (HistQuery q err) =
     (duckDBQueryDuration, [hist_query_type q])
     # when_some err (\<lambda>e. (duckDBErrorsTotal, [hist_query_type q, duckdbErrorClass e]))"
| "touched dflt cf (MyQuery op) = [(mySQLQueryDuration dflt, [my_operation_name op])]"
| "touched dflt cf CacheHit = [(rbacCacheHitsTotal, [])]"
| "touched dflt cf CacheMiss = [(rbacCacheMissesTotal, []), (rbacResolutionDuration dflt, [])]"
| "touched dflt cf Evicted = [(rbacCacheInvalidationsTotal, [])]"
| "touched dflt cf Provisioned = [(iamJITProvisionedUsersTotal, [])]"
| "touched dflt cf RateLimited = [(iamJITProvisionRateLimitedTotal, [])]"
| "touched dflt cf (Mutation r) = [(iamAdminMutationsTotal, [''user_update'', mutation_label r])]"

section \<open>Values read at a scrape\<close>

definition totalRows :: "live_store \<Rightarrow> int" where
  "totalRows s = ls_total s"

definition droppedRowsTotal :: "live_store \<Rightarrow> int" where
  "droppedRowsTotal s = ls_dropped s"

record db_stats =
  ds_open :: int
  ds_in_use :: int
  ds_idle :: int
  ds_wait_count :: int
  ds_wait_duration :: duration

definition zero_stats :: db_stats where
  "zero_stats = \<lparr>ds_open = 0, ds_in_use = 0, ds_idle = 0, ds_wait_count = 0, ds_wait_duration = 0\<rparr>"

definition scrape_live :: "live_store \<Rightarrow> (string \<times> rat) list" where
  "scrape_live s = [(''livestore_rows'', of_int (totalRows s)), (''livestore_evictions_total'', of_int (droppedRowsTotal s))]"

definition scrape_mysql :: "(nat \<Rightarrow> db_stats) \<Rightarrow> my_state \<Rightarrow> (string \<times> rat) list" where
  "scrape_mysql stats my =
     (let st = mysqlPoolStats zero_stats stats my
      in [(''mysql_pool_open_connections'', of_int (ds_open st)), (''mysql_pool_in_use'', of_int (ds_in_use st)),
          (''mysql_pool_idle'', of_int (ds_idle st)), (''mysql_pool_wait_count_total'', of_int (ds_wait_count st)),
          (''mysql_pool_wait_duration_seconds_total'', of_int (ds_wait_duration st) / 1000000000)])"

section \<open>Registration succeeds\<close>

text \<open>What the client library documents of \<open>Register\<close>: a collector is accepted if it is valid and its name is
  free, and refused if its name is taken. Valid: names and labels of word characters, no label twice,
  buckets that increase.\<close>

definition name_char :: "char \<Rightarrow> bool" where
  "name_char c \<longleftrightarrow> is_lower c \<or> c = CHR ''_''"

fun increasing :: "rat list \<Rightarrow> bool" where
  "increasing (a # b # xs) \<longleftrightarrow> a < b \<and> increasing (b # xs)"
| "increasing _ \<longleftrightarrow> True"

fun kind_ok :: "collector_kind \<Rightarrow> bool" where
  "kind_ok (HistogramKind bs) \<longleftrightarrow> bs \<noteq> [] \<and> increasing bs"
| "kind_ok _ \<longleftrightarrow> True"

definition valid_collector :: "collector \<Rightarrow> bool" where
  "valid_collector c \<longleftrightarrow> mx_name c \<noteq> [] \<and> list_all name_char (mx_name c) \<and>
     list_all (\<lambda>l. l \<noteq> [] \<and> list_all name_char l \<and> l \<noteq> ''le'') (mx_labels c) \<and> distinct (mx_labels c) \<and> kind_ok (mx_kind c)"

definition registers :: "('r \<Rightarrow> string set) \<Rightarrow> (collector \<Rightarrow> 'r \<Rightarrow> 'r option) \<Rightarrow> bool" where
  "registers names reg \<longleftrightarrow>
     (\<forall>c r. valid_collector c \<and> mx_name c \<notin> names r \<longrightarrow>
        (\<exists>r'. reg c r = Some r' \<and> names r' = insert (mx_name c) (names r))) \<and>
     (\<forall>c r. mx_name c \<in> names r \<longrightarrow> reg c r = None)"

lemma registers_all:
  assumes reg: "registers names reg"
  shows "list_all valid_collector cs \<Longrightarrow> distinct (map mx_name cs) \<Longrightarrow> set (map mx_name cs) \<inter> names r = {} \<Longrightarrow>
    \<exists>r'. mustRegister reg cs r = Some r' \<and> names r' = set (map mx_name cs) \<union> names r"
proof (induction cs arbitrary: r)
  case (Cons c cs)
  then have "valid_collector c \<and> mx_name c \<notin> names r" by simp
  with reg obtain r' where r': "reg c r = Some r'" "names r' = insert (mx_name c) (names r)"
    unfolding registers_def by blast
  have "set (map mx_name cs) \<inter> names r' = {}" using Cons.prems(2,3) r'(2) by auto
  with Cons.IH [of r'] Cons.prems r' show ?case by auto
qed simp

lemma mustRegister_append:
  "mustRegister reg (xs @ ys) r = Option.bind (mustRegister reg xs r) (mustRegister reg ys)"
  by (induction xs arbitrary: r) (auto split: option.split)

definition allCollectors :: "rat list \<Rightarrow> collector list" where
  "allCollectors dflt = initCollectors dflt @ liveStoreCollectors @ mySQLPoolCollectors"

lemma startRegistry_all: "startRegistry reg dflt r = mustRegister reg (allCollectors dflt) r"
  by (cases "mustRegister reg (initCollectors dflt) r") (simp_all add: startRegistry_def allCollectors_def mustRegister_append)

lemmas collector_defs =
  httpRequestsTotal_def httpRequestDuration_def kafkaMessagesConsumedTotal_def kafkaConsumerLag_def
  webSocketActiveConnections_def webSocketBroadcastDuration_def webSocketDroppedTotal_def
  webSocketHeartbeatSkippedTotal_def mySQLOptionalTableMissing_def clickHouseQueryDuration_def
  clickHouseErrorsTotal_def duckDBQueryDuration_def duckDBErrorsTotal_def mySQLQueryDuration_def
  rbacCacheHitsTotal_def rbacCacheMissesTotal_def rbacResolutionDuration_def iamJITProvisionedUsersTotal_def
  iamJITProvisionRateLimitedTotal_def iamAdminMutationsTotal_def rbacCacheInvalidationsTotal_def
  backendConsumeDelay_def counter_def gauge_def histogram_def

lemma collector_names:
  "map mx_name (allCollectors dflt) =
     [''http_requests_total'', ''http_request_duration_seconds'', ''kafka_messages_consumed_total'', ''kafka_consumer_lag'',
      ''websocket_active_connections'', ''websocket_broadcast_duration_seconds'', ''websocket_dropped_messages_total'',
      ''websocket_heartbeat_skipped_total'', ''mysql_optional_table_missing'', ''clickhouse_query_duration_seconds'',
      ''clickhouse_errors_total'', ''duckdb_historical_query_duration_seconds'', ''duckdb_errors_total'',
      ''mysql_query_duration_seconds'', ''rbac_permission_cache_hits_total'', ''rbac_permission_cache_misses_total'',
      ''rbac_permission_resolution_duration_seconds'', ''iam_jit_provisioned_users_total'',
      ''iam_jit_provision_rate_limited_total'', ''iam_admin_mutations_total'', ''rbac_permission_cache_invalidations_total'',
      ''velocity_backend_consume_delay_seconds'', ''livestore_rows'', ''livestore_evictions_total'',
      ''mysql_pool_open_connections'', ''mysql_pool_in_use'', ''mysql_pool_idle'', ''mysql_pool_wait_count_total'',
      ''mysql_pool_wait_duration_seconds_total'']"
  by (simp add: allCollectors_def initCollectors_def liveStoreCollectors_def mySQLPoolCollectors_def collector_defs)

lemma names_distinct: "distinct (map mx_name (allCollectors dflt))"
  unfolding collector_names by simp

lemma wide_increasing: "wideBuckets \<noteq> []" "increasing wideBuckets"
  by (simp_all add: wideBuckets_def)

lemma name_chars: "list_all name_char ''abcdefghijklmnopqrstuvwxyz_''"
  by code_simp

lemmas name_char_facts = name_chars [unfolded list.pred_inject simp_thms]

lemma names_valid: "list_all (\<lambda>n. n \<noteq> [] \<and> list_all name_char n) (map mx_name (allCollectors dflt))"
  unfolding collector_names by (simp add: name_char_facts)

lemma labels_valid:
  "list_all (\<lambda>l. l \<noteq> [] \<and> list_all name_char l \<and> l \<noteq> ''le'')
     [''method'', ''route'', ''status'', ''topic'', ''consumer_group'', ''stream'', ''reason'', ''table'', ''query_type'',
      ''error_class'', ''operation'', ''action'', ''result'']"
  by (simp add: name_char_facts)

lemma collector_labels:
  "list_all (\<lambda>c. distinct (mx_labels c) \<and> set (mx_labels c) \<subseteq>
     set [''method'', ''route'', ''status'', ''topic'', ''consumer_group'', ''stream'', ''reason'', ''table'', ''query_type'',
      ''error_class'', ''operation'', ''action'', ''result'']) (allCollectors dflt)"
  by (simp add: allCollectors_def initCollectors_def liveStoreCollectors_def mySQLPoolCollectors_def collector_defs)

lemma collector_kinds:
  "dflt \<noteq> [] \<Longrightarrow> increasing dflt \<Longrightarrow> list_all (\<lambda>c. kind_ok (mx_kind c)) (allCollectors dflt)"
  by (simp add: allCollectors_def initCollectors_def liveStoreCollectors_def mySQLPoolCollectors_def collector_defs wide_increasing)

lemma all_valid:
  assumes "dflt \<noteq> []" and "increasing dflt"
  shows "list_all valid_collector (allCollectors dflt)"
  using names_valid [of dflt] labels_valid collector_labels [of dflt] collector_kinds [OF assms]
  unfolding list_all_iff valid_collector_def by (simp only: set_map ball_simps) blast

section \<open>Every label set has its collector\<close>

definition fits :: "rat list \<Rightarrow> collector \<times> string list \<Rightarrow> bool" where
  "fits dflt s \<longleftrightarrow> fst s \<in> set (initCollectors dflt) \<and> length (snd s) = length (mx_labels (fst s))"

lemma when_some_simps [simp]: "when_some None f = []" "when_some (Some x) f = [f x]"
  by (simp_all add: when_some_def)

lemma initCollectors_set: "set (initCollectors dflt) =
     {httpRequestsTotal, httpRequestDuration, kafkaMessagesConsumedTotal, kafkaConsumerLag,
      webSocketActiveConnections, webSocketBroadcastDuration dflt, webSocketDroppedTotal,
      webSocketHeartbeatSkippedTotal, mySQLOptionalTableMissing,
      clickHouseQueryDuration dflt, clickHouseErrorsTotal, duckDBQueryDuration, duckDBErrorsTotal,
      mySQLQueryDuration dflt, rbacCacheHitsTotal, rbacCacheMissesTotal, rbacResolutionDuration dflt,
      iamJITProvisionedUsersTotal, iamJITProvisionRateLimitedTotal, iamAdminMutationsTotal,
      rbacCacheInvalidationsTotal, backendConsumeDelay dflt}"
  by (simp add: initCollectors_def)

lemma label_counts:
  "length (mx_labels httpRequestsTotal) = 3" "length (mx_labels httpRequestDuration) = 2"
  "length (mx_labels kafkaMessagesConsumedTotal) = 1" "length (mx_labels kafkaConsumerLag) = 2"
  "length (mx_labels webSocketActiveConnections) = 1" "length (mx_labels (webSocketBroadcastDuration dflt)) = 1"
  "length (mx_labels webSocketDroppedTotal) = 2" "length (mx_labels webSocketHeartbeatSkippedTotal) = 1"
  "length (mx_labels mySQLOptionalTableMissing) = 1" "length (mx_labels (clickHouseQueryDuration dflt)) = 1"
  "length (mx_labels clickHouseErrorsTotal) = 2" "length (mx_labels duckDBQueryDuration) = 1"
  "length (mx_labels duckDBErrorsTotal) = 2" "length (mx_labels (mySQLQueryDuration dflt)) = 1"
  "mx_labels rbacCacheHitsTotal = []" "mx_labels rbacCacheMissesTotal = []" "mx_labels (rbacResolutionDuration dflt) = []"
  "mx_labels iamJITProvisionedUsersTotal = []" "mx_labels iamJITProvisionRateLimitedTotal = []"
  "length (mx_labels iamAdminMutationsTotal) = 2" "mx_labels rbacCacheInvalidationsTotal = []"
  "length (mx_labels (backendConsumeDelay dflt)) = 1"
  by (simp_all add: collector_defs)

lemma touched_fits: "list_all (fits dflt) (touched dflt cf ev)"
  by (cases ev) (auto simp: fits_def initCollectors_set label_counts when_some_def list_all_iff split: option.split prod.split)

section \<open>How many label sets there are\<close>

text \<open>The metrics and label values of each kind of event but answers, whose labels are the business of
  \<open>HttpMetrics\<close>. A counter or gauge exports one time series for each, a histogram one for each of its
  buckets and two more.\<close>

definition label_sets :: "rat list \<Rightarrow> config \<Rightarrow> (string \<times> string list) set" where
  "label_sets dflt cf = {(mx_name c, vs) | c vs ev. (c, vs) \<in> set (touched dflt cf ev) \<and> (case ev of Answer _ _ \<Rightarrow> False | _ \<Rightarrow> True)}"

definition per_stream :: "config \<Rightarrow> stream \<Rightarrow> (string \<times> string list) list" where
  "per_stream cf s =
     [(''kafka_messages_consumed_total'', [stream_topic cf s]), (''kafka_consumer_lag'', [stream_topic cf s, stream_group cf s]),
      (''velocity_backend_consume_delay_seconds'', [stream_topic cf s]), (''websocket_active_connections'', [stream_name s]),
      (''websocket_dropped_messages_total'', [stream_name s, ''outbox_full'']),
      (''websocket_broadcast_duration_seconds'', [stream_name s]), (''websocket_heartbeat_skipped_total'', [stream_name s])]"

definition per_query :: "string \<Rightarrow> string \<Rightarrow> string \<Rightarrow> string \<Rightarrow> (string \<times> string list) list" where
  "per_query duration errors other q = [(duration, [q]), (errors, [q, other]), (errors, [q, ''query_error''])]"

definition singles :: "(string \<times> string list) list" where
  "singles =
     map (\<lambda>r. (''iam_admin_mutations_total'', [''user_update'', r])) [''success'', ''forbidden'', ''error'']
     @ (''mysql_optional_table_missing'', [''window_configs''])
     # map (\<lambda>n. (n, [])) [''rbac_permission_cache_hits_total'', ''rbac_permission_cache_misses_total'',
         ''rbac_permission_resolution_duration_seconds'', ''rbac_permission_cache_invalidations_total'',
         ''iam_jit_provisioned_users_total'', ''iam_jit_provision_rate_limited_total'']"

definition known_label_sets :: "config \<Rightarrow> (string \<times> string list) list" where
  "known_label_sets cf =
     concat (map (per_stream cf) [LiveStream, AnomalyStream])
     @ concat (map (per_query ''clickhouse_query_duration_seconds'' ''clickhouse_errors_total'' ''unavailable'')
         [''live_results'', ''live_results_multi'', ''agg_results'', ''top_groups'', ''group_detail''])
     @ concat (map (per_query ''duckdb_historical_query_duration_seconds'' ''duckdb_errors_total'' ''busy'')
         [''historical_analysis'', ''historical_breakdown''])
     @ map (\<lambda>op. (''mysql_query_duration_seconds'', [op]))
         [''admin_list_users'', ''admin_list_roles'', ''admin_list_audit_log'', ''admin_update_user'',
          ''get_user_by_external_subject'', ''record_audit_event'', ''verify_schema'']
     @ singles"

lemma length_known_label_sets: "length (known_label_sets cf) = 52"
  by (simp add: known_label_sets_def per_stream_def per_query_def singles_def)

lemma mutation_labels: "mutation_label r \<in> {''success'', ''forbidden'', ''error''}"
  by (simp add: mutation_label_def split: sum.split)

lemma collector_name_simps [simp]:
  "mx_name kafkaMessagesConsumedTotal = ''kafka_messages_consumed_total''" "mx_name kafkaConsumerLag = ''kafka_consumer_lag''"
  "mx_name (backendConsumeDelay dflt) = ''velocity_backend_consume_delay_seconds''"
  "mx_name webSocketActiveConnections = ''websocket_active_connections''"
  "mx_name webSocketDroppedTotal = ''websocket_dropped_messages_total''"
  "mx_name (webSocketBroadcastDuration dflt) = ''websocket_broadcast_duration_seconds''"
  "mx_name webSocketHeartbeatSkippedTotal = ''websocket_heartbeat_skipped_total''"
  "mx_name mySQLOptionalTableMissing = ''mysql_optional_table_missing''"
  "mx_name (clickHouseQueryDuration dflt) = ''clickhouse_query_duration_seconds''"
  "mx_name clickHouseErrorsTotal = ''clickhouse_errors_total''"
  "mx_name duckDBQueryDuration = ''duckdb_historical_query_duration_seconds''" "mx_name duckDBErrorsTotal = ''duckdb_errors_total''"
  "mx_name (mySQLQueryDuration dflt) = ''mysql_query_duration_seconds''"
  "mx_name rbacCacheHitsTotal = ''rbac_permission_cache_hits_total''" "mx_name rbacCacheMissesTotal = ''rbac_permission_cache_misses_total''"
  "mx_name (rbacResolutionDuration dflt) = ''rbac_permission_resolution_duration_seconds''"
  "mx_name iamJITProvisionedUsersTotal = ''iam_jit_provisioned_users_total''"
  "mx_name iamJITProvisionRateLimitedTotal = ''iam_jit_provision_rate_limited_total''"
  "mx_name iamAdminMutationsTotal = ''iam_admin_mutations_total''"
  "mx_name rbacCacheInvalidationsTotal = ''rbac_permission_cache_invalidations_total''"
  by (simp_all add: collector_defs)

lemma stream_series: "set (per_stream cf s) \<subseteq> set (known_label_sets cf)"
  by (cases s) (auto simp: known_label_sets_def)

lemma ch_series: "set (per_query ''clickhouse_query_duration_seconds'' ''clickhouse_errors_total'' ''unavailable'' (ch_query_type q))
    \<subseteq> set (known_label_sets cf)"
  by (cases q) (auto simp: known_label_sets_def)

lemma hist_series: "set (per_query ''duckdb_historical_query_duration_seconds'' ''duckdb_errors_total'' ''busy'' (hist_query_type q))
    \<subseteq> set (known_label_sets cf)"
  by (cases q) (auto simp: known_label_sets_def)

lemma my_series: "(''mysql_query_duration_seconds'', [my_operation_name op]) \<in> set (known_label_sets cf)"
  by (cases op) (simp_all add: known_label_sets_def)

lemma single_series: "set singles \<subseteq> set (known_label_sets cf)"
  unfolding known_label_sets_def set_append by (intro Un_upper2 le_supI2 order_refl)

lemma mutation_single: "(''iam_admin_mutations_total'', [''user_update'', mutation_label r]) \<in> set singles"
  using mutation_labels [of r] by (auto simp: singles_def)

lemma plain_singles:
  "(''rbac_permission_cache_hits_total'', []) \<in> set singles" "(''rbac_permission_cache_misses_total'', []) \<in> set singles"
  "(''rbac_permission_resolution_duration_seconds'', []) \<in> set singles"
  "(''rbac_permission_cache_invalidations_total'', []) \<in> set singles"
  "(''iam_jit_provisioned_users_total'', []) \<in> set singles" "(''iam_jit_provision_rate_limited_total'', []) \<in> set singles"
  "(''mysql_optional_table_missing'', [''window_configs'']) \<in> set singles"
  by (simp_all add: singles_def)

definition named :: "(collector \<times> string list) list \<Rightarrow> (string \<times> string list) set" where
  "named xs = (\<lambda>(c, vs). (mx_name c, vs)) ` set xs"

lemma named_simps [simp]:
  "named [] = {}" "named ((c, vs) # xs) = insert (mx_name c, vs) (named xs)" "named (xs @ ys) = named xs \<union> named ys"
  by (auto simp: named_def)

text \<open>Where the label sets of an event belong.\<close>

fun scope :: "config \<Rightarrow> metric_event \<Rightarrow> (string \<times> string list) list" where
  "scope cf (Message s lag delay) = per_stream cf s"
| "scope cf (Connection s) = per_stream cf s"
| "scope cf (Broadcast s lost) = per_stream cf s"
| "scope cf (SkippedHeartbeat s) = per_stream cf s"
| "scope cf (ChQuery q err) =
     per_query ''clickhouse_query_duration_seconds'' ''clickhouse_errors_total'' ''unavailable'' (ch_query_type q)"
| "scope cf (HistQuery q err) =
     per_query ''duckdb_historical_query_duration_seconds'' ''duckdb_errors_total'' ''busy'' (hist_query_type q)"
| "scope cf (MyQuery op) = [(''mysql_query_duration_seconds'', [my_operation_name op])]"
| "scope cf _ = singles"

lemma scope_known: "set (scope cf ev) \<subseteq> set (known_label_sets cf)"
  using stream_series ch_series hist_series my_series single_series by (cases ev) simp_all

lemma touched_scope:
  assumes "case ev of Answer _ _ \<Rightarrow> False | _ \<Rightarrow> True"
  shows "named (touched dflt cf ev) \<subseteq> set (scope cf ev)"
proof (cases ev)
  case (ChQuery q err)
  then show ?thesis by (cases err) (simp_all add: per_query_def chErrorClass_def)
next
  case (HistQuery q err)
  then show ?thesis by (cases err) (simp_all add: per_query_def duckdbErrorClass_def)
qed (use assms mutation_single in \<open>simp_all add: per_stream_def plain_singles\<close>)

lemma label_sets_bounded: "finite (label_sets dflt cf)" "card (label_sets dflt cf) \<le> 52"
proof -
  have sub: "label_sets dflt cf \<subseteq> set (known_label_sets cf)"
    using touched_scope scope_known by (fastforce simp: label_sets_def named_def)
  then show "finite (label_sets dflt cf)" by (rule finite_subset) simp
  have "card (label_sets dflt cf) \<le> card (set (known_label_sets cf))" using sub by (intro card_mono) simp_all
  also have "\<dots> \<le> length (known_label_sets cf)" by (rule card_length)
  finally show "card (label_sets dflt cf) \<le> 52" by (simp add: length_known_label_sets)
qed

section \<open>Properties\<close>

lemma collectors_not_runtime:
  "\<forall>n \<in> R. take 3 n = ''go_'' \<or> take 8 n = ''process_'' \<Longrightarrow> set (map mx_name (allCollectors dflt)) \<inter> R = {}"
  unfolding collector_names by auto

text \<open>With a registry that refuses only taken names and holds the runtime collectors, the start
  registers every collector and does not panic; \<open>main\<close>'s registrations would panic if made again. Every
  event of the program, whatever its values, passes a registered collector as many label values as it
  declares labels. (\<open>WithLabelValues\<close> panics as well on a value that is not UTF-8; the only ones that
  could be are the topics and the consumer groups of the environment.) Answered requests apart, all
  events of a process together touch at most 52 label sets.\<close>

lemma metrics_well_formed:
  assumes "registers names reg" and "dflt \<noteq> []" and "increasing dflt"
    and "\<forall>n \<in> names r. take 3 n = ''go_'' \<or> take 8 n = ''process_''"
  shows "(\<exists>r'. startRegistry reg dflt r = Some r' \<and> names r' = mx_name ` set (allCollectors dflt) \<union> names r \<and>
      mustRegister reg liveStoreCollectors r' = None \<and> mustRegister reg mySQLPoolCollectors r' = None) \<and>
    list_all (\<lambda>(c, vs). c \<in> set (initCollectors dflt) \<and> length vs = length (mx_labels c)) (touched dflt cf ev) \<and>
    finite (label_sets dflt cf) \<and> card (label_sets dflt cf) \<le> 52"
proof -
  from registers_all [OF assms(1) all_valid [OF assms(2,3)] names_distinct collectors_not_runtime [OF assms(4)]]
  obtain r' where r': "startRegistry reg dflt r = Some r'" "names r' = mx_name ` set (allCollectors dflt) \<union> names r"
    unfolding startRegistry_all by auto
  have taken: "reg c r' = None" if "c \<in> set (allCollectors dflt)" for c
    using assms(1) r'(2) that unfolding registers_def by blast
  have "reg (gauge ''livestore_rows'' []) r' = None" "reg (gauge ''mysql_pool_open_connections'' []) r' = None"
    by (rule taken; simp add: allCollectors_def liveStoreCollectors_def mySQLPoolCollectors_def)+
  then have "mustRegister reg liveStoreCollectors r' = None \<and> mustRegister reg mySQLPoolCollectors r' = None"
    by (simp add: liveStoreCollectors_def mySQLPoolCollectors_def)
  moreover have "list_all (\<lambda>(c, vs). c \<in> set (initCollectors dflt) \<and> length vs = length (mx_labels c)) (touched dflt cf ev)"
    using touched_fits [of dflt cf ev] by (auto simp: list_all_iff fits_def)
  ultimately show ?thesis using r' label_sets_bounded by blast
qed

lemma metrics_well_formed_witness:
  "\<exists>r'. startRegistry (\<lambda>c r. if mx_name c \<in> r then None else Some (insert (mx_name c) r)) [5/1000, 1, 10]
     {''go_goroutines'', ''process_cpu_seconds_total''} = Some r' \<and> ''livestore_rows'' \<in> r'"
proof -
  let ?reg = "\<lambda>c r. if mx_name c \<in> r then None else Some (insert (mx_name c) r)"
  have reg: "registers (\<lambda>r. r) ?reg" by (simp add: registers_def)
  have "''livestore_rows'' \<in> mx_name ` set (allCollectors [5/1000, 1, 10])"
    using collector_names [of "[5/1000, 1, 10]"] unfolding set_map [symmetric] by simp
  with metrics_well_formed [OF reg, of "[5/1000, 1, 10]" "{''go_goroutines'', ''process_cpu_seconds_total''}"]
  show ?thesis by auto
qed

lemma ls_add_dropped:
  assumes inv: "ls_inv ff s"
  shows "ls_dropped s \<le> ls_dropped (ls_add ff ord row s)"
proof -
  let ?u = "ls_upsert ff row s"
  have u: "ls_inv ff ?u" "ls_dropped ?u = ls_dropped s"
    using ls_upsert_inv [OF inv] by simp_all
  have "0 \<le> ls_total ?u" using ls_invD(4) [OF u(1)] by simp
  then show ?thesis
    using u(2) trimExcess_correct(2,3) [OF u(1), of ord]
    by (auto simp: ls_add_cases [OF inv] evicted_from_def max_def split: if_splits)
qed

text \<open>What a scrape reads from the live store is true and a counter: the rows it reports are the
  rows the store holds, and the evictions it reports never go down while the process runs, whatever
  happens. The counters of the MySQL pool do go down: a reset starts them from zero.\<close>

theorem scraped_values:
  assumes "server_reach px iam s" and "iam_ok iam" and "seeded iam" and "1 \<le> active_supers iam"
    and "server_step px ev s = Some s'"
  shows "map_of (scrape_live (sk_store (sv_results s))) ''livestore_rows'' = Some (of_nat (map_total (ls_data (sk_store (sv_results s))))) \<and>
    the (map_of (scrape_live (sk_store (sv_results s))) ''livestore_evictions_total'')
      \<le> the (map_of (scrape_live (sk_store (sv_results s'))) ''livestore_evictions_total'') \<and>
    list_all (\<lambda>p. snd p = 0) (scrape_mysql stats (resetMySQLConn my))"
proof -
  have inv: "ls_inv (cl_float (px_ch px)) (sk_store (sv_results s))"
    using server_reach_inv [OF assms(1-4)] by (simp add: server_inv_def)
  have "ls_dropped (sk_store (sv_results s)) \<le> ls_dropped (sk_store (sv_results s'))"
  proof (cases ev)
    case (Http env rq)
    with assms(5) show ?thesis by auto
  next
    case (ResultMessage v now ord)
    then obtain k where k: "processMessage (cl_json (px_ch px)) (cl_float (px_ch px)) ord now v (sv_results s) = Some k"
      and "s' = s\<lparr>sv_results := k\<rparr>" using assms(5) by auto
    with message_store [OF k] ls_add_dropped [OF inv] show ?thesis by auto
  next
    case (AnomalyMessage v now)
    with assms(5) show ?thesis by auto
  next
    case (PruneTick now ord)
    with assms(5) inv show ?thesis by (auto simp: pruneStale_correct(4))
  qed
  moreover have "my_db (resetMySQLConn my) = None" by (simp add: resetMySQLConn_def split: option.split)
  ultimately show ?thesis
    using ls_invD(4) [OF inv]
    by (simp add: scrape_live_def totalRows_def droppedRowsTotal_def scrape_mysql_def mysqlPoolStats_def zero_stats_def)
qed

theorem scraped_values_witness:
  "map_of (scrape_live (sk_store (sv_results demo_server))) ''livestore_rows'' =
    Some (of_nat (map_total (ls_data (sk_store (sv_results demo_server)))))"
proof -
  have "server_step demo_process (PruneTick 0 sorted_order) demo_server \<noteq> None" by simp
  then obtain s' where "server_step demo_process (PruneTick 0 sorted_order) demo_server = Some s'" by blast
  from scraped_values [OF demo_server_reach demo_iam this] show ?thesis by blast
qed

end
