(* ===== verification/HttpServer.thy ===== *)
theory HttpServer
  imports Metrics
begin

text \<open>
  The HTTP server of \<open>cmd/server/main.go\<close>: log level and mode, the CORS layer, the
  timeouts of the server, and how they fit those of the handlers.
\<close>

section \<open>Logging\<close>

datatype log_level = LevelDebug | LevelInfo | LevelWarn | LevelError

fun level_number :: "log_level \<Rightarrow> int" where
  "level_number LevelDebug = -4"
| "level_number LevelInfo = 0"
| "level_number LevelWarn = 4"
| "level_number LevelError = 8"

text \<open>\<open>upper\<close> is \<open>strings.ToUpper\<close>.\<close>

definition logLevel :: "(string \<Rightarrow> string) \<Rightarrow> string \<Rightarrow> log_level" where
  "logLevel upper s =
     (let u = upper s
      in if u = ''DEBUG'' then LevelDebug
         else if u = ''WARN'' \<or> u = ''WARNING'' then LevelWarn
         else if u = ''ERROR'' then LevelError else LevelInfo)"

definition releaseMode :: "log_level \<Rightarrow> bool" where
  "releaseMode l \<longleftrightarrow> level_number l > level_number LevelDebug"

section \<open>CORS\<close>

record cors_config =
  cc_origins :: "string list"
  cc_methods :: "string list"
  cc_headers :: "string list"
  cc_credentials :: bool
  cc_max_age :: duration

definition corsConfig :: "string \<Rightarrow> cors_config" where
  "corsConfig cors =
     \<lparr>cc_origins = allowOrigins cors,
      cc_methods = [''GET'', ''POST'', ''PUT'', ''PATCH'', ''DELETE'', ''OPTIONS''],
      cc_headers = [''*''],
      cc_credentials = (\<not> allowAll cors),
      cc_max_age = 12 * 3600 * second\<rparr>"

section \<open>Timeouts\<close>

record http_server =
  hs_addr :: string
  hs_read :: duration
  hs_read_header :: duration
  hs_write :: duration
  hs_idle :: duration

definition httpServer :: "config \<Rightarrow> http_server" where
  "httpServer cf =
     \<lparr>hs_addr = cf_host cf @ '':'' @ cf_port cf,
      hs_read = 15 * 60 * second, hs_read_header = 10 * second,
      hs_write = 15 * 60 * second, hs_idle = 5 * 60 * second\<rparr>"

definition duckDBAcquireTimeout :: duration where
  "duckDBAcquireTimeout = 30 * second"

definition duckDBQueryTimeout :: duration where
  "duckDBQueryTimeout = 10 * 60 * second"

section \<open>How they fit\<close>

text \<open>A historical request that gets a connection that is up has answered well before the server gives
  up writing: four and a half minutes are left for setting a connection up. The widest bucket is the
  write timeout, so a duration beyond all buckets is one of a request that was cut off.\<close>

lemma historical_requests_fit:
  "duckDBAcquireTimeout + duckDBQueryTimeout + 270 * second = hs_write (httpServer cf)"
  "of_int (hs_write (httpServer cf)) = last wideBuckets * (of_int second :: rat)"
  by (simp_all add: duckDBAcquireTimeout_def duckDBQueryTimeout_def httpServer_def second_def wideBuckets_def)

text \<open>Every method a route is registered for is one the CORS layer allows.\<close>

lemma cors_methods_cover_routes: "list_all (\<lambda>r. fst (fst r) \<in> set (cc_methods (corsConfig cors))) routes"
  by (simp add: routes_def corsConfig_def)

text \<open>Credentials are refused only for the star alone: with a star among other origins the layer is
  given both the star and credentials.\<close>

lemma star_among_others_keeps_credentials:
  assumes "''*'' \<in> set (allowOrigins cors)" and "1 < length (allowOrigins cors)"
  shows "''*'' \<in> set (cc_origins (corsConfig cors)) \<and> cc_credentials (corsConfig cors)"
  using assms by (simp add: corsConfig_def allowAll_def)

end
