(* ===== verification/Spec2Isabelle.thy ===== *)
theory Spec2Isabelle
  imports LiveStore_Loops LiveFeed RulesHandler_Props Auth_Props HttpMetrics
    AnalysisHandlers_Props AnswerRows PoolRequests Startup Platform Server_Props Metrics HttpServer
begin

text \<open>
  Velocity Engine control plane backend (Go, \<open>cmd/server\<close> and \<open>internal\<close>): a model of the program
  and the theorems that make it correct.

  \<^bold>\<open>The program.\<close> Analysts define velocity rules over authentication transactions. The backend keeps the
  rules (in memory and in MySQL), publishes them to Flink through a Kafka topic, and consumes two
  topics of results and anomalies, which it keeps in memory, serves and pushes over WebSockets. It
  answers questions about the past from ClickHouse (what the rules found) and from DuckDB over Iceberg
  (what a rule would have found). Users, roles and permissions are in MySQL; every changing route is
  guarded by them.

  \<^bold>\<open>Conventions.\<close> A component is a pair of theories: the model, which follows one or two source files
  function by function, and \<open>_Props\<close>, its invariants and theorems (small components have one theory).
  State is a record, returned updated; a function that can fail returns a sum or an option; a handler
  returns a status with the state. What runs under a lock is one step; what runs concurrently is a
  step relation over the atomic steps. Strings are byte lists, \<open>int\<close> and \<open>int64\<close> are integers with their
  wrap-around written out (\<open>wrap64\<close>), \<open>float64\<close> is its bit pattern, \<open>interface{}\<close> is \<open>gval\<close>, a
  \<open>map[string]interface{}\<close> an association list (\<open>row\<close>). Where the code ranges over a Go map the order is
  an argument (\<open>key_order\<close>), so that theorems hold for every order. Code outside the repository is a
  parameter: what the databases answer (\<open>he_db\<close>, \<open>ce_rows\<close>, \<open>me_tables\<close>), what the JSON decoder and the
  float formatter return, what the Kafka client and the socket library return, Go's Unicode tables.

  \<^bold>\<open>Shared layer.\<close> \<open>Prelude\<close> (base types, maps and lists), \<open>GoText\<close>, \<open>GoTime\<close>, \<open>TimeFormat\<close>, \<open>FloatInt\<close>,
  \<open>GoValue\<close> (the part of Go's library the source uses), \<open>Buffers\<close> and \<open>ConnPool\<close> (the interfaces of bounded
  buffers and of shared connections, as locales; their interpretations stand in the components).

  \<^bold>\<open>Live data.\<close>
  \<^item> \<open>LiveStore\<close>, \<open>LiveStore_Props\<close>, \<open>LiveStore_Loops\<close> (\<open>services/livestore.go\<close>): rows per rule with an index.
    Every sequence of operations keeps counter, slices and index consistent; the indexed insertion
    refines a linear scan; the cap holds and evictions come from the front; the eviction loop ends
    after at most one round per rule; pruning removes exactly the stale rows of chronological slices, so that
    after a round of \<open>runPruner\<close> only recent rows are served.
  \<^item> \<open>AnomalyStore\<close>, \<open>Consumers\<close> (\<open>services/anomaly_consumer.go\<close>, \<open>services/consumer.go\<close>): the ring buffer, the
    normalisation of messages, the loops as state machines over what the client returns.
  \<^item> \<open>WSManager\<close>, \<open>WSManager_Props\<close> (\<open>services/wsmanager.go\<close>): goroutines as lists of atomic actions,
    interleaved by \<open>ws_step\<close>; bounded outboxes, the gauge, one writer per socket, and who waits when
    sockets accept nothing.
  \<^item> \<open>WSHandlers\<close>, \<open>WSHandlers_Props\<close> (\<open>handlers/websocket.go\<close>): the handlers as loops over the results of
    \<open>ReadMessage\<close>, with the manager's actions; what reading on after a timeout does to a connection.
  \<^item> \<open>LiveFeed\<close>: the goroutines of the consumer and of a handler over the live store and the manager,
    action by action; no update is lost between a subscription and its snapshot.

  \<^bold>\<open>Rules.\<close>
  \<^item> \<open>RuleModel\<close> (\<open>models/rule.go\<close>), \<open>Naming\<close> (\<open>store/naming.go\<close>): the rule, its JSON and its name.
  \<^item> \<open>RuleStore\<close>, \<open>RuleStore_Props\<close> (\<open>services/rule_store.go\<close>): the five tables, statements and transactions;
    one active version per rule; what is saved is what a restart loads.
  \<^item> \<open>RulesHandler\<close>, \<open>RulesHandler_Props\<close> (\<open>handlers/rules.go\<close>, \<open>services/kafka.go\<close>): requests against map,
    tables and topic, with every failure; where the three stay together and where they part.

  \<^bold>\<open>Identity.\<close>
  \<^item> \<open>Rbac\<close>, \<open>Rbac_Props\<close> (\<open>services/rbac.go\<close>): permission cache with interleaved checks, provisioning with its
    limiter, audit. \<open>Admin\<close>, \<open>Admin_Props\<close> (\<open>services/admin.go\<close>, \<open>handlers/admin.go\<close>): the Admin Panel.
  \<^item> \<open>Auth\<close>, \<open>Auth_Props\<close> (\<open>middleware/auth.go\<close>, \<open>handlers/iam.go\<close>, the routes of \<open>main.go\<close>): the guards, over
    the interfaces \<open>permission_source\<close> and \<open>identity_source\<close> that \<open>Rbac\<close> provides.

  \<^bold>\<open>Questions about the past.\<close>
  \<^item> \<open>IcebergSchema\<close>, \<open>Filters\<close>, \<open>Filters_Props\<close>: filter trees and HAVING expressions to SQL.
  \<^item> \<open>DuckEngine\<close>, \<open>DuckEngine_Props\<close>: the pinned connection and the query slot, with concurrent requests.
  \<^item> \<open>HistoricalQuery\<close>, \<open>HistoricalQuery_Props\<close>: analysis and breakdown (all of \<open>services/duckdb.go\<close>).
  \<^item> \<open>ClickHouse\<close>, \<open>ClickHouse_Props\<close> (\<open>services/clickhouse.go\<close>): pool, queries, rows. \<open>PoolRequests\<close>:
    requests that overlap on the pool. \<open>AnswerRows\<close>: the names and values in the rows of both
    databases.
  \<^item> \<open>AnalysisHandlers\<close>, \<open>AnalysisHandlers_Props\<close> (\<open>handlers/analysis.go\<close>, the probes of \<open>handlers/rules.go\<close>).

  \<^bold>\<open>Platform.\<close> \<open>Config\<close> (\<open>config/config.go\<close>), \<open>MySQL\<close> (\<open>services/mysql.go\<close>), \<open>HttpMetrics\<close>
  (\<open>middleware/metrics.go\<close>), \<open>Metrics\<close> (\<open>metrics/metrics.go\<close>: the registry, what the library accepts of a
  metric, what a scrape reads of the other components), \<open>HttpServer\<close> (\<open>main.go\<close>: log level, CORS and
  time limits, against the routes and the budgets of the handlers), \<open>Startup\<close> and \<open>Platform\<close> (\<open>main.go\<close>:
  bootstrap, origins, shared connections, end).

  \<^bold>\<open>The whole server.\<close> \<open>Server\<close> puts the components into one process and one set of tables: \<open>serve\<close> takes a
  request, finds its endpoint, runs the guard of the route and then the handler of the component, and
  \<open>server_reach\<close> closes a start under requests, under messages of the two topics, under the pruner and
  under a restart, which loses what is in memory. \<open>Server_Props\<close> lifts the invariants of the components
  to it and shows that whatever a request changes in rules, users or roles it changes with the
  permission that its route asks for, held by the person that its header names.

  \<^bold>\<open>Loops and bounds.\<close> Every loop of the source that ends is a total function, with its measure where the
  recursion is not structural. The eviction loop also has a version with fuel: as many rounds as there
  are rules, and one. Loops that run as long as the process (consumers, \<open>writePump\<close>, socket handlers) are
  functions of a finite sequence of what they receive, or goroutines of a step relation. Numbers are
  those of the source: 256 messages per outbox, 10000 anomalies, 5000 rows of an answer.

  \<^bold>\<open>Idealisations.\<close> MySQL compares text byte by byte here, while the tables' collation ignores case; a
  commit that fails has not happened; nil and empty slices are one, and JSON strings keep bytes that
  are not UTF-8. A critical section is atomic, so contention for mutexes does not show. Requests of
  the HTTP server never end the process (\<open>gin.Recovery\<close>). Each is said again where it is used.

  \<^bold>\<open>Not modelled.\<close> The text of log lines; the durations that histograms observe (their buckets and labels
  are in \<open>Metrics\<close>, the delay of results in \<open>Consumers\<close>); the listening socket and the enforcement of time
  limits and of the body limit, which are \<open>net/http\<close>'s and \<open>gin\<close>'s (the values are in \<open>HttpServer\<close>); the SQL
  migrations (their tables and seeds are the state of the models); the execution of SQL and JSON text,
  which is the databases' and the library's. Time enters as an argument. \<open>Server\<close> takes requests one
  after the other; requests that overlap are in \<open>Rbac\<close>, \<open>DuckEngine\<close>, \<open>PoolRequests\<close>, \<open>WSManager\<close> and
  \<open>LiveFeed\<close>, each for the state they share.
\<close>

end
